(* ===== verification/Prelude.thy ===== *)
theory Prelude
  imports Main "HOL-Library.AList" "HOL-Library.State_Monad"
begin

text \<open>
  What every component of the development shares: Go's string maps as association lists,
  Go errors as a datatype, object keys, and the effect model.

  A controller of the repository talks to the API server, to BMCs, to Talos nodes, to a clock,
  to an event recorder. None of that code is under \<open>src/\<close>: each such call is a parameter,
  a function on an arbitrary type of outside worlds that may change between any two calls.
  A program is a computation of the library's state monad over a record that holds the world
  and the trace of the calls made so far. \<open>extcall\<close> runs one outside call and records it.
  \<open>triple P m Q\<close> says: from any world with \<open>P\<close>, the run of \<open>m\<close> appends some list of
  calls \<open>xs\<close> to the trace and its result, that list and the final world satisfy \<open>Q\<close>. The
  contracts of the operations are triples, collected under \<open>contract\<close>.
\<close>

named_theorems contract \<open>contracts of operations, as triples\<close>
named_theorems gomap_simps \<open>lookups in Go maps\<close>

section \<open>Go maps from string to string\<close>

text \<open>
  Labels and annotations are \<open>map[string]string\<close>. They are association lists, so that the
  code's \<open>range\<close> loops over a map can be written; a lookup takes the first binding and all
  operations of the model keep at most one binding per key. Go's nil map and the empty map are
  both \<open>[]\<close>: the code allocates a map before it writes to a nil one.
\<close>

type_synonym gomap = "(string \<times> string) list"

definition mhas :: "gomap \<Rightarrow> string \<Rightarrow> bool" where
  "mhas m k \<longleftrightarrow> map_of m k \<noteq> None"

definition mget :: "gomap \<Rightarrow> string \<Rightarrow> string" where
  "mget m k = (case map_of m k of None \<Rightarrow> [] | Some v \<Rightarrow> v)"

definition mput :: "string \<Rightarrow> string \<Rightarrow> gomap \<Rightarrow> gomap" where
  "mput k v m = AList.update k v m"

definition mdelete :: "string \<Rightarrow> gomap \<Rightarrow> gomap" where
  "mdelete k m = AList.delete k m"

fun mdelete_all :: "string list \<Rightarrow> gomap \<Rightarrow> gomap" where
  "mdelete_all [] m = m"
| "mdelete_all (k # ks) m = mdelete_all ks (mdelete k m)"

lemma map_of_mput [simp, gomap_simps]: "map_of (mput k v m) = (map_of m)(k \<mapsto> v)"
  by (simp add: mput_def update_conv')

lemma map_of_mdelete [simp, gomap_simps]: "map_of (mdelete k m) = (map_of m)(k := None)"
  by (simp add: mdelete_def delete_conv')

lemma map_of_mdelete_all [simp, gomap_simps]:
  "map_of (mdelete_all ks m) k = (if k \<in> set ks then None else map_of m k)"
  by (induction ks arbitrary: m) auto

lemma mhas_mput [simp, gomap_simps]: "mhas (mput k v m) k' \<longleftrightarrow> k' = k \<or> mhas m k'"
  by (simp add: mhas_def)

lemma mhas_mdelete [simp, gomap_simps]: "mhas (mdelete k m) k' \<longleftrightarrow> k' \<noteq> k \<and> mhas m k'"
  by (simp add: mhas_def)

lemma mhas_mdelete_all [simp, gomap_simps]:
  "mhas (mdelete_all ks m) k \<longleftrightarrow> k \<notin> set ks \<and> mhas m k"
  by (simp add: mhas_def)

lemma mget_mput [simp, gomap_simps]: "mget (mput k v m) k' = (if k' = k then v else mget m k')"
  by (simp add: mget_def)

lemma mget_absent: "\<not> mhas m k \<Longrightarrow> mget m k = []"
  by (simp add: mget_def mhas_def)

definition wf_gomap :: "gomap \<Rightarrow> bool" where
  "wf_gomap m \<longleftrightarrow> distinct (map fst m)"

lemma wf_gomap_Nil [simp, intro]: "wf_gomap []"
  by (simp add: wf_gomap_def)

lemma wf_gomap_mput [simp, intro]: "wf_gomap m \<Longrightarrow> wf_gomap (mput k v m)"
  by (simp add: wf_gomap_def mput_def distinct_update)

lemma wf_gomap_mdelete [simp, intro]: "wf_gomap m \<Longrightarrow> wf_gomap (mdelete k m)"
  by (simp add: wf_gomap_def mdelete_def distinct_delete)

lemma wf_gomap_mdelete_all [simp, intro]: "wf_gomap m \<Longrightarrow> wf_gomap (mdelete_all ks m)"
  by (induction ks arbitrary: m) auto

lemma wf_gomap_mem: "wf_gomap m \<Longrightarrow> (k, v) \<in> set m \<longleftrightarrow> map_of m k = Some v"
  by (simp add: wf_gomap_def)

section \<open>Object keys and errors\<close>

record object_key =
  key_namespace :: string
  key_name :: string

text \<open>
  Go errors, as far as the code distinguishes them: the API server's NotFound, Conflict and
  AlreadyExists (\<open>apierrors.IsX\<close>), any other error, \<open>fmt.Errorf("...: %w", err)\<close> and the
  teardown's \<open>errTransient\<close> marker. \<open>IsNotFound\<close> and its kin look through wrapping.
\<close>

datatype go_error =
    NotFound
  | Conflict
  | AlreadyExists
  | OtherError string
  | Wrap string go_error
  | Transient go_error

fun IsNotFound :: "go_error \<Rightarrow> bool" where
  "IsNotFound NotFound = True"
| "IsNotFound (Wrap _ e) = IsNotFound e"
| "IsNotFound (Transient e) = IsNotFound e"
| "IsNotFound _ = False"

fun IsConflict :: "go_error \<Rightarrow> bool" where
  "IsConflict Conflict = True"
| "IsConflict (Wrap _ e) = IsConflict e"
| "IsConflict (Transient e) = IsConflict e"
| "IsConflict _ = False"

fun is_transient :: "go_error \<Rightarrow> bool" where
  "is_transient (Transient _) = True"
| "is_transient (Wrap _ e) = is_transient e"
| "is_transient _ = False"

text \<open>\<open>client.IgnoreNotFound\<close>: nil on NotFound, the error otherwise.\<close>

definition IgnoreNotFound :: "go_error \<Rightarrow> go_error option" where
  "IgnoreNotFound e = (if IsNotFound e then None else Some e)"

section \<open>Effects: a world, a trace, outside calls\<close>

record ('w, 'a) st =
  world :: 'w
  trace :: "'a list"

type_synonym ('w, 'a, 'r) prog = "(('w, 'a) st, 'r) state"

definition extcall :: "('r \<Rightarrow> 'a) \<Rightarrow> ('w \<Rightarrow> 'r \<times> 'w) \<Rightarrow> ('w, 'a, 'r) prog" where
  "extcall act f = State (\<lambda>s. case f (world s) of
     (r, w) \<Rightarrow> (r, s\<lparr>world := w, trace := trace s @ [act r]\<rparr>))"

text \<open>An outside call whose answer the code never reads (an event, a metric).\<close>

definition emit :: "'a \<Rightarrow> ('w, 'a, unit) prog" where
  "emit a = State (\<lambda>s. ((), s\<lparr>trace := trace s @ [a]\<rparr>))"

lemma run_extcall [simp]:
  "run_state (extcall act f) s = (case f (world s) of
     (r, w) \<Rightarrow> (r, s\<lparr>world := w, trace := trace s @ [act r]\<rparr>))"
  by (simp add: extcall_def)

lemma run_emit [simp]: "run_state (emit a) s = ((), s\<lparr>trace := trace s @ [a]\<rparr>)"
  by (simp add: emit_def)

section \<open>Contracts\<close>

definition triple ::
    "('w \<Rightarrow> bool) \<Rightarrow> ('w, 'a, 'r) prog \<Rightarrow> ('r \<Rightarrow> 'a list \<Rightarrow> 'w \<Rightarrow> bool) \<Rightarrow> bool" where
  "triple P m Q \<longleftrightarrow> (\<forall>s r s'. P (world s) \<longrightarrow> run_state m s = (r, s') \<longrightarrow>
     (\<exists>xs. trace s' = trace s @ xs \<and> Q r xs (world s')))"

abbreviation yields :: "('w, 'a, 'r) prog \<Rightarrow> ('r \<Rightarrow> 'a list \<Rightarrow> bool) \<Rightarrow> bool" where
  "yields m Q \<equiv> triple (\<lambda>_. True) m (\<lambda>r xs _. Q r xs)"

lemma tripleI:
  "(\<And>s r s'. P (world s) \<Longrightarrow> run_state m s = (r, s') \<Longrightarrow>
      \<exists>xs. trace s' = trace s @ xs \<and> Q r xs (world s')) \<Longrightarrow> triple P m Q"
  by (auto simp: triple_def)

lemma tripleD:
  "triple P m Q \<Longrightarrow> run_state m s = (r, s') \<Longrightarrow> P (world s) \<Longrightarrow>
     \<exists>xs. trace s' = trace s @ xs \<and> Q r xs (world s')"
  by (auto simp: triple_def)

lemma triple_return: "(\<And>w. P w \<Longrightarrow> Q r [] w) \<Longrightarrow> triple P (State_Monad.return r) Q"
  by (auto simp: triple_def)

lemma triple_weaken:
  "triple P m R \<Longrightarrow> (\<And>w. P' w \<Longrightarrow> P w) \<Longrightarrow> (\<And>r xs w. R r xs w \<Longrightarrow> Q r xs w) \<Longrightarrow> triple P' m Q"
  by (fastforce simp: triple_def)

lemma triple_bind:
  assumes m: "triple P m R"
    and f: "\<And>r xs. triple (\<lambda>w. R r xs w) (f r) (\<lambda>r' ys w. Q r' (xs @ ys) w)"
  shows "triple P (State_Monad.bind m f) Q"
proof (rule tripleI)
  fix s r' s'
  assume P: "P (world s)" and run: "run_state (State_Monad.bind m f) s = (r', s')"
  obtain r t where t: "run_state m s = (r, t)" by fastforce
  with run have ft: "run_state (f r) t = (r', s')" by simp
  from tripleD [OF m t P] obtain xs where xs: "trace t = trace s @ xs" "R r xs (world t)" by blast
  from tripleD [OF f ft xs(2)] obtain ys where
    "trace s' = trace t @ ys" "Q r' (xs @ ys) (world s')" by blast
  with xs show "\<exists>xs. trace s' = trace s @ xs \<and> Q r' xs (world s')" by auto
qed

lemma triple_extcall:
  "(\<And>w r w'. P w \<Longrightarrow> f w = (r, w') \<Longrightarrow> Q r [act r] w') \<Longrightarrow> triple P (extcall act f) Q"
  by (auto simp: triple_def split: prod.splits)

lemma triple_emit: "(\<And>w. P w \<Longrightarrow> Q () [a] w) \<Longrightarrow> triple P (emit a) Q"
  by (auto simp: triple_def)

lemma triple_pre: "(P' \<Longrightarrow> triple P m Q) \<Longrightarrow> triple (\<lambda>w. P' \<and> P w) m Q"
  by (auto simp: triple_def)

lemma triple_conj:
  "triple P m Q \<Longrightarrow> triple P m R \<Longrightarrow> triple P m (\<lambda>r xs w. Q r xs w \<and> R r xs w)"
  by (fastforce simp: triple_def)

text \<open>The same rules where the world does not matter.\<close>

lemma yields_return: "Q r [] \<Longrightarrow> yields (State_Monad.return r) Q"
  by (rule triple_return)

lemma yields_weaken: "yields m R \<Longrightarrow> (\<And>r xs. R r xs \<Longrightarrow> Q r xs) \<Longrightarrow> yields m Q"
  by (rule triple_weaken)

lemma yields_bind:
  assumes "yields m R"
    and "\<And>r xs. R r xs \<Longrightarrow> yields (f r) (\<lambda>r' ys. Q r' (xs @ ys))"
  shows "yields (State_Monad.bind m f) Q"
  using assms by (intro triple_bind) (fastforce simp: triple_def)+

lemma yields_bind_prefix:
  assumes "yields m S" and "\<And>r. yields (f r) Q'" and "\<And>r xs r' ys. S r xs \<Longrightarrow> Q' r' ys \<Longrightarrow> Q r' (xs @ ys)"
  shows "yields (State_Monad.bind m f) Q"
  by (rule yields_bind [OF assms(1)], rule yields_weaken [OF assms(2)]) (rule assms(3))

lemma yields_extcall: "yields (extcall act f) (\<lambda>r xs. xs = [act r] \<and> (\<exists>w. r = fst (f w)))"
  by (rule triple_extcall) (metis fst_conv)

lemma yields_emit: "yields (emit a) (\<lambda>_ xs. xs = [a])"
  by (rule triple_emit) simp

lemma yields_bind_extcall:
  assumes "\<And>w. yields (k (fst (f w))) (\<lambda>r' ys. Q r' (act (fst (f w)) # ys))"
  shows "yields (State_Monad.bind (extcall act f) k) Q"
  by (rule yields_bind [OF yields_extcall]) (use assms in auto)

lemma yields_bind_emit:
  assumes "yields (k ()) (\<lambda>r' ys. Q r' (a # ys))"
  shows "yields (State_Monad.bind (emit a) k) Q"
  by (rule yields_bind [OF yields_emit]) (use assms in auto)

lemma yields_run:
  "yields m Q \<Longrightarrow> run_state m s = (r, s') \<Longrightarrow> \<exists>xs. trace s' = trace s @ xs \<and> Q r xs"
  by (auto simp: triple_def)

lemma yields_run_empty:
  "yields m Q \<Longrightarrow> run_state m \<lparr>world = w, trace = []\<rparr> = (r, s') \<Longrightarrow> Q r (trace s')"
  by (drule (1) yields_run) auto

lemma yields_case_sum:
  assumes "\<And>e. x = Inl e \<Longrightarrow> yields (f e) Q" and "\<And>a. x = Inr a \<Longrightarrow> yields (g a) Q"
  shows "yields (case x of Inl e \<Rightarrow> f e | Inr a \<Rightarrow> g a) Q"
  using assms by (cases x) auto

lemma yields_case_option:
  assumes "x = None \<Longrightarrow> yields f Q" and "\<And>a. x = Some a \<Longrightarrow> yields (g a) Q"
  shows "yields (case x of None \<Rightarrow> f | Some a \<Rightarrow> g a) Q"
  using assms by (cases x) auto

lemma yields_if:
  assumes "b \<Longrightarrow> yields m Q" and "\<not> b \<Longrightarrow> yields n Q"
  shows "yields (if b then m else n) Q"
  using assms by auto

lemma yields_case_prod:
  assumes "\<And>a b. x = (a, b) \<Longrightarrow> yields (f a b) Q"
  shows "yields (case x of (a, b) \<Rightarrow> f a b) Q"
  using assms by (cases x) auto

lemmas yields_branch = yields_case_sum yields_case_option yields_if

text \<open>What holds of every call of a program.\<close>

abbreviation calls_only :: "('a \<Rightarrow> bool) \<Rightarrow> ('w, 'a, 'r) prog \<Rightarrow> bool" where
  "calls_only P m \<equiv> yields m (\<lambda>_ xs. \<forall>x \<in> set xs. P x)"

lemma calls_only_return: "calls_only P (State_Monad.return r)"
  by (rule yields_return) simp

lemma calls_only_bind: "calls_only P m \<Longrightarrow> (\<And>r. calls_only P (f r)) \<Longrightarrow> calls_only P (State_Monad.bind m f)"
  by (rule yields_bind_prefix [where S = "\<lambda>_ xs. \<forall>x \<in> set xs. P x" and Q' = "\<lambda>_ xs. \<forall>x \<in> set xs. P x"]) auto

lemma calls_only_extcall: "(\<And>w. P (act (fst (f w)))) \<Longrightarrow> calls_only P (extcall act f)"
  by (rule yields_weaken [OF yields_extcall]) auto

lemmas calls_only_intros = calls_only_return calls_only_bind calls_only_extcall yields_branch

section \<open>Protocols\<close>

text \<open>
  A protocol says which call is permitted after which history. \<open>guarded A us xs\<close>: after the calls
  \<open>us\<close>, each of the calls \<open>xs\<close> is permitted by the calls before it. \<open>follows A us m Q\<close>: run after
  \<open>us\<close>, the program \<open>m\<close> keeps to the protocol, and its result and the whole history satisfy \<open>Q\<close>.
\<close>

fun guarded :: "('a list \<Rightarrow> 'a \<Rightarrow> bool) \<Rightarrow> 'a list \<Rightarrow> 'a list \<Rightarrow> bool" where
  "guarded A us [] = True"
| "guarded A us (x # xs) = (A us x \<and> guarded A (us @ [x]) xs)"

lemma guarded_append [simp]: "guarded A us (xs @ ys) \<longleftrightarrow> guarded A us xs \<and> guarded A (us @ xs) ys"
  by (induction xs arbitrary: us) auto

lemma guardedD: "guarded A [] xs \<Longrightarrow> xs = us @ x # vs \<Longrightarrow> A us x"
  by simp

lemma guarded_mono: "guarded A us xs \<Longrightarrow> (\<And>us x. A us x \<Longrightarrow> B us x) \<Longrightarrow> guarded B us xs"
  by (induction xs arbitrary: us) auto

definition follows ::
    "('a list \<Rightarrow> 'a \<Rightarrow> bool) \<Rightarrow> 'a list \<Rightarrow> ('w, 'a, 'r) prog \<Rightarrow> ('r \<Rightarrow> 'a list \<Rightarrow> bool) \<Rightarrow> bool" where
  "follows A us m Q \<longleftrightarrow> yields m (\<lambda>r xs. guarded A us xs \<and> Q r (us @ xs))"

lemma follows_return: "Q r us \<Longrightarrow> follows A us (State_Monad.return r) Q"
  unfolding follows_def by (rule yields_return) simp

lemma follows_weaken: "follows A us m R \<Longrightarrow> (\<And>r vs. R r vs \<Longrightarrow> Q r vs) \<Longrightarrow> follows A us m Q"
  unfolding follows_def by (erule yields_weaken) auto

lemma follows_bind:
  assumes m: "follows A us m R" and f: "\<And>r vs. R r vs \<Longrightarrow> follows A vs (f r) Q"
  shows "follows A us (State_Monad.bind m f) Q"
  unfolding follows_def
proof (rule yields_bind [OF m [unfolded follows_def]])
  fix r xs
  assume *: "guarded A us xs \<and> R r (us @ xs)"
  with f have "follows A (us @ xs) (f r) Q" by blast
  then show "yields (f r) (\<lambda>r' ys. guarded A us (xs @ ys) \<and> Q r' (us @ xs @ ys))"
    unfolding follows_def by (rule yields_weaken) (use * in auto)
qed

lemma follows_yields:
  assumes "yields m S" and "\<And>r xs. S r xs \<Longrightarrow> guarded A us xs"
  shows "follows A us m (\<lambda>r vs. \<exists>xs. vs = us @ xs \<and> S r xs)"
  unfolding follows_def by (rule yields_weaken [OF assms(1)]) (use assms(2) in auto)

lemma follows_bind_yields:
  assumes "yields m S" and "\<And>r xs. S r xs \<Longrightarrow> guarded A us xs"
    and "\<And>r xs. S r xs \<Longrightarrow> follows A (us @ xs) (f r) Q"
  shows "follows A us (State_Monad.bind m f) Q"
  by (rule follows_bind [OF follows_yields [OF assms(1,2)]]) (use assms(3) in auto)

lemma follows_bind_extcall:
  assumes "\<And>r. A us (act r)" and "\<And>r. follows A (us @ [act r]) (k r) Q"
  shows "follows A us (State_Monad.bind (extcall act f) k) Q"
  by (rule follows_bind_yields [OF yields_extcall]) (use assms in auto)

text \<open>The same rule where the protocol asks what the call answered.\<close>

lemma follows_bind_call:
  assumes "\<And>w. A us (act (fst (f w)))" and "\<And>w. follows A (us @ [act (fst (f w))]) (k (fst (f w))) Q"
  shows "follows A us (State_Monad.bind (extcall act f) k) Q"
  by (rule follows_bind_yields [OF yields_extcall]) (use assms in auto)

lemma follows_bind_emit:
  assumes "A us a" and "follows A (us @ [a]) (k ()) Q"
  shows "follows A us (State_Monad.bind (emit a) k) Q"
  by (rule follows_bind_yields [OF yields_emit]) (use assms in auto)

lemma follows_case_sum:
  assumes "\<And>e. x = Inl e \<Longrightarrow> follows A us (f e) Q" and "\<And>a. x = Inr a \<Longrightarrow> follows A us (g a) Q"
  shows "follows A us (case x of Inl e \<Rightarrow> f e | Inr a \<Rightarrow> g a) Q"
  using assms by (cases x) auto

lemma follows_case_option:
  assumes "x = None \<Longrightarrow> follows A us f Q" and "\<And>a. x = Some a \<Longrightarrow> follows A us (g a) Q"
  shows "follows A us (case x of None \<Rightarrow> f | Some a \<Rightarrow> g a) Q"
  using assms by (cases x) auto

lemma follows_if:
  assumes "b \<Longrightarrow> follows A us m Q" and "\<not> b \<Longrightarrow> follows A us n Q"
  shows "follows A us (if b then m else n) Q"
  using assms by auto

lemma follows_case_prod:
  assumes "\<And>a b. x = (a, b) \<Longrightarrow> follows A us (f a b) Q"
  shows "follows A us (case x of (a, b) \<Rightarrow> f a b) Q"
  using assms by (cases x) auto

lemmas follows_branch = follows_case_sum follows_case_option follows_if

end
