(* ===== verification/GoStrings.thy ===== *)
theory GoStrings
  imports Prelude
begin

text \<open>
  The parts of Go's \<open>strings\<close>, \<open>unicode/utf8\<close> and \<open>strconv\<close> the program uses. A Go string is a
  sequence of bytes, a \<^typ>\<open>string\<close> here; \<open>range\<close> and the case functions decode it as UTF-8,
  an invalid byte being the rune U+FFFD of width one (\<open>utf8.DecodeRuneInString\<close>).

  Limits: \<open>lower_chunk\<close> and \<open>fold_rune\<close> know the ASCII letters and every non-ASCII code point
  whose lower case or fold is an ASCII letter (U+0130, U+212A, U+017F); other non-ASCII letters
  keep their case. No caller distinguishes those from each other: \<open>SanitizeName\<close> and the MAC
  pattern only look for ASCII, and etcd member names are RFC 1123 host names.
\<close>

type_synonym rune = nat

abbreviation byte :: "char \<Rightarrow> nat" where
  "byte c \<equiv> of_char c"

definition RuneError :: rune where
  "RuneError = 65533"

definition cont_byte :: "nat \<Rightarrow> nat \<Rightarrow> char \<Rightarrow> bool" where
  "cont_byte lo hi c \<longleftrightarrow> lo \<le> byte c \<and> byte c \<le> hi"

text \<open>The accepted range of the second byte, by the first one (Go's \<open>acceptRanges\<close>).\<close>

definition second_range :: "nat \<Rightarrow> nat \<times> nat" where
  "second_range b0 =
     (if b0 = 0xE0 then (0xA0, 0xBF) else if b0 = 0xED then (0x80, 0x9F)
      else if b0 = 0xF0 then (0x90, 0xBF) else if b0 = 0xF4 then (0x80, 0x8F) else (0x80, 0xBF))"

text \<open>The rune at the head of a non-empty string (first byte, rest) and the bytes it takes after
  the first one.\<close>

fun decode_multi :: "nat \<Rightarrow> string \<Rightarrow> rune \<times> nat" where
  "decode_multi b0 (c1 # cs) =
     (case second_range b0 of (lo, hi) \<Rightarrow>
      if \<not> cont_byte lo hi c1 then (RuneError, 0)
      else if 0xC2 \<le> b0 \<and> b0 \<le> 0xDF then ((b0 mod 32) * 64 + byte c1 mod 64, 1)
      else (case cs of
        [] \<Rightarrow> (RuneError, 0)
      | c2 # cs' \<Rightarrow>
          if \<not> cont_byte 0x80 0xBF c2 then (RuneError, 0)
          else if 0xE0 \<le> b0 \<and> b0 \<le> 0xEF
            then ((b0 mod 16) * 4096 + (byte c1 mod 64) * 64 + byte c2 mod 64, 2)
          else (case cs' of
            [] \<Rightarrow> (RuneError, 0)
          | c3 # _ \<Rightarrow>
              if \<not> cont_byte 0x80 0xBF c3 then (RuneError, 0)
              else ((b0 mod 8) * 262144 + (byte c1 mod 64) * 4096
                      + (byte c2 mod 64) * 64 + byte c3 mod 64, 3))))"
| "decode_multi b0 [] = (RuneError, 0)"

definition decode_rune :: "char \<Rightarrow> string \<Rightarrow> rune \<times> nat" where
  "decode_rune c cs =
     (if byte c < 0x80 then (byte c, 0)
      else if byte c < 0xC2 \<or> 0xF4 < byte c then (RuneError, 0)
      else decode_multi (byte c) cs)"

text \<open>A string as the runes it decodes to, each with the bytes it came from.\<close>

fun chunks :: "string \<Rightarrow> (rune \<times> string) list" where
  "chunks [] = []"
| "chunks (c # cs) = (case decode_rune c cs of
     (r, n) \<Rightarrow> (r, c # take n cs) # chunks (drop n cs))"

definition runes :: "string \<Rightarrow> rune list" where
  "runes s = map fst (chunks s)"

definition ascii :: "string \<Rightarrow> bool" where
  "ascii s \<longleftrightarrow> (\<forall>c \<in> set s. byte c < 0x80)"

lemma ascii_simps [simp]:
  "ascii []" "ascii (c # s) \<longleftrightarrow> byte c < 0x80 \<and> ascii s" "ascii (s @ t) \<longleftrightarrow> ascii s \<and> ascii t"
  by (auto simp: ascii_def)

lemma chunks_ascii: "ascii s \<Longrightarrow> chunks s = map (\<lambda>c. (byte c, [c])) s"
  by (induction s) (auto simp: decode_rune_def)

lemma runes_ascii: "ascii s \<Longrightarrow> runes s = map byte s"
  by (simp add: runes_def chunks_ascii)

lemma concat_chunks: "concat (map snd (chunks s)) = s"
  by (induction s rule: chunks.induct) (auto split: prod.splits)

section \<open>Case\<close>

text \<open>\<open>unicode.ToLower\<close> on the code points that matter: U+0130 and U+212A lower to ASCII.\<close>

definition lower_rune :: "rune \<Rightarrow> rune" where
  "lower_rune r = (if 65 \<le> r \<and> r \<le> 90 then r + 32
     else if r = 0x130 then 105 else if r = 0x212A then 107 else r)"

definition lower_chunk :: "rune \<times> string \<Rightarrow> string" where
  "lower_chunk p = (case p of (r, bs) \<Rightarrow>
     if r = RuneError then [char_of (0xEF :: nat), char_of (0xBF :: nat), char_of (0xBD :: nat)]
     else if lower_rune r = r then bs else [char_of (lower_rune r)])"

definition ToLower :: "string \<Rightarrow> string" where
  "ToLower s = concat (map lower_chunk (chunks s))"

definition lower_char :: "char \<Rightarrow> char" where
  "lower_char c = (if 65 \<le> byte c \<and> byte c \<le> 90 then char_of (byte c + 32) else c)"

lemma ToLower_ascii: "ascii s \<Longrightarrow> ToLower s = map lower_char s"
proof -
  assume a: "ascii s"
  have "concat (map (lower_chunk \<circ> (\<lambda>c. (byte c, [c]))) s) = map lower_char s"
    using a by (induction s)
      (auto simp: lower_chunk_def lower_rune_def lower_char_def RuneError_def)
  with a show ?thesis by (simp add: ToLower_def chunks_ascii)
qed

lemma byte_char_of: "n < 256 \<Longrightarrow> byte (char_of n) = n"
  by simp

lemma byte_lower_char: "byte (lower_char c) = (if 65 \<le> byte c \<and> byte c \<le> 90 then byte c + 32 else byte c)"
  by (simp add: lower_char_def)

lemma ascii_ToLower: "ascii s \<Longrightarrow> ascii (ToLower s)"
  by (auto simp: ToLower_ascii ascii_def byte_lower_char)

lemma ToLower_idem_ascii: "ascii s \<Longrightarrow> ToLower (ToLower s) = ToLower s"
proof -
  assume a: "ascii s"
  have "lower_char (lower_char c) = lower_char c" for c
    by (simp add: lower_char_def)
  with a show ?thesis by (simp add: ToLower_ascii ascii_ToLower [OF a, unfolded ToLower_ascii [OF a]])
qed

text \<open>\<open>strings.EqualFold\<close>: equal under simple folding, rune by rune.\<close>

definition fold_rune :: "rune \<Rightarrow> rune" where
  "fold_rune r = (if 65 \<le> r \<and> r \<le> 90 then r + 32
     else if r = 0x212A then 107 else if r = 0x17F then 115 else r)"

definition EqualFold :: "string \<Rightarrow> string \<Rightarrow> bool" where
  "EqualFold s t \<longleftrightarrow> map fold_rune (runes s) = map fold_rune (runes t)"

lemma EqualFold_refl [simp]: "EqualFold s s"
  by (simp add: EqualFold_def)

lemma EqualFold_sym: "EqualFold s t \<Longrightarrow> EqualFold t s"
  by (simp add: EqualFold_def)

lemma EqualFold_trans: "EqualFold s t \<Longrightarrow> EqualFold t u \<Longrightarrow> EqualFold s u"
  by (simp add: EqualFold_def)

lemma EqualFold_lower:
  assumes "ascii s" and "ascii t"
  shows "EqualFold s t \<longleftrightarrow> ToLower s = ToLower t"
proof -
  have f: "fold_rune (byte c) = byte (lower_char c)" if "byte c < 0x80" for c
    using that by (simp add: fold_rune_def byte_lower_char)
  have st: "map (fold_rune \<circ> byte) s = map (byte \<circ> lower_char) s"
    "map (fold_rune \<circ> byte) t = map (byte \<circ> lower_char) t"
    using assms f by (auto simp: ascii_def)
  moreover have "map (byte \<circ> lower_char) s = map (byte \<circ> lower_char) t \<longleftrightarrow> map lower_char s = map lower_char t"
    by (simp add: list.inj_map_strong inj_map_eq_map [OF inj_of_char] flip: map_map)
  ultimately show ?thesis
    using assms by (simp add: EqualFold_def runes_ascii ToLower_ascii st)
qed

section \<open>Cutting, splitting, trimming, replacing\<close>

text \<open>\<open>strings.Cut\<close> and \<open>strings.Split\<close>; every separator of the program is one ASCII byte.\<close>

fun Cut :: "char \<Rightarrow> string \<Rightarrow> string \<times> string \<times> bool" where
  "Cut sep [] = ([], [], False)"
| "Cut sep (c # s) = (if c = sep then ([], s, True)
     else (case Cut sep s of (before, after, found) \<Rightarrow> (c # before, after, found)))"

fun Split :: "char \<Rightarrow> string \<Rightarrow> string list" where
  "Split sep [] = [[]]"
| "Split sep (c # s) = (if c = sep then [] # Split sep s
     else (case Split sep s of [] \<Rightarrow> [[c]] | p # ps \<Rightarrow> (c # p) # ps))"

lemma Cut_found: "sep \<notin> set a \<Longrightarrow> Cut sep (a @ sep # b) = (a, b, True)"
  by (induction a) auto

lemma Cut_absent: "sep \<notin> set s \<Longrightarrow> Cut sep s = (s, [], False)"
  by (induction s) auto

lemma Cut_fst: "fst (Cut sep s) = takeWhile (\<lambda>c. c \<noteq> sep) s"
  by (induction s) (auto split: prod.splits)

lemma Cut_True: "Cut sep s = (a, b, True) \<Longrightarrow> s = a @ sep # b \<and> sep \<notin> set a"
  by (induction s arbitrary: a b) (auto split: if_splits prod.splits)

lemma Cut_False: "Cut sep s = (a, b, False) \<Longrightarrow> sep \<notin> set s \<and> a = s \<and> b = []"
  by (induction s arbitrary: a b) (auto split: if_splits prod.splits)

lemma Split_nonempty [simp]: "Split sep s \<noteq> []"
  by (cases "(sep, s)" rule: Split.cases) (auto split: list.splits)

lemma Split_absent: "sep \<notin> set s \<Longrightarrow> Split sep s = [s]"
  by (induction s) auto

lemma Split_append: "sep \<notin> set a \<Longrightarrow> Split sep (a @ sep # b) = a # Split sep b"
  by (induction a) auto

text \<open>\<open>strings.Join\<close> with a separator.\<close>

fun Join :: "string \<Rightarrow> string list \<Rightarrow> string" where
  "Join sep [] = []"
| "Join sep [p] = p"
| "Join sep (p # q # ps) = p @ sep @ Join sep (q # ps)"

lemma Split_Join:
  "ps \<noteq> [] \<Longrightarrow> (\<forall>p \<in> set ps. sep \<notin> set p) \<Longrightarrow> Split sep (Join [sep] ps) = ps"
  by (induction "[sep]" ps rule: Join.induct) (auto simp: Split_absent Split_append)

lemma Join_Split: "Join [sep] (Split sep s) = s"
proof (induction s)
  case Nil
  then show ?case by simp
next
  case (Cons c s)
  then show ?case
    by (cases "Split sep s" rule: list.exhaust; cases "tl (Split sep s)") auto
qed

text \<open>\<open>strings.TrimRight(s, cutset)\<close> with a one-byte cutset, \<open>strings.HasPrefix\<close>, and replacing one
  byte by a string (\<open>strings.ReplaceAll\<close> and \<open>strings.NewReplacer\<close> on single bytes).\<close>

definition TrimRight :: "char \<Rightarrow> string \<Rightarrow> string" where
  "TrimRight c s = rev (dropWhile (\<lambda>x. x = c) (rev s))"

definition HasPrefix :: "string \<Rightarrow> string \<Rightarrow> bool" where
  "HasPrefix s p \<longleftrightarrow> take (length p) s = p"

definition ReplaceByte :: "char \<Rightarrow> string \<Rightarrow> string \<Rightarrow> string" where
  "ReplaceByte c new s = concat (map (\<lambda>x. if x = c then new else [x]) s)"

lemma TrimRight_prefix: "\<exists>n. s = TrimRight c s @ replicate n c"
proof -
  have "takeWhile (\<lambda>x. x = c) (rev s) = replicate (length (takeWhile (\<lambda>x. x = c) (rev s))) c"
    by (metis (mono_tags, lifting) replicate_eqI set_takeWhileD)
  then have "rev s = replicate (length (takeWhile (\<lambda>x. x = c) (rev s))) c @ dropWhile (\<lambda>x. x = c) (rev s)"
    by (metis takeWhile_dropWhile_id)
  then have "s = rev (dropWhile (\<lambda>x. x = c) (rev s)) @ replicate (length (takeWhile (\<lambda>x. x = c) (rev s))) c"
    by (metis rev_append rev_replicate rev_rev_ident)
  then show ?thesis by (auto simp: TrimRight_def)
qed

lemma TrimRight_last: "TrimRight c s \<noteq> [] \<Longrightarrow> last (TrimRight c s) \<noteq> c"
  using hd_dropWhile [of "\<lambda>x. x = c" "rev s"] by (auto simp: TrimRight_def last_rev)

lemma set_TrimRight: "set (TrimRight c s) \<subseteq> set s"
  by (auto simp: TrimRight_def dest: set_dropWhileD)

lemma length_TrimRight: "length (TrimRight c s) \<le> length s"
  using length_dropWhile_le [of "\<lambda>x. x = c" "rev s"] by (simp add: TrimRight_def)

lemma TrimRight_id: "s = [] \<or> last s \<noteq> c \<Longrightarrow> TrimRight c s = s"
  by (cases s rule: rev_cases) (auto simp: TrimRight_def)

lemma TrimRight_hd: "TrimRight c s \<noteq> [] \<Longrightarrow> hd (TrimRight c s) = hd s"
  by (metis TrimRight_prefix hd_append2)

text \<open>\<open>strings.TrimSpace\<close>: Unicode white space off both ends (\<open>unicode.IsSpace\<close>).\<close>

definition IsSpace :: "rune \<Rightarrow> bool" where
  "IsSpace r \<longleftrightarrow> 9 \<le> r \<and> r \<le> 13 \<or> r = 32 \<or> r = 0x85 \<or> r = 0xA0 \<or> r = 0x1680
     \<or> 0x2000 \<le> r \<and> r \<le> 0x200A \<or> r = 0x2028 \<or> r = 0x2029 \<or> r = 0x202F \<or> r = 0x205F \<or> r = 0x3000"

definition TrimSpace :: "string \<Rightarrow> string" where
  "TrimSpace s = concat (map snd
     (rev (dropWhile (IsSpace \<circ> fst) (rev (dropWhile (IsSpace \<circ> fst) (chunks s))))))"

lemma chunks_nonempty: "p \<in> set (chunks s) \<Longrightarrow> snd p \<noteq> []"
  by (induction s rule: chunks.induct) (auto split: prod.splits)

lemma TrimSpace_empty_iff: "TrimSpace s = [] \<longleftrightarrow> (\<forall>r \<in> set (runes s). IsSpace r)"
proof -
  let ?d = "dropWhile (IsSpace \<circ> fst) (chunks s)"
  have ne: "concat (map snd (rev xs)) = [] \<longleftrightarrow> xs = []" if "set xs \<subseteq> set (chunks s)" for xs
    using that chunks_nonempty by (cases xs) auto
  have "TrimSpace s = [] \<longleftrightarrow> dropWhile (IsSpace \<circ> fst) (rev ?d) = []"
    unfolding TrimSpace_def by (rule ne) (metis set_dropWhileD set_rev subsetI)
  also have "\<dots> \<longleftrightarrow> (\<forall>p \<in> set ?d. IsSpace (fst p))"
    by (auto simp: dropWhile_eq_Nil_conv)
  also have "\<dots> \<longleftrightarrow> ?d = []"
    by (metis comp_apply empty_iff hd_dropWhile list.set(1) list.set_sel(1))
  also have "\<dots> \<longleftrightarrow> (\<forall>r \<in> set (runes s). IsSpace r)"
    by (auto simp: dropWhile_eq_Nil_conv runes_def)
  finally show ?thesis .
qed

text \<open>\<open>strconv.Itoa\<close>.\<close>

fun itoa_nat :: "nat \<Rightarrow> string" where
  "itoa_nat n = (if n < 10 then [char_of (48 + n)] else itoa_nat (n div 10) @ [char_of (48 + n mod 10)])"

declare itoa_nat.simps [simp del]

definition Itoa :: "int \<Rightarrow> string" where
  "Itoa i = (if i < 0 then CHR ''-'' # itoa_nat (nat (- i)) else itoa_nat (nat i))"

definition is_digit :: "char \<Rightarrow> bool" where
  "is_digit c \<longleftrightarrow> 48 \<le> byte c \<and> byte c \<le> 57"

lemma itoa_nat_digits: "c \<in> set (itoa_nat n) \<Longrightarrow> is_digit c"
proof (induction n rule: itoa_nat.induct)
  case (1 n)
  then show ?case
    by (cases "n < 10") (auto simp: itoa_nat.simps [of n] is_digit_def)
qed

lemma itoa_nat_nonempty [simp]: "itoa_nat n \<noteq> []"
  by (subst itoa_nat.simps) simp

lemma length_itoa_nat_byte: "n < 1000 \<Longrightarrow> length (itoa_nat n) \<le> 3"
  by (auto simp: itoa_nat.simps [of n] itoa_nat.simps [of "n div 10"]
      itoa_nat.simps [of "n div 10 div 10"])

end
