(* ===== verification/Mdns.thy ===== *)
theory Mdns
  imports GoStrings "HOL-Library.Word"
begin

text \<open>
  \<open>internal/mdns/browser.go\<close>: endpoints found over mDNS, the IP addresses of \<open>net/netip\<close> they carry,
  the choice of network interfaces for a browse cycle and the forwarding of service entries. The
  zeroconf client and the table of network interfaces are outside: entries arrive as a list of
  events, and the interface table is a function from names.
\<close>

section \<open>IP addresses (net/netip)\<close>

text \<open>The zero \<open>Addr\<close>, an IPv4 address, an IPv6 address of 16 bytes without a zone.\<close>

datatype addr = NoAddr | V4 "8 word" "8 word" "8 word" "8 word" | V6 "8 word list"

definition AddrFromSlice :: "8 word list \<Rightarrow> addr option" where
  "AddrFromSlice bs = (if length bs = 4 then Some (V4 (bs ! 0) (bs ! 1) (bs ! 2) (bs ! 3))
     else if length bs = 16 then Some (V6 bs) else None)"

definition Is4In6 :: "8 word list \<Rightarrow> bool" where
  "Is4In6 bs \<longleftrightarrow> take 10 bs = replicate 10 0 \<and> take 2 (drop 10 bs) = [255, 255]"

fun Unmap :: "addr \<Rightarrow> addr" where
  "Unmap (V6 bs) = (if Is4In6 bs then V4 (bs ! 12) (bs ! 13) (bs ! 14) (bs ! 15) else V6 bs)"
| "Unmap a = a"

fun Is4 :: "addr \<Rightarrow> bool" where
  "Is4 (V4 _ _ _ _) = True"
| "Is4 _ = False"

text \<open>\<open>Addr.String\<close>: dotted decimal; IPv6 in hexadecimal groups, the first longest run of at least two
  zero groups written as a double colon.\<close>

definition dec :: "8 word \<Rightarrow> string" where
  "dec b = itoa_nat (unat b)"

definition v4_string :: "8 word \<Rightarrow> 8 word \<Rightarrow> 8 word \<Rightarrow> 8 word \<Rightarrow> string" where
  "v4_string a b c d = Join ''.'' [dec a, dec b, dec c, dec d]"

definition hex_digit :: "nat \<Rightarrow> char" where
  "hex_digit n = (if n < 10 then char_of (48 + n) else char_of (87 + n))"

fun hex_nat :: "nat \<Rightarrow> string" where
  "hex_nat n = (if n < 16 then [hex_digit n] else hex_nat (n div 16) @ [hex_digit (n mod 16)])"

declare hex_nat.simps [simp del]

fun groups :: "8 word list \<Rightarrow> nat list" where
  "groups (a # b # bs) = (unat a * 256 + unat b) # groups bs"
| "groups _ = []"

fun zero_range :: "nat list \<Rightarrow> nat list \<Rightarrow> nat \<times> nat \<Rightarrow> nat \<times> nat" where
  "zero_range gs [] best = best"
| "zero_range gs (i # rest) (start, stop) =
     (let l = length (takeWhile (\<lambda>g. g = 0) (drop i gs))
      in zero_range gs rest (if 2 \<le> l \<and> l > stop - start then (i, i + l) else (start, stop)))"

definition v6_string :: "8 word list \<Rightarrow> string" where
  "v6_string bs = (let gs = groups bs; (start, stop) = zero_range gs [0..<8] (255, 255)
     in if start = 255 then Join '':'' (map hex_nat gs)
        else Join '':'' (map hex_nat (take start gs)) @ ''::'' @ Join '':'' (map hex_nat (drop stop gs)))"

fun AddrString :: "addr \<Rightarrow> string" where
  "AddrString NoAddr = ''invalid IP''"
| "AddrString (V4 a b c d) = v4_string a b c d"
| "AddrString (V6 bs) = (if Is4In6 bs then ''::ffff:'' @ v4_string (bs ! 12) (bs ! 13) (bs ! 14) (bs ! 15)
     else v6_string bs)"

text \<open>Decimal numerals are unique, so a dotted address determines its four bytes.\<close>

definition nat_of_digits :: "string \<Rightarrow> nat" where
  "nat_of_digits s = foldl (\<lambda>n c. 10 * n + (byte c - 48)) 0 s"

lemma nat_of_itoa [simp]: "nat_of_digits (itoa_nat n) = n"
proof (induction n rule: itoa_nat.induct)
  case (1 n)
  show ?case
  proof (cases "n < 10")
    case True
    then show ?thesis by (subst itoa_nat.simps) (simp add: nat_of_digits_def)
  next
    case False
    have app: "nat_of_digits (s @ [c]) = 10 * nat_of_digits s + (byte c - 48)" for s c
      by (simp add: nat_of_digits_def)
    from False show ?thesis by (subst itoa_nat.simps) (simp add: app 1)
  qed
qed

lemma itoa_nat_inj: "itoa_nat m = itoa_nat n \<Longrightarrow> m = n"
  by (metis nat_of_itoa)

lemma dec_digits: "c \<in> set (dec b) \<Longrightarrow> is_digit c"
  by (auto simp: dec_def dest: itoa_nat_digits)

lemma dec_inj: "dec a = dec b \<Longrightarrow> a = b"
  unfolding dec_def by (metis itoa_nat_inj unsigned_word_eqI)

lemma v4_string_inj:
  assumes "v4_string a b c d = v4_string a' b' c' d'"
  shows "a = a' \<and> b = b' \<and> c = c' \<and> d = d'"
proof -
  have nodot: "CHR ''.'' \<notin> set (dec x)" for x using dec_digits [of "CHR ''.''" x] by (auto simp: is_digit_def)
  have "Split (CHR ''.'') (v4_string p q r s) = [dec p, dec q, dec r, dec s]" for p q r s
    unfolding v4_string_def by (rule Split_Join) (use nodot in auto)
  with assms have "[dec a, dec b, dec c, dec d] = [dec a', dec b', dec c', dec d']" by metis
  then show ?thesis by (auto dest: dec_inj)
qed

section \<open>Endpoints\<close>

record endpoint =
  EpInstance :: string
  EpService :: string
  EpHostname :: string
  EpIP :: addr
  EpPort :: int

definition Key :: "endpoint \<Rightarrow> string" where
  "Key e = EpService e @ ''/'' @ EpInstance e"

text \<open>The fields of \<open>zeroconf.ServiceEntry\<close> that are read.\<close>

record service_entry =
  EntryInstance :: string
  EntryService :: string
  EntryHostName :: string
  EntryPort :: int
  AddrIPv4 :: "8 word list list"

fun first_ipv4 :: "8 word list list \<Rightarrow> addr option" where
  "first_ipv4 [] = None"
| "first_ipv4 (ip # ips) = (case AddrFromSlice ip of
     Some a \<Rightarrow> if Is4 (Unmap a) then Some (Unmap a) else first_ipv4 ips
   | None \<Rightarrow> first_ipv4 ips)"

definition EntryToEndpoint :: "service_entry \<Rightarrow> endpoint option" where
  "EntryToEndpoint entry = (case first_ipv4 (AddrIPv4 entry) of
     Some ip \<Rightarrow> Some \<lparr>EpInstance = EntryInstance entry, EpService = EntryService entry,
        EpHostname = EntryHostName entry, EpIP = ip, EpPort = EntryPort entry\<rparr>
   | None \<Rightarrow> None)"

lemma first_ipv4_Some: "first_ipv4 ips = Some a \<Longrightarrow> Is4 a"
  by (induction ips) (auto split: option.splits if_splits)

lemma EntryToEndpoint_ip: "EntryToEndpoint entry = Some e \<Longrightarrow> Is4 (EpIP e)"
  by (auto simp: EntryToEndpoint_def dest: first_ipv4_Some split: option.splits)

section \<open>Browsing\<close>

text \<open>One iteration of the loop in \<open>forward\<close>: an entry arrives and the consumer takes its endpoint or
  the context ends first, the entries channel is closed, or the context ends.\<close>

datatype forward_event = EntryArrives service_entry bool | EntriesClosed | ContextDone

fun forward :: "forward_event list \<Rightarrow> endpoint list" where
  "forward [] = []"
| "forward (EntriesClosed # _) = []"
| "forward (ContextDone # _) = []"
| "forward (EntryArrives entry taken # rest) = (case EntryToEndpoint entry of
     None \<Rightarrow> forward rest
   | Some ep \<Rightarrow> if taken then ep # forward rest else [])"

fun resolveInterfaces :: "(string \<Rightarrow> 'i option) \<Rightarrow> string list \<Rightarrow> 'i list \<times> string list" where
  "resolveInterfaces byName [] = ([], [])"
| "resolveInterfaces byName (name # names) =
     (let (ifaces, missing) = resolveInterfaces byName names
      in case byName name of
        None \<Rightarrow> (ifaces, name # missing)
      | Some iface \<Rightarrow> (iface # ifaces, missing))"

datatype 'i client_option = SelectIPTrafficIPv4 | SelectIfaces "'i list"

definition clientOptions :: "(string \<Rightarrow> 'i option) \<Rightarrow> string list \<Rightarrow> 'i client_option list option" where
  "clientOptions byName interfaces =
     (let opts = [SelectIPTrafficIPv4]
      in if interfaces = [] then Some opts
      else let (ifaces, missing) = resolveInterfaces byName interfaces
      in if ifaces = [] then None else Some (opts @ [SelectIfaces ifaces]))"

text \<open>A browse cycle: one \<open>zeroconf.Browse\<close> per service type, none when the options are missing.\<close>

definition browseOnce ::
    "(string \<Rightarrow> 'i option) \<Rightarrow> string list \<Rightarrow> string \<Rightarrow> string list \<Rightarrow> (string \<times> string \<times> 'i client_option list) list" where
  "browseOnce byName interfaces domain serviceTypes = (case clientOptions byName interfaces of
     None \<Rightarrow> []
   | Some opts \<Rightarrow> map (\<lambda>svc. (svc, domain, opts)) serviceTypes)"

lemma resolveInterfaces_filter:
  "resolveInterfaces byName names = (map (the \<circ> byName) (filter (\<lambda>n. byName n \<noteq> None) names),
     filter (\<lambda>n. byName n = None) names)"
  by (induction names) (auto split: option.splits)

section \<open>Properties\<close>

text \<open>An entry becomes an endpoint exactly when one of its addresses is IPv4 (four bytes, or the
  IPv4-mapped form in sixteen), and the endpoint carries the first such address and the entry's names
  and port; an entry with only IPv6 addresses is ignored.\<close>

theorem EntryToEndpoint_first_ipv4:
  "case EntryToEndpoint entry of
     None \<Rightarrow> (\<forall>ip \<in> set (AddrIPv4 entry). \<forall>a. AddrFromSlice ip = Some a \<longrightarrow> \<not> Is4 (Unmap a))
   | Some ep \<Rightarrow> (\<exists>before ip after a. AddrIPv4 entry = before @ ip # after \<and> AddrFromSlice ip = Some a
       \<and> EpIP ep = Unmap a \<and> Is4 (EpIP ep)
       \<and> (\<forall>ip \<in> set before. \<forall>a. AddrFromSlice ip = Some a \<longrightarrow> \<not> Is4 (Unmap a)))
       \<and> EpInstance ep = EntryInstance entry \<and> EpService ep = EntryService entry
       \<and> EpHostname ep = EntryHostName entry \<and> EpPort ep = EntryPort entry"
proof -
  have none: "\<forall>ip \<in> set ips. \<forall>a. AddrFromSlice ip = Some a \<longrightarrow> \<not> Is4 (Unmap a)" if "first_ipv4 ips = None" for ips
    using that by (induction ips) (auto split: option.splits if_splits)
  have some: "\<exists>before ip after x. ips = before @ ip # after \<and> AddrFromSlice ip = Some x \<and> a = Unmap x \<and> Is4 a
      \<and> (\<forall>ip \<in> set before. \<forall>a. AddrFromSlice ip = Some a \<longrightarrow> \<not> Is4 (Unmap a))" if "first_ipv4 ips = Some a" for ips a
    using that
  proof (induction ips)
    case (Cons ip ips)
    show ?case
    proof (cases "\<exists>x. AddrFromSlice ip = Some x \<and> Is4 (Unmap x)")
      case True
      with Cons.prems show ?thesis by (intro exI [of _ "[]"] exI [of _ ip] exI [of _ ips]) auto
    next
      case False
      with Cons.prems have "first_ipv4 ips = Some a" by (auto split: option.splits if_splits)
      from Cons.IH [OF this] obtain before ip' after x where
        *: "ips = before @ ip' # after" "AddrFromSlice ip' = Some x" "a = Unmap x" "Is4 a"
          "\<forall>ip \<in> set before. \<forall>a. AddrFromSlice ip = Some a \<longrightarrow> \<not> Is4 (Unmap a)" by blast
      with False show ?thesis by (intro exI [of _ "ip # before"]) auto
    qed
  qed simp
  show ?thesis
    using none [of "AddrIPv4 entry"] some [of "AddrIPv4 entry"]
    by (cases "first_ipv4 (AddrIPv4 entry)") (auto simp: EntryToEndpoint_def)
qed

theorem EntryToEndpoint_first_ipv4_witness:
  "EntryToEndpoint \<lparr>EntryInstance = ''bmc'', EntryService = ''_redfish._tcp'', EntryHostName = ''bmc.local.'',
     EntryPort = 443, AddrIPv4 = [[1, 2, 3], replicate 10 0 @ [255, 255, 10, 0, 0, 7]]\<rparr>
   \<noteq> None"
  using EntryToEndpoint_first_ipv4 [of "\<lparr>EntryInstance = ''bmc'', EntryService = ''_redfish._tcp'',
     EntryHostName = ''bmc.local.'', EntryPort = 443, AddrIPv4 = [[1, 2, 3], replicate 10 0 @ [255, 255, 10, 0, 0, 7]]\<rparr>"]
  by (auto simp: AddrFromSlice_def Is4In6_def numeral_eq_Suc split: option.splits)

text \<open>Forwarding neither drops nor reorders: as long as the consumer takes what it is offered,
  the endpoints sent are those of the entries with an IPv4 address, in the order of arrival, and an
  entry without one never stops the loop.\<close>

theorem forward_delivers_in_order:
  "forward (map (\<lambda>e. EntryArrives e True) entries @ [stop]) =
     List.map_filter EntryToEndpoint entries
       @ (case stop of EntryArrives e True \<Rightarrow> List.map_filter EntryToEndpoint [e] | _ \<Rightarrow> [])"
proof (induction entries)
  case Nil
  show ?case
    by (cases stop) (auto simp: map_filter_def split: option.splits bool.splits)
next
  case (Cons e es)
  then show ?case by (auto simp: map_filter_def split: option.splits)
qed

text \<open>A browse cycle listens on IPv4 only and, when interfaces are configured, only on those that
  exist, in the configured order; it is skipped exactly when interfaces are configured and none of
  them exists; otherwise every service type is browsed once.\<close>

theorem browse_cycle_interfaces:
  "browseOnce byName interfaces domain serviceTypes =
    (let existing = map (the \<circ> byName) (filter (\<lambda>n. byName n \<noteq> None) interfaces)
     in if interfaces \<noteq> [] \<and> existing = [] then []
        else map (\<lambda>svc. (svc, domain, SelectIPTrafficIPv4 # (if interfaces = [] then [] else [SelectIfaces existing])))
          serviceTypes)"
  by (auto simp: browseOnce_def clientOptions_def resolveInterfaces_filter Let_def)

text \<open>The endpoint key identifies an endpoint across cycles: two endpoints whose service types
  contain no slash have the same key only when service type and instance are the same.\<close>

theorem endpoint_key_injective:
  assumes "CHR ''/'' \<notin> set (EpService a)" and "CHR ''/'' \<notin> set (EpService b)" and "Key a = Key b"
  shows "EpService a = EpService b \<and> EpInstance a = EpInstance b"
proof -
  have c: "Cut (CHR ''/'') (Key e) = (EpService e, EpInstance e, True)" if "CHR ''/'' \<notin> set (EpService e)" for e
    using that Cut_found by (simp add: Key_def)
  from c [OF assms(1)] c [OF assms(2)] assms(3) show ?thesis by simp
qed

definition sample_endpoint :: endpoint where
  "sample_endpoint = \<lparr>EpInstance = ''tray/1'', EpService = ''_redfish._tcp'', EpHostname = ''bmc-1.local.'',
     EpIP = V4 10 0 0 7, EpPort = 443\<rparr>"

theorem endpoint_key_injective_witness:
  "EpInstance sample_endpoint = EpInstance (sample_endpoint\<lparr>EpPort := 8443\<rparr>)"
  using endpoint_key_injective [of sample_endpoint "sample_endpoint\<lparr>EpPort := 8443\<rparr>"]
  by (simp add: sample_endpoint_def Key_def)

end
