(* ===== verification/Inventory.thy ===== *)
theory Inventory
  imports Mdns
begin

text \<open>
  \<open>internal/inventory/\<close>: credentials and their parser (\<open>defaults.go\<close>), and the collector of hardware
  inventory (\<open>collector.go\<close>). bmclib, its driver registry and gofish are outside: \<open>inv_env\<close> holds
  their calls, \<open>inv_call\<close> is the trace. A device as the program reads it; a pointer in a list may be
  nil, \<^const>\<open>None\<close>.
\<close>

section \<open>Credentials (defaults.go)\<close>

record credentials =
  Username :: string
  Password :: string

definition WildcardService :: string where "WildcardService = ''*''"

definition malformed :: "string \<Rightarrow> go_error" where
  "malformed entry = OtherError (''default credentials entry '' @ entry @ '': want <service>=<username>:<password>'')"

fun parse_entries :: "string list \<Rightarrow> (string \<Rightarrow> credentials option) \<Rightarrow> go_error + (string \<Rightarrow> credentials option)" where
  "parse_entries [] defaults = Inr defaults"
| "parse_entries (entry # rest) defaults =
     (let (service, cred, ok) = Cut (CHR ''='') entry
      in if \<not> ok then Inl (malformed entry)
      else let (username, password, ok) = Cut (CHR '':'') cred
      in if \<not> ok \<or> service = [] \<or> username = [] \<or> password = [] then Inl (malformed entry)
      else parse_entries rest (defaults(service \<mapsto> \<lparr>Username = username, Password = password\<rparr>)))"

definition ParseDefaults :: "string \<Rightarrow> go_error + (string \<Rightarrow> credentials option)" where
  "ParseDefaults s = (if s = [] then Inr (\<lambda>_. None) else parse_entries (Split (CHR '','') s) (\<lambda>_. None))"

text \<open>The entries the flag's documentation describes, and the text of one.\<close>

definition format_entry :: "string \<times> credentials \<Rightarrow> string" where
  "format_entry p = fst p @ ''='' @ Username (snd p) @ '':'' @ Password (snd p)"

definition entry_ok :: "string \<times> credentials \<Rightarrow> bool" where
  "entry_ok p \<longleftrightarrow> fst p \<noteq> [] \<and> Username (snd p) \<noteq> [] \<and> Password (snd p) \<noteq> []
     \<and> CHR ''='' \<notin> set (fst p) \<and> CHR '':'' \<notin> set (Username (snd p)) \<and> CHR '','' \<notin> set (format_entry p)"

definition entries_map :: "(string \<times> credentials) list \<Rightarrow> string \<Rightarrow> credentials option" where
  "entries_map ps = foldl (\<lambda>m p. m(fst p \<mapsto> snd p)) (\<lambda>_. None) ps"

lemma parse_entry:
  assumes "entry_ok p"
  shows "parse_entries (format_entry p # rest) m = parse_entries rest (m(fst p \<mapsto> snd p))"
proof -
  obtain service u q where p: "p = (service, \<lparr>Username = u, Password = q\<rparr>)"
    by (cases p, cases "snd p") auto
  have "Cut (CHR ''='') (format_entry p) = (service, u @ '':'' @ q, True)"
    using assms Cut_found [of "CHR ''=''" service] by (simp add: entry_ok_def format_entry_def p)
  moreover have "Cut (CHR '':'') (u @ '':'' @ q) = (u, q, True)"
    using assms Cut_found [of "CHR '':''" u] by (simp add: entry_ok_def p)
  ultimately show ?thesis using assms by (simp add: entry_ok_def p)
qed

lemma parse_formatted:
  "\<forall>p \<in> set ps. entry_ok p \<Longrightarrow>
     parse_entries (map format_entry ps) m = Inr (foldl (\<lambda>m p. m(fst p \<mapsto> snd p)) m ps)"
  by (induction ps arbitrary: m) (simp_all add: parse_entry del: parse_entries.simps(2))

lemma parse_entries_wellformed:
  "parse_entries es m = Inr m' \<Longrightarrow> CHR '','' \<notin> set (concat es) \<Longrightarrow>
     \<exists>ps. es = map format_entry ps \<and> (\<forall>p \<in> set ps. entry_ok p)"
proof (induction es arbitrary: m)
  case (Cons e es)
  obtain service cred ok where c1: "Cut (CHR ''='') e = (service, cred, ok)" by (metis prod_cases3)
  obtain u p ok2 where c2: "Cut (CHR '':'') cred = (u, p, ok2)" by (metis prod_cases3)
  from Cons.prems(1) c1 c2 have ok: ok ok2 "service \<noteq> []" "u \<noteq> []" "p \<noteq> []"
    and rest: "parse_entries es (m(service \<mapsto> \<lparr>Username = u, Password = p\<rparr>)) = Inr m'"
    by (auto simp: Let_def split: if_splits)
  let ?p = "(service, \<lparr>Username = u, Password = p\<rparr>)"
  have e: "e = format_entry ?p" "CHR ''='' \<notin> set service" "CHR '':'' \<notin> set u"
    using Cut_True [of "CHR ''=''" e service cred] Cut_True [of "CHR '':''" cred u p] c1 c2 ok
    by (auto simp: format_entry_def)
  then have "entry_ok ?p" using ok Cons.prems(2) by (auto simp: entry_ok_def)
  moreover from Cons.IH [OF rest] Cons.prems(2) obtain ps where
    "es = map format_entry ps" "\<forall>p \<in> set ps. entry_ok p" by auto
  ultimately show ?case using e(1) by (intro exI [of _ "?p # ps"]) auto
qed simp

lemma comma_free_Split: "CHR '','' \<notin> set (concat (Split (CHR '','') s))"
  by (induction s) (auto split: list.splits)

section \<open>Devices\<close>

record nic_port =
  PortMac :: string

record nic =
  NicID :: string
  NICPorts :: "nic_port option list"

record device =
  Vendor :: string
  Model :: string
  Serial :: string
  NICs :: "nic option list"
  Drives :: "string option list"

fun port_has_mac :: "nic_port option list \<Rightarrow> bool" where
  "port_has_mac [] = False"
| "port_has_mac (port # ports) =
     (if (case port of None \<Rightarrow> False | Some p \<Rightarrow> PortMac p \<noteq> []) then True else port_has_mac ports)"

fun nics_have_mac :: "nic option list \<Rightarrow> bool" where
  "nics_have_mac [] = False"
| "nics_have_mac (None # nics) = nics_have_mac nics"
| "nics_have_mac (Some n # nics) = (if port_has_mac (NICPorts n) then True else nics_have_mac nics)"

definition hasNICMAC :: "device \<Rightarrow> bool" where
  "hasNICMAC dev = nics_have_mac (NICs dev)"

lemma hasNICMAC_iff: "hasNICMAC dev \<longleftrightarrow> (\<exists>n p. Some n \<in> set (NICs dev) \<and> Some p \<in> set (NICPorts n) \<and> PortMac p \<noteq> [])"
proof -
  have port: "port_has_mac ps \<longleftrightarrow> (\<exists>p. Some p \<in> set ps \<and> PortMac p \<noteq> [])" for ps
    by (induction ps) (auto split: option.splits)
  have "nics_have_mac ns \<longleftrightarrow> (\<exists>n p. Some n \<in> set ns \<and> Some p \<in> set (NICPorts n) \<and> PortMac p \<noteq> [])" for ns
    by (induction ns rule: nics_have_mac.induct) (auto simp: port)
  then show ?thesis by (simp add: hasNICMAC_def)
qed

section \<open>The BMC client (newBMCClient)\<close>

record bmc_client =
  BCHost :: string
  BCUser :: string
  BCPass :: string
  BCRedfishPort :: string
  BCBasicAuth :: bool
  BCDrivers :: "string list"

text \<open>\<open>registry\<close> are the drivers bmclib registers, by name; \<open>prefer\<close> is the registry's \<open>PreferDriver\<close>.\<close>

fun without_ipmitool :: "string list \<Rightarrow> string list" where
  "without_ipmitool [] = []"
| "without_ipmitool (driver # drivers) =
     (if driver \<noteq> ''ipmitool'' then driver # without_ipmitool drivers else without_ipmitool drivers)"

definition newBMCClient ::
    "string list \<Rightarrow> (string \<Rightarrow> string list \<Rightarrow> string list) \<Rightarrow> endpoint \<Rightarrow> credentials \<Rightarrow> bmc_client" where
  "newBMCClient registry prefer ep creds = \<lparr>BCHost = AddrString (EpIP ep), BCUser = Username creds,
     BCPass = Password creds, BCRedfishPort = Itoa (EpPort ep), BCBasicAuth = True,
     BCDrivers = prefer ''gofish'' (without_ipmitool registry)\<rparr>"

lemma without_ipmitool_filter: "without_ipmitool ds = filter (\<lambda>d. d \<noteq> ''ipmitool'') ds"
  by (induction ds) auto

section \<open>Collecting\<close>

record eth_iface =
  EthID :: string
  PermanentMACAddress :: string
  MACAddress :: string

record redfish_config =
  RCEndpoint :: string
  RCUser :: string
  RCPass :: string

type_synonym redfish_client = nat

record 'w inv_env =
  ie_Registry :: "string list"
  ie_Prefer :: "string \<Rightarrow> string list \<Rightarrow> string list"
  ie_JoinHostPort :: "string \<Rightarrow> string \<Rightarrow> string"
  ie_Open :: "bmc_client \<Rightarrow> 'w \<Rightarrow> go_error option \<times> 'w"
  ie_Inventory :: "bmc_client \<Rightarrow> 'w \<Rightarrow> (go_error + device option) \<times> 'w"
  ie_Close :: "bmc_client \<Rightarrow> 'w \<Rightarrow> unit \<times> 'w"
  ie_Connect :: "redfish_config \<Rightarrow> 'w \<Rightarrow> (go_error + redfish_client) \<times> 'w"
  ie_Systems :: "redfish_client \<Rightarrow> 'w \<Rightarrow> (go_error + string list) \<times> 'w"
  ie_EthernetInterfaces :: "redfish_client \<Rightarrow> string \<Rightarrow> 'w \<Rightarrow> (go_error + eth_iface list) \<times> 'w"
  ie_Logout :: "redfish_client \<Rightarrow> 'w \<Rightarrow> unit \<times> 'w"

datatype inv_call =
    IOpen bmc_client "go_error option"
  | IInventory bmc_client
  | IClose bmc_client
  | IConnect redfish_config "go_error + redfish_client"
  | ISystems redfish_client
  | IEthernet redfish_client string
  | ILogout redfish_client

type_synonym ('w, 'r) iprog = "('w, inv_call, 'r) prog"

definition iface_mac :: "eth_iface \<Rightarrow> string" where
  "iface_mac i = (if PermanentMACAddress i = [] then MACAddress i else PermanentMACAddress i)"

fun append_ifaces :: "device \<Rightarrow> eth_iface list \<Rightarrow> device" where
  "append_ifaces dev [] = dev"
| "append_ifaces dev (i # is) =
     (if iface_mac i = [] then append_ifaces dev is
      else append_ifaces (dev\<lparr>NICs := NICs dev @ [Some \<lparr>NicID = EthID i, NICPorts = [Some \<lparr>PortMac = iface_mac i\<rparr>]\<rparr>]\<rparr>) is)"

fun enrich_systems :: "'w inv_env \<Rightarrow> redfish_client \<Rightarrow> device \<Rightarrow> string list \<Rightarrow> ('w, device) iprog" where
  "enrich_systems env c dev [] = State_Monad.return dev"
| "enrich_systems env c dev (system # systems) = do {
     r \<leftarrow> extcall (\<lambda>_. IEthernet c system) (ie_EthernetInterfaces env c system);
     case r of
       Inl err \<Rightarrow> enrich_systems env c dev systems
     | Inr ifaces \<Rightarrow> enrich_systems env c (append_ifaces dev ifaces) systems
   }"

definition redfish_config_for :: "'w inv_env \<Rightarrow> endpoint \<Rightarrow> credentials \<Rightarrow> redfish_config" where
  "redfish_config_for env ep creds = \<lparr>
     RCEndpoint = ''https://'' @ ie_JoinHostPort env (AddrString (EpIP ep)) (Itoa (EpPort ep)),
     RCUser = Username creds, RCPass = Password creds\<rparr>"

definition enrichNICs ::
    "'w inv_env \<Rightarrow> endpoint \<Rightarrow> credentials \<Rightarrow> device option \<Rightarrow> ('w, device option) iprog" where
  "enrichNICs env ep creds dev = (case dev of
     None \<Rightarrow> State_Monad.return None
   | Some d \<Rightarrow>
       if hasNICMAC d then State_Monad.return (Some d)
       else do {
         r \<leftarrow> extcall (IConnect (redfish_config_for env ep creds)) (ie_Connect env (redfish_config_for env ep creds));
         case r of
           Inl err \<Rightarrow> State_Monad.return (Some d)
         | Inr c \<Rightarrow> do {
             s \<leftarrow> extcall (\<lambda>_. ISystems c) (ie_Systems env c);
             d' \<leftarrow> (case s of
               Inl err \<Rightarrow> State_Monad.return d
             | Inr systems \<Rightarrow> enrich_systems env c d systems);
             extcall (\<lambda>_. ILogout c) (ie_Logout env c);
             State_Monad.return (Some d')
           }
       })"

text \<open>
  \<open>Collect\<close>. Its last log line reads \<open>dev.Vendor\<close>, so a nil device with a nil error panics there:
  the result \<^const>\<open>None\<close> is that panic. The deferred Close runs on every exit after a successful Open.
\<close>

definition Collect :: "'w inv_env \<Rightarrow> endpoint \<Rightarrow> credentials \<Rightarrow> ('w, (go_error + device) option) iprog" where
  "Collect env ep creds =
     (let client = newBMCClient (ie_Registry env) (ie_Prefer env) ep creds
      in do {
        o1 \<leftarrow> extcall (IOpen client) (ie_Open env client);
        case o1 of
          Some err \<Rightarrow> State_Monad.return (Some (Inl (Wrap ''opening BMC connection'' err)))
        | None \<Rightarrow> do {
            r \<leftarrow> extcall (\<lambda>_. IInventory client) (ie_Inventory env client);
            case r of
              Inl err \<Rightarrow> do {
                extcall (\<lambda>_. IClose client) (ie_Close env client);
                State_Monad.return (Some (Inl (Wrap ''collecting inventory'' err)))
              }
            | Inr dev \<Rightarrow> do {
                dev \<leftarrow> enrichNICs env ep creds dev;
                extcall (\<lambda>_. IClose client) (ie_Close env client);
                State_Monad.return (map_option Inr dev)
              }
          }
      })"

section \<open>The collector as an interface\<close>

text \<open>
  \<open>inventory.Collector\<close> is the interface the worker holds; \<open>BMCLibCollector\<close> implements it. Its
  doc comment makes collecting double as verification of the connection: no inventory from a BMC that
  does not accept the credentials at that moment.
\<close>

locale verified_collector =
  fixes collect :: "endpoint \<Rightarrow> credentials \<Rightarrow> 'w \<Rightarrow> (go_error + device option) \<times> 'w"
    and accepts :: "endpoint \<Rightarrow> credentials \<Rightarrow> 'w \<Rightarrow> bool"
  assumes collect_refuses: "\<not> accepts ep creds w \<Longrightarrow> \<exists>err. fst (collect ep creds w) = Inl err"
begin

lemma collected_accepted: "fst (collect ep creds w) = Inr dev \<Longrightarrow> accepts ep creds w"
  using collect_refuses [of ep creds w] by auto

end

text \<open>\<open>Collect\<close> as an implementation: its panic on a nil device becomes the nil device itself, on which
  the caller panics in the same way. A BMC accepts credentials in a world in which opening a session
  with them succeeds: the world in which the collector is called.\<close>

definition collect_with ::
    "'w inv_env \<Rightarrow> endpoint \<Rightarrow> credentials \<Rightarrow> 'w \<Rightarrow> (go_error + device option) \<times> 'w" where
  "collect_with env ep creds w = (case run_state (Collect env ep creds) \<lparr>world = w, trace = []\<rparr> of
     (r, s) \<Rightarrow> (case r of None \<Rightarrow> Inr None | Some (Inl err) \<Rightarrow> Inl err | Some (Inr dev) \<Rightarrow> Inr (Some dev), world s))"

definition bmc_accepts :: "'w inv_env \<Rightarrow> endpoint \<Rightarrow> credentials \<Rightarrow> 'w \<Rightarrow> bool" where
  "bmc_accepts env ep creds w \<longleftrightarrow> fst (ie_Open env (newBMCClient (ie_Registry env) (ie_Prefer env) ep creds) w) = None"

interpretation bmclib: verified_collector "collect_with env" "bmc_accepts env" for env
proof
  fix ep creds w
  assume no: "\<not> bmc_accepts env ep creds w"
  let ?client = "newBMCClient (ie_Registry env) (ie_Prefer env) ep creds"
  obtain err w' where "ie_Open env ?client w = (Some err, w')"
    using no unfolding bmc_accepts_def by (metis fst_conv not_None_eq surj_pair)
  then show "\<exists>err. fst (collect_with env ep creds w) = Inl err"
    by (simp add: collect_with_def Collect_def Let_def)
qed

section \<open>Properties\<close>

text \<open>C33: The parser of default credentials accepts exactly the documented format: the empty string,
  or comma-separated entries \<open>service=username:password\<close> with non-empty parts, a service without an
  equals sign, a user name without a colon and no commas; it then returns every entry's credentials
  under its service, the last one winning. Passwords with colons and equals signs survive.\<close>

theorem ParseDefaults_accepts_documented_format:
  "(\<forall>ps. ps \<noteq> [] \<and> (\<forall>p \<in> set ps. entry_ok p) \<longrightarrow>
       ParseDefaults (Join '','' (map format_entry ps)) = Inr (entries_map ps))
   \<and> (\<forall>s m. ParseDefaults s = Inr m \<longrightarrow> s = [] \<or>
       (\<exists>ps. ps \<noteq> [] \<and> (\<forall>p \<in> set ps. entry_ok p) \<and> s = Join '','' (map format_entry ps)))"
proof (intro conjI allI impI)
  fix ps assume ps: "ps \<noteq> [] \<and> (\<forall>p \<in> set ps. entry_ok p)"
  have sp: "Split (CHR '','') (Join '','' (map format_entry ps)) = map format_entry ps"
    using ps by (intro Split_Join) (auto simp: entry_ok_def)
  have "Join '','' (map format_entry ps) \<noteq> []"
  proof
    assume "Join '','' (map format_entry ps) = []"
    with sp have "map format_entry ps = [[]]" by (metis Split.simps(1))
    with ps show False by (auto simp: format_entry_def)
  qed
  with sp ps show "ParseDefaults (Join '','' (map format_entry ps)) = Inr (entries_map ps)"
    by (simp add: ParseDefaults_def parse_formatted entries_map_def)
next
  fix s m assume p: "ParseDefaults s = Inr m"
  show "s = [] \<or> (\<exists>ps. ps \<noteq> [] \<and> (\<forall>p \<in> set ps. entry_ok p) \<and> s = Join '','' (map format_entry ps))"
  proof (cases "s = []")
    case False
    with p have "parse_entries (Split (CHR '','') s) (\<lambda>_. None) = Inr m" by (simp add: ParseDefaults_def)
    from parse_entries_wellformed [OF this comma_free_Split] obtain ps where
      ps: "Split (CHR '','') s = map format_entry ps" "\<forall>p \<in> set ps. entry_ok p" by blast
    then have "s = Join '','' (map format_entry ps)" using Join_Split [of "CHR '',''" s] by simp
    moreover have "ps \<noteq> []" using ps(1) by (metis Split_nonempty list.map_disc_iff)
    ultimately show ?thesis using ps(2) by blast
  qed simp
qed

theorem ParseDefaults_accepts_documented_format_witness:
  "ParseDefaults ''*=admin:admin,_obmc_console._tcp=root:0pen=B:mc''
     = Inr (entries_map [(''*'', \<lparr>Username = ''admin'', Password = ''admin''\<rparr>),
         (''_obmc_console._tcp'', \<lparr>Username = ''root'', Password = ''0pen=B:mc''\<rparr>)])"
proof -
  let ?ps = "[(''*'', \<lparr>Username = ''admin'', Password = ''admin''\<rparr>),
         (''_obmc_console._tcp'', \<lparr>Username = ''root'', Password = ''0pen=B:mc''\<rparr>)]"
  have "\<forall>p \<in> set ?ps. entry_ok p" by (simp add: entry_ok_def format_entry_def)
  then have "ParseDefaults (Join '','' (map format_entry ?ps)) = Inr (entries_map ?ps)"
    by (intro conjunct1 [OF ParseDefaults_accepts_documented_format, rule_format]) simp
  then show ?thesis by (simp add: format_entry_def)
qed

lemma append_ifaces_nics:
  "append_ifaces dev is = dev\<lparr>NICs := NICs dev @ map (\<lambda>i. Some \<lparr>NicID = EthID i, NICPorts = [Some \<lparr>PortMac = iface_mac i\<rparr>]\<rparr>)
     (filter (\<lambda>i. iface_mac i \<noteq> []) is)\<rparr>"
  by (induction "is" arbitrary: dev) auto

text \<open>What enrichment may do to a device: append NICs with one port and a MAC.\<close>

definition enriched :: "device \<Rightarrow> device \<Rightarrow> bool" where
  "enriched dev dev' \<longleftrightarrow> (\<exists>new. dev' = dev\<lparr>NICs := NICs dev @ new\<rparr>
     \<and> (\<forall>n \<in> set new. \<exists>i m. m \<noteq> [] \<and> n = Some \<lparr>NicID = i, NICPorts = [Some \<lparr>PortMac = m\<rparr>]\<rparr>))"

lemma enriched_refl: "enriched dev dev"
  unfolding enriched_def by (intro exI [of _ "[]"]) simp

lemma enriched_append: "enriched dev (append_ifaces dev is)"
  unfolding enriched_def append_ifaces_nics by (intro exI conjI, rule refl) auto

lemma enriched_trans: "enriched a b \<Longrightarrow> enriched b c \<Longrightarrow> enriched a c"
  unfolding enriched_def
proof (elim exE conjE, goal_cases)
  case (1 x y)
  then show ?case by (intro exI [of _ "x @ y"]) auto
qed

text \<open>Open sessions, counted per redfish client and for the bmclib client.\<close>

fun login_delta :: "redfish_client \<Rightarrow> inv_call \<Rightarrow> int" where
  "login_delta c (IConnect _ (Inr c')) = (if c' = c then 1 else 0)"
| "login_delta c (ILogout c') = (if c' = c then -1 else 0)"
| "login_delta c _ = 0"

fun open_delta :: "inv_call \<Rightarrow> int" where
  "open_delta (IOpen _ None) = 1"
| "open_delta (IClose _) = -1"
| "open_delta _ = 0"

definition sessions_closed :: "inv_call list \<Rightarrow> bool" where
  "sessions_closed xs \<longleftrightarrow> sum_list (map open_delta xs) = 0 \<and> (\<forall>c. sum_list (map (login_delta c) xs) = 0)"

lemma enrich_systems_calls: "yields (enrich_systems env c dev systems)
    (\<lambda>dev' xs. enriched dev dev' \<and> (\<forall>x \<in> set xs. \<exists>s. x = IEthernet c s))"
proof (induction systems arbitrary: dev)
  case Nil
  show ?case by (auto intro!: yields_return enriched_refl)
next
  case (Cons s systems)
  show ?case
    unfolding enrich_systems.simps
    by (intro yields_bind_extcall yields_branch; rule yields_weaken [OF Cons.IH])
      (auto intro: enriched_trans enriched_append)
qed

lemma ethernet_only:
  assumes "\<forall>x \<in> set xs. \<exists>s. x = IEthernet c s"
  shows "sum_list (map open_delta xs) = 0" and "sum_list (map (login_delta c') xs) = 0"
  using assms by (induction xs) auto

definition enrich_result :: "device option \<Rightarrow> device option \<Rightarrow> inv_call list \<Rightarrow> bool" where
  "enrich_result dev dev' xs \<longleftrightarrow> sessions_closed xs \<and> (\<forall>x \<in> set xs. open_delta x = 0)
     \<and> (case dev of None \<Rightarrow> dev' = None \<and> xs = []
        | Some d \<Rightarrow> (\<exists>d'. dev' = Some d' \<and> enriched d d') \<and> (hasNICMAC d \<longrightarrow> dev' = dev \<and> xs = []))"

lemma enrichNICs_calls: "yields (enrichNICs env ep creds dev) (enrich_result dev)"
proof (cases dev)
  case None
  then show ?thesis by (auto simp: enrichNICs_def enrich_result_def sessions_closed_def intro: yields_return)
next
  case (Some d)
  have sys: "yields (case s of Inl err \<Rightarrow> State_Monad.return d | Inr systems \<Rightarrow> enrich_systems env c d systems)
      (\<lambda>dev' xs. enriched d dev' \<and> (\<forall>x \<in> set xs. \<exists>s. x = IEthernet c s))" for s :: "go_error + string list" and c
    by (intro yields_branch yields_return enrich_systems_calls) (auto intro: enriched_refl)
  show ?thesis
  proof (cases "hasNICMAC d")
    case True
    then show ?thesis
      by (auto simp: Some enrichNICs_def enrich_result_def sessions_closed_def enriched_refl intro: yields_return)
  next
    case False
    then show ?thesis
      unfolding Some enrichNICs_def option.case if_not_P [OF False]
      by (intro yields_bind_extcall yields_branch yields_bind [OF sys] yields_return)
        (auto simp: enrich_result_def sessions_closed_def enriched_refl ethernet_only)
  qed
qed

definition collect_result ::
    "'w inv_env \<Rightarrow> endpoint \<Rightarrow> credentials \<Rightarrow> (go_error + device) option \<Rightarrow> inv_call list \<Rightarrow> bool" where
  "collect_result env ep creds r xs \<longleftrightarrow> sessions_closed xs
     \<and> (\<exists>e rest. xs = IOpen (newBMCClient (ie_Registry env) (ie_Prefer env) ep creds) e # rest
          \<and> ((\<exists>dev. r = Some (Inr dev)) \<longrightarrow> e = None) \<and> (e \<noteq> None \<longrightarrow> rest = []))"

lemma Collect_calls: "yields (Collect env ep creds) (collect_result env ep creds)"
  unfolding Collect_def Let_def
proof (rule yields_bind_extcall, rule yields_case_option, goal_cases)
  case (1 w)
  show ?case
    by (intro yields_bind_extcall yields_branch yields_bind [OF enrichNICs_calls] yields_return)
      (auto simp: 1 collect_result_def enrich_result_def sessions_closed_def)
next
  case (2 w a)
  then show ?case by (auto simp: collect_result_def sessions_closed_def intro!: yields_return)
qed

text \<open>C31: Inventory is verified inventory: \<open>Collect\<close> returns a device only after the BMC accepted a
  session with exactly the given credentials, over the endpoint's address and port; a refused session
  is the whole dialog; and every session opened, with bmclib or for the enrichment, is closed again on
  every path.\<close>

theorem inventory_is_verified:
  assumes "run_state (Collect env ep creds) \<lparr>world = w, trace = []\<rparr> = (result, s')"
  shows "sessions_closed (trace s') \<and>
    (\<forall>dev. result = Some (Inr dev) \<longrightarrow> (\<exists>client rest. trace s' = IOpen client None # rest
       \<and> BCUser client = Username creds \<and> BCPass client = Password creds
       \<and> BCHost client = AddrString (EpIP ep) \<and> BCRedfishPort client = Itoa (EpPort ep)))
    \<and> (\<forall>client e rest. trace s' = IOpen client (Some e) # rest \<longrightarrow> rest = [])"
  using yields_run_empty [OF Collect_calls assms]
  by (auto simp: collect_result_def newBMCClient_def)

definition sample_device :: device where
  "sample_device = \<lparr>Vendor = ''ASRockRack'', Model = ''X'', Serial = ''S1'', NICs = [], Drives = []\<rparr>"

definition sample_inv_env :: "unit inv_env" where
  "sample_inv_env = \<lparr>ie_Registry = [''ipmitool'', ''gofish'', ''ipmi''], ie_Prefer = (\<lambda>_ ds. ds),
     ie_JoinHostPort = (\<lambda>h p. h @ '':'' @ p),
     ie_Open = (\<lambda>_ w. (None, w)), ie_Inventory = (\<lambda>_ w. (Inr (Some sample_device), w)), ie_Close = (\<lambda>_ w. ((), w)),
     ie_Connect = (\<lambda>_ w. (Inr 3, w)), ie_Systems = (\<lambda>_ w. (Inr [''sys''], w)),
     ie_EthernetInterfaces = (\<lambda>_ _ w. (Inr [\<lparr>EthID = ''eth0'', PermanentMACAddress = [], MACAddress = ''52:54:00:AA:00:01''\<rparr>], w)),
     ie_Logout = (\<lambda>_ w. ((), w))\<rparr>"

theorem inventory_is_verified_witness:
  "\<exists>dev s'. run_state (Collect sample_inv_env sample_endpoint \<lparr>Username = ''admin'', Password = ''admin''\<rparr>)
       \<lparr>world = (), trace = []\<rparr> = (Some (Inr dev), s') \<and> sessions_closed (trace s')"
proof -
  obtain r s' where run: "run_state (Collect sample_inv_env sample_endpoint \<lparr>Username = ''admin'', Password = ''admin''\<rparr>)
       \<lparr>world = (), trace = []\<rparr> = (r, s')" by fastforce
  then have "\<exists>dev. r = Some (Inr dev)"
    by (auto simp: Collect_def Let_def sample_inv_env_def enrichNICs_def sample_device_def hasNICMAC_def)
  with inventory_is_verified [OF run] run show ?thesis by auto
qed

text \<open>C32: NIC enrichment is best effort and additive: a device with a known MAC is returned unchanged
  without any call; otherwise the device comes back with its own data and NICs, followed only by new
  NICs of one port with a non-empty MAC, whatever the Redfish service answers; a nil device stays nil.\<close>

theorem enrichment_is_additive:
  assumes "run_state (enrichNICs env ep creds dev) \<lparr>world = w, trace = []\<rparr> = (dev', s')"
  shows "case dev of
      None \<Rightarrow> dev' = None \<and> trace s' = []
    | Some d \<Rightarrow> (\<exists>new. dev' = Some (d\<lparr>NICs := NICs d @ new\<rparr>)
        \<and> (\<forall>n \<in> set new. \<exists>i m. m \<noteq> [] \<and> n = Some \<lparr>NicID = i, NICPorts = [Some \<lparr>PortMac = m\<rparr>]\<rparr>))
        \<and> (hasNICMAC d \<longrightarrow> dev' = Some d \<and> trace s' = [])"
  using yields_run_empty [OF enrichNICs_calls assms]
  by (cases dev) (auto simp: enrich_result_def enriched_def)

theorem enrichment_is_additive_witness:
  "\<exists>new. fst (run_state (enrichNICs sample_inv_env sample_endpoint \<lparr>Username = ''a'', Password = ''b''\<rparr> (Some sample_device))
      \<lparr>world = (), trace = []\<rparr>) = Some (sample_device\<lparr>NICs := NICs sample_device @ new\<rparr>)"
proof -
  obtain d s' where run: "run_state (enrichNICs sample_inv_env sample_endpoint \<lparr>Username = ''a'', Password = ''b''\<rparr> (Some sample_device))
      \<lparr>world = (), trace = []\<rparr> = (d, s')" by fastforce
  from enrichment_is_additive [OF run] run show ?thesis by auto
qed

end
