(* ===== verification/Naming.thy ===== *)
theory Naming
  imports Inventory
begin

text \<open>
  \<open>internal/sync/names.go\<close> and the MAC part of \<open>internal/sync/mapping.go\<close>: the primary MAC of a device,
  the sanitised names, the name template and the name of a resource. The regular expressions are
  written out as the scanners they denote.
\<close>

section \<open>MAC addresses (mapping.go)\<close>

definition lower_hex :: "char \<Rightarrow> bool" where
  "lower_hex c \<longleftrightarrow> is_digit c \<or> 97 \<le> byte c \<and> byte c \<le> 102"

text \<open>The pattern: five pairs with a colon each, and a sixth pair at the end of the text.\<close>

fun mac_pairs :: "nat \<Rightarrow> string \<Rightarrow> bool" where
  "mac_pairs 0 s = (case s of [a, b] \<Rightarrow> lower_hex a \<and> lower_hex b | _ \<Rightarrow> False)"
| "mac_pairs (Suc n) s = (case s of a # b # c # rest \<Rightarrow> lower_hex a \<and> lower_hex b \<and> c = CHR '':'' \<and> mac_pairs n rest
     | _ \<Rightarrow> False)"

definition macPattern :: "string \<Rightarrow> bool" where
  "macPattern s = mac_pairs 5 s"

fun port_macs :: "nic_port option list \<Rightarrow> string list \<Rightarrow> string list" where
  "port_macs [] macs = macs"
| "port_macs (None # ports) macs = port_macs ports macs"
| "port_macs (Some port # ports) macs =
     (let mac = ToLower (PortMac port)
      in if \<not> macPattern mac \<or> mac \<in> set macs then port_macs ports macs
      else port_macs ports (macs @ [mac]))"

fun nic_macs :: "nic option list \<Rightarrow> string list \<Rightarrow> string list" where
  "nic_macs [] macs = macs"
| "nic_macs (None # nics) macs = nic_macs nics macs"
| "nic_macs (Some nic # nics) macs = nic_macs nics (port_macs (NICPorts nic) macs)"

text \<open>\<open>seen\<close> holds exactly the MACs already listed.\<close>

definition inbandMACs :: "device \<Rightarrow> string list" where
  "inbandMACs dev = nic_macs (NICs dev) []"

definition PrimaryMAC :: "device \<Rightarrow> string" where
  "PrimaryMAC dev = (case inbandMACs dev of [] \<Rightarrow> [] | mac # _ \<Rightarrow> mac)"

section \<open>Sanitised names (names.go)\<close>

definition alnum_rune :: "rune \<Rightarrow> bool" where
  "alnum_rune r \<longleftrightarrow> 97 \<le> r \<and> r \<le> 122 \<or> 48 \<le> r \<and> r \<le> 57"

fun sanitize_runes :: "bool \<Rightarrow> rune list \<Rightarrow> string" where
  "sanitize_runes lastDash [] = []"
| "sanitize_runes lastDash (r # rs) =
     (if alnum_rune r then char_of r # sanitize_runes False rs
      else if \<not> lastDash then CHR ''-'' # sanitize_runes True rs
      else sanitize_runes lastDash rs)"

definition SanitizeName :: "string \<Rightarrow> string" where
  "SanitizeName s =
     (let out = TrimRight (CHR ''-'') (sanitize_runes True (runes (ToLower s)))
      in if length out > 63 then TrimRight (CHR ''-'') (take 63 out) else out)"

definition dashed_ip :: "addr \<Rightarrow> string" where
  "dashed_ip a = map (\<lambda>c. if c = CHR ''.'' \<or> c = CHR '':'' then CHR ''-'' else c) (AddrString a)"

definition ResourceName :: "endpoint \<Rightarrow> string" where
  "ResourceName ep =
     (let (host, _, _) = Cut (CHR ''.'') (EpHostname ep)
      in if SanitizeName host \<noteq> [] then SanitizeName host
      else if SanitizeName (EpInstance ep) \<noteq> [] then SanitizeName (EpInstance ep)
      else ''bmc-'' @ SanitizeName (dashed_ip (EpIP ep)))"

section \<open>Templates\<close>

definition name_char :: "char \<Rightarrow> bool" where
  "name_char c \<longleftrightarrow> 97 \<le> byte c \<and> byte c \<le> 122 \<or> c = CHR ''_''"

text \<open>A reference at the head of a text: its name and the text after it.\<close>

definition template_ref :: "string \<Rightarrow> (string \<times> string) option" where
  "template_ref s = (case s of
     d # b # rest \<Rightarrow>
       (let name = takeWhile name_char rest; tail = dropWhile name_char rest
        in if d = CHR ''$'' \<and> b = CHR ''{'' \<and> name \<noteq> [] \<and> tail \<noteq> [] \<and> hd tail = CHR ''}''
           then Some (name, tl tail) else None)
   | _ \<Rightarrow> None)"

lemma template_ref_shorter: "template_ref s = Some (name, rest) \<Longrightarrow> length rest < length s"
proof -
  have d: "length (dropWhile name_char xs) \<le> length xs" for xs by (rule length_dropWhile_le)
  assume "template_ref s = Some (name, rest)"
  then obtain a b t where "s = a # b # t" "rest = tl (dropWhile name_char t)" "dropWhile name_char t \<noteq> []"
    by (auto simp: template_ref_def Let_def split: list.splits if_splits)
  with d [of t] show ?thesis by simp
qed

text \<open>The expansion and whether some reference resolved to nothing.\<close>

function expand :: "(string \<Rightarrow> string) \<Rightarrow> string \<Rightarrow> string \<times> bool" where
  "expand vars [] = ([], False)"
| "expand vars (c # s) = (case template_ref (c # s) of
     Some (name, rest) \<Rightarrow>
       (case expand vars rest of (out, unresolved) \<Rightarrow> (vars name @ out, vars name = [] \<or> unresolved))
   | None \<Rightarrow> (case expand vars s of (out, unresolved) \<Rightarrow> (c # out, unresolved)))"
  by pat_completeness auto
termination
  by (relation "measure (\<lambda>(vars, s). length s)") (auto dest: template_ref_shorter)

definition template_vars :: "endpoint \<Rightarrow> device \<Rightarrow> string \<Rightarrow> string" where
  "template_vars ep dev name =
     (let mac = PrimaryMAC dev; (host, _, _) = Cut (CHR ''.'') (EpHostname ep)
      in if name = ''mac'' then ReplaceByte (CHR '':'') [] mac
      else if name = ''mac_dashes'' then ReplaceByte (CHR '':'') ''-'' mac
      else if name = ''hostname'' then host
      else if name = ''instance'' then EpInstance ep
      else if name = ''serial'' then Serial dev
      else if name = ''ip'' then dashed_ip (EpIP ep)
      else [])"

definition TemplateName :: "string \<Rightarrow> endpoint \<Rightarrow> device \<Rightarrow> string" where
  "TemplateName tmpl ep dev =
     (if tmpl = [] then []
      else case expand (template_vars ep dev) tmpl of (out, unresolved) \<Rightarrow>
        if unresolved then [] else SanitizeName out)"

section \<open>Facts\<close>

text \<open>An RFC 1123 label.\<close>

definition label_char :: "char \<Rightarrow> bool" where
  "label_char c \<longleftrightarrow> alnum_rune (byte c) \<or> c = CHR ''-''"

definition dns_label :: "string \<Rightarrow> bool" where
  "dns_label s \<longleftrightarrow> s \<noteq> [] \<and> length s \<le> 63 \<and> (\<forall>c \<in> set s. label_char c)
     \<and> hd s \<noteq> CHR ''-'' \<and> last s \<noteq> CHR ''-''"

lemma alnum_byte [simp]: "alnum_rune r \<Longrightarrow> r mod 256 = r"
  by (rule mod_less) (auto simp: alnum_rune_def)

lemma alnum_dash: "alnum_rune r \<Longrightarrow> char_of r \<noteq> CHR ''-''"
proof
  assume r: "alnum_rune r" and "char_of r = CHR ''-''"
  then have "byte (char_of r) = byte CHR ''-''" by simp
  with r show False by (simp add: alnum_rune_def)
qed

text \<open>No two adjacent dashes, and none in front when \<open>lastDash\<close>.\<close>

fun single_dashes :: "bool \<Rightarrow> string \<Rightarrow> bool" where
  "single_dashes lastDash [] = True"
| "single_dashes lastDash (c # s) = (if c = CHR ''-'' then \<not> lastDash \<and> single_dashes True s else single_dashes False s)"

lemma sanitize_single: "single_dashes lastDash (sanitize_runes lastDash rs)"
  by (induction lastDash rs rule: sanitize_runes.induct) (auto simp: alnum_dash)

lemma sanitize_chars: "c \<in> set (sanitize_runes lastDash rs) \<Longrightarrow> label_char c"
  by (induction lastDash rs rule: sanitize_runes.induct) (auto simp: label_char_def split: if_splits)

lemma single_dashes_take: "single_dashes b s \<Longrightarrow> single_dashes b (take n s)"
  by (induction b s arbitrary: n rule: single_dashes.induct) (auto simp: take_Cons split: nat.splits if_splits)

lemma TrimRight_take: "\<exists>n. TrimRight c s = take n s"
  by (metis TrimRight_prefix append_eq_conv_conj)

lemma single_dashes_trim: "single_dashes b s \<Longrightarrow> single_dashes b (TrimRight c s)"
  using TrimRight_take [of c s] single_dashes_take by metis

lemma single_dashes_hd: "single_dashes True s \<Longrightarrow> s = [] \<or> hd s \<noteq> CHR ''-''"
  by (cases s) (auto split: if_splits)

lemma SanitizeName_clean: "single_dashes True (SanitizeName s) \<and> length (SanitizeName s) \<le> 63
    \<and> (\<forall>c \<in> set (SanitizeName s). label_char c) \<and> (SanitizeName s = [] \<or> last (SanitizeName s) \<noteq> CHR ''-'')"
proof -
  let ?o = "TrimRight (CHR ''-'') (sanitize_runes True (runes (ToLower s)))"
  have o1: "single_dashes True ?o" by (intro single_dashes_trim sanitize_single)
  have o2: "\<forall>c \<in> set ?o. label_char c"
    using set_TrimRight [of "CHR ''-''"] sanitize_chars by blast
  have t2: "\<forall>c \<in> set (TrimRight (CHR ''-'') (take 63 ?o)). label_char c"
    using set_TrimRight [of "CHR ''-''" "take 63 ?o"] set_take_subset [of 63 ?o] o2 by blast
  have t3: "length (TrimRight (CHR ''-'') (take 63 ?o)) \<le> 63"
    using length_TrimRight [of "CHR ''-''" "take 63 ?o"] by simp
  show ?thesis
    using o1 o2 t2 t3 single_dashes_trim [OF single_dashes_take [OF o1]] TrimRight_last
    unfolding SanitizeName_def Let_def by auto
qed

lemma SanitizeName_label: "SanitizeName s = [] \<or> dns_label (SanitizeName s)"
  using SanitizeName_clean [of s] single_dashes_hd [of "SanitizeName s"] by (auto simp: dns_label_def)

lemma label_lower: "label_char c \<Longrightarrow> lower_char c = c \<and> byte c < 0x80"
  by (auto simp: label_char_def alnum_rune_def lower_char_def)

lemma sanitize_id:
  "single_dashes b s \<Longrightarrow> \<forall>c \<in> set s. label_char c \<Longrightarrow> sanitize_runes b (map byte s) = s"
  by (induction b s rule: single_dashes.induct) (auto simp: label_char_def alnum_rune_def split: if_splits)

lemma SanitizeName_id:
  assumes "single_dashes True s" "length s \<le> 63" "\<forall>c \<in> set s. label_char c" "s = [] \<or> last s \<noteq> CHR ''-''"
  shows "SanitizeName s = s"
proof -
  have a: "ascii s" and l: "map lower_char s = s"
    using assms(3) label_lower by (auto simp: ascii_def map_idI)
  have "sanitize_runes True (runes (ToLower s)) = s"
    using sanitize_id [OF assms(1,3)] by (simp add: ToLower_ascii [OF a] l runes_ascii [OF a])
  with TrimRight_id [OF assms(4)] assms(2) show ?thesis by (simp add: SanitizeName_def)
qed

lemma dec_byte: "length (dec b) \<le> 3"
proof -
  have "unat b < 256" by (rule less_le_trans [OF unsigned_less]) simp
  with length_itoa_nat_byte [of "unat b"] show ?thesis by (simp add: dec_def)
qed

lemma digit_label: "is_digit c \<Longrightarrow> label_char c \<and> c \<noteq> CHR ''-''"
  by (auto simp: is_digit_def label_char_def alnum_rune_def)

lemma digit_not_dot: "is_digit c \<Longrightarrow> c \<noteq> CHR ''.'' \<and> c \<noteq> CHR '':''"
  by (auto simp: is_digit_def)

lemma dec_digit: "\<forall>c \<in> set (dec b). is_digit c" and dec_nonempty: "dec b \<noteq> []"
  using dec_digits by (auto simp: dec_def)

text \<open>The dashed form of an IPv4 address is its four numbers joined by dashes, already sanitised.\<close>

lemma dashed_v4: "dashed_ip (V4 a b c d) = Join ''-'' [dec a, dec b, dec c, dec d]"
proof -
  have m: "map (\<lambda>c. if c = CHR ''.'' \<or> c = CHR '':'' then CHR ''-'' else c) (dec x) = dec x" for x
  proof (rule map_idI)
    fix c assume "c \<in> set (dec x)"
    then have "c \<noteq> CHR ''.'' \<and> c \<noteq> CHR '':''" using dec_digit digit_not_dot by blast
    then show "(if c = CHR ''.'' \<or> c = CHR '':'' then CHR ''-'' else c) = c" by simp
  qed
  show ?thesis by (simp add: dashed_ip_def v4_string_def m)
qed

lemma single_dashes_digits:
  "s \<noteq> [] \<Longrightarrow> \<forall>c \<in> set s. is_digit c \<Longrightarrow> single_dashes b (s @ t) \<longleftrightarrow> single_dashes False t"
proof (induction s arbitrary: b)
  case (Cons c s)
  have c: "c \<noteq> CHR ''-''" using Cons.prems(2) digit_label by simp
  from Cons show ?case by (cases "s = []") (simp_all add: c)
qed simp

lemma SanitizeName_v4: "SanitizeName (dashed_ip (V4 a b c d)) = dashed_ip (V4 a b c d)"
proof (rule SanitizeName_id)
  let ?s = "dashed_ip (V4 a b c d)"
  note d = single_dashes_digits [OF dec_nonempty dec_digit]
  show "single_dashes True ?s" by (simp add: dashed_v4 d d [where t = "[]", simplified])
  show "length ?s \<le> 63" using dec_byte [of a] dec_byte [of b] dec_byte [of c] dec_byte [of d] by (simp add: dashed_v4)
  have l: "\<forall>x \<in> set (dec y). label_char x" for y using dec_digit digit_label by blast
  show "\<forall>x \<in> set ?s. label_char x" using l by (auto simp: dashed_v4 label_char_def)
  have "last (dec d) \<noteq> CHR ''-''" using dec_digit [of d] dec_nonempty digit_label last_in_set by blast
  then show "?s = [] \<or> last ?s \<noteq> CHR ''-''" using dec_nonempty by (simp add: dashed_v4)
qed

lemma dashed_v4_inj: "dashed_ip (V4 a b c d) = dashed_ip (V4 a' b' c' d') \<Longrightarrow> V4 a b c d = V4 a' b' c' d'"
proof -
  assume e: "dashed_ip (V4 a b c d) = dashed_ip (V4 a' b' c' d')"
  have nodash: "CHR ''-'' \<notin> set (dec x)" for x using dec_digit digit_label by blast
  have "Split (CHR ''-'') (Join ''-'' [dec p, dec q, dec r, dec s]) = [dec p, dec q, dec r, dec s]" for p q r s
    by (rule Split_Join) (use nodash in auto)
  with e have "[dec a, dec b, dec c, dec d] = [dec a', dec b', dec c', dec d']" unfolding dashed_v4 by metis
  then show ?thesis by (auto dest: dec_inj)
qed

section \<open>Properties\<close>

text \<open>C34: A sanitised name is empty or an RFC 1123 label (at most 63 lower-case alphanumerics and
  dashes, alphanumeric at both ends), and sanitising again changes nothing, for any bytes whatever.\<close>

theorem SanitizeName_is_label:
  "(SanitizeName s = [] \<or> dns_label (SanitizeName s)) \<and> SanitizeName (SanitizeName s) = SanitizeName s"
  using SanitizeName_label SanitizeName_clean [of s] SanitizeName_id [of "SanitizeName s"] by blast

lemma ResourceName_label:
  assumes "EntryToEndpoint entry = Some ep"
  shows "dns_label (ResourceName ep)"
proof -
  obtain host x y where h: "Cut (CHR ''.'') (EpHostname ep) = (host, x, y)" by (metis prod_cases3)
  obtain a b c d where ip: "EpIP ep = V4 a b c d"
    using EntryToEndpoint_ip [OF assms] by (cases "EpIP ep") auto
  let ?s = "dashed_ip (V4 a b c d)"
  have ne: "?s \<noteq> []" using dec_nonempty by (simp add: dashed_v4)
  have l: "dns_label ?s" using SanitizeName_label [of ?s] ne by (simp add: SanitizeName_v4)
  have "length ?s \<le> 15"
    using dec_byte [of a] dec_byte [of b] dec_byte [of c] dec_byte [of d] by (simp add: dashed_v4)
  with l ne have "dns_label (''bmc-'' @ ?s)" by (auto simp: dns_label_def label_char_def alnum_rune_def)
  with h ip SanitizeName_label [of host] SanitizeName_label [of "EpInstance ep"] show ?thesis
    by (auto simp: ResourceName_def SanitizeName_v4)
qed

text \<open>Every endpoint that discovery emits (they all carry an IPv4 address) has a resource name
  that Kubernetes accepts: an RFC 1123 label, whatever its advertised host and instance names are.\<close>

theorem ResourceName_is_label:
  assumes "EntryToEndpoint entry = Some ep"
  shows "dns_label (ResourceName ep)"
  by (rule ResourceName_label [OF assms])

definition bare_entry :: service_entry where
  "bare_entry = \<lparr>EntryInstance = ''###'', EntryService = ''_redfish._tcp'', EntryHostName = ''.local.'',
     EntryPort = 443, AddrIPv4 = [[10, 0, 0, 7]]\<rparr>"

theorem ResourceName_is_label_witness:
  "\<exists>ep. EntryToEndpoint bare_entry = Some ep \<and> dns_label (ResourceName ep)"
proof -
  obtain ep where ep: "EntryToEndpoint bare_entry = Some ep"
    by (auto simp: EntryToEndpoint_def bare_entry_def AddrFromSlice_def)
  with ResourceName_is_label [OF ep] show ?thesis by blast
qed

text \<open>The last resort keeps BMCs apart: two endpoints without a usable host name or instance name
  have the same resource name only if they have the same IPv4 address.\<close>

theorem ResourceName_fallback_injective:
  assumes "Is4 (EpIP a)" and "Is4 (EpIP b)"
    and "SanitizeName (fst (Cut (CHR ''.'') (EpHostname a))) = []" and "SanitizeName (EpInstance a) = []"
    and "SanitizeName (fst (Cut (CHR ''.'') (EpHostname b))) = []" and "SanitizeName (EpInstance b) = []"
    and "ResourceName a = ResourceName b"
  shows "EpIP a = EpIP b"
proof -
  have r: "ResourceName e = ''bmc-'' @ dashed_ip (EpIP e)"
    if "Is4 (EpIP e)" "SanitizeName (fst (Cut (CHR ''.'') (EpHostname e))) = []" "SanitizeName (EpInstance e) = []" for e
  proof -
    obtain host x y where "Cut (CHR ''.'') (EpHostname e) = (host, x, y)" by (metis prod_cases3)
    with that show ?thesis by (cases "EpIP e") (auto simp: ResourceName_def SanitizeName_v4)
  qed
  from assms(7) have "dashed_ip (EpIP a) = dashed_ip (EpIP b)"
    using r [OF assms(1,3,4)] r [OF assms(2,5,6)] by simp
  with assms(1,2) show ?thesis by (cases "EpIP a"; cases "EpIP b") (auto dest: dashed_v4_inj)
qed

theorem ResourceName_fallback_injective_witness:
  "\<exists>a b. EpIP a \<noteq> EpIP b \<and> ResourceName a \<noteq> ResourceName b"
proof -
  let ?e = "\<lambda>ip. \<lparr>EpInstance = [], EpService = ''_redfish._tcp'', EpHostname = [], EpIP = ip, EpPort = 443\<rparr>"
  have "SanitizeName [] = []" by (simp add: SanitizeName_def ToLower_def runes_def TrimRight_def)
  with ResourceName_fallback_injective [of "?e (V4 10 0 0 7)" "?e (V4 10 0 0 8)"]
  have "ResourceName (?e (V4 10 0 0 7)) \<noteq> ResourceName (?e (V4 10 0 0 8))" by auto
  then show ?thesis by (intro exI [of _ "?e (V4 10 0 0 7)"] exI [of _ "?e (V4 10 0 0 8)"]) simp
qed

lemma lower_hex_label: "lower_hex c \<Longrightarrow> label_char c \<and> c \<noteq> CHR ''-'' \<and> c \<noteq> CHR '':''"
  by (auto simp: lower_hex_def label_char_def alnum_rune_def is_digit_def)

text \<open>A MAC without its colons.\<close>

lemma mac_pairs_bare:
  "mac_pairs n s \<Longrightarrow> length (ReplaceByte (CHR '':'') [] s) = 2 * n + 2 \<and> (\<forall>c \<in> set (ReplaceByte (CHR '':'') [] s). lower_hex c)"
  by (induction n arbitrary: s) (auto simp: ReplaceByte_def lower_hex_label split: list.splits)

lemma mac_pairs_bare_inj:
  "mac_pairs n s \<Longrightarrow> mac_pairs n t \<Longrightarrow> ReplaceByte (CHR '':'') [] s = ReplaceByte (CHR '':'') [] t \<Longrightarrow> s = t"
  by (induction n arbitrary: s t) (auto simp: ReplaceByte_def lower_hex_label split: list.splits)

definition valid_macs :: "string list \<Rightarrow> bool" where
  "valid_macs macs \<longleftrightarrow> distinct macs \<and> (\<forall>m \<in> set macs. macPattern m)"

lemma valid_macs_snoc: "valid_macs macs \<Longrightarrow> macPattern m \<Longrightarrow> m \<notin> set macs \<Longrightarrow> valid_macs (macs @ [m])"
  by (auto simp: valid_macs_def)

lemma port_macs_inv: "valid_macs macs \<Longrightarrow> valid_macs (port_macs ports macs)"
  by (induction ports macs rule: port_macs.induct) (simp_all add: Let_def valid_macs_snoc)

lemma nic_macs_inv: "valid_macs macs \<Longrightarrow> valid_macs (nic_macs nics macs)"
  by (induction nics macs rule: nic_macs.induct) (simp_all add: port_macs_inv)

lemma inbandMACs_inv: "valid_macs (inbandMACs dev)"
  unfolding inbandMACs_def by (rule nic_macs_inv) (simp add: valid_macs_def)

lemma PrimaryMAC_pattern: "PrimaryMAC dev \<noteq> [] \<Longrightarrow> macPattern (PrimaryMAC dev)"
  using inbandMACs_inv [of dev] by (auto simp: PrimaryMAC_def valid_macs_def split: list.splits)

text \<open>The in-band MACs are pairwise distinct and each has the form the Hardware CRD demands, six
  lower-case hexadecimal pairs; the primary one is the first of them.\<close>

theorem inbandMACs_valid:
  "distinct (inbandMACs dev) \<and> (\<forall>m \<in> set (inbandMACs dev). length m = 17 \<and> macPattern m)
    \<and> (PrimaryMAC dev = (if inbandMACs dev = [] then [] else hd (inbandMACs dev)))"
proof -
  have "mac_pairs n s \<Longrightarrow> length s = 3 * n + 2" for n s
    by (induction n arbitrary: s) (auto split: list.splits)
  then have "macPattern m \<Longrightarrow> length m = 17" for m unfolding macPattern_def by fastforce
  then show ?thesis
    using inbandMACs_inv [of dev] by (auto simp: valid_macs_def PrimaryMAC_def split: list.splits)
qed

definition sample_ports :: "nic_port option list" where
  "sample_ports = [None, Some \<lparr>PortMac = ''52:54:00:aa:00:01''\<rparr>, Some \<lparr>PortMac = ''eth0''\<rparr>]"

theorem inbandMACs_valid_witness:
  "inbandMACs (sample_device\<lparr>NICs := [None, Some \<lparr>NicID = ''1'', NICPorts = sample_ports\<rparr>]\<rparr>) = [''52:54:00:aa:00:01'']
     \<and> macPattern ''52:54:00:aa:00:01''"
proof -
  let ?d = "sample_device\<lparr>NICs := [None, Some \<lparr>NicID = ''1'', NICPorts = sample_ports\<rparr>]\<rparr>"
  have "ToLower ''52:54:00:aa:00:01'' = ''52:54:00:aa:00:01''" "ToLower ''eth0'' = ''eth0''"
    by (simp_all add: ToLower_ascii lower_char_def)
  moreover have "macPattern ''52:54:00:aa:00:01''" "\<not> macPattern ''eth0''"
    by (simp_all add: macPattern_def numeral_eq_Suc lower_hex_def is_digit_def)
  ultimately have "inbandMACs ?d = [''52:54:00:aa:00:01'']"
    by (simp add: inbandMACs_def sample_ports_def Let_def)
  with inbandMACs_valid [of ?d] show ?thesis by simp
qed

lemma expand_plain:
  "CHR ''$'' \<notin> set p \<Longrightarrow> expand vars (p @ s) = (case expand vars s of (out, u) \<Rightarrow> (p @ out, u))"
proof (induction p)
  case (Cons c p)
  have "template_ref (c # p @ s) = None"
    using Cons.prems by (auto simp: template_ref_def Let_def split: list.splits)
  with Cons show ?case by (simp split: prod.splits)
qed simp

lemma expand_mac: "expand vars ''${mac}'' = (vars ''mac'', vars ''mac'' = [])"
  by (simp add: template_ref_def name_char_def)

text \<open>The documented name template: with a template that ends in \<open>${mac}\<close>, after a prefix of
  label characters, a device with a MAC gets the prefix followed by its twelve hexadecimal digits, a
  device without one gets no template name, and two devices have the same name only if they have the
  same primary MAC.\<close>

theorem mac_template_names:
  assumes "single_dashes True p" and "\<forall>c \<in> set p. label_char c" and "length p \<le> 51"
  shows "TemplateName (p @ ''${mac}'') ep dev =
      (if PrimaryMAC dev = [] then [] else p @ ReplaceByte (CHR '':'') [] (PrimaryMAC dev))
    \<and> (TemplateName (p @ ''${mac}'') ep dev = TemplateName (p @ ''${mac}'') ep' dev' \<longrightarrow> PrimaryMAC dev = PrimaryMAC dev')"
proof -
  have nd: "CHR ''$'' \<notin> set p" using assms(2) by (auto simp: label_char_def alnum_rune_def)
  have v: "template_vars e d ''mac'' = ReplaceByte (CHR '':'') [] (PrimaryMAC d)" for e d
    by (simp add: template_vars_def Let_def split: prod.splits)
  have t: "TemplateName (p @ ''${mac}'') e d =
      (if PrimaryMAC d = [] then [] else p @ ReplaceByte (CHR '':'') [] (PrimaryMAC d))" for e d
  proof (cases "PrimaryMAC d = []")
    case True
    then show ?thesis
      using expand_plain [OF nd, of "template_vars e d" "''${mac}''"] v [of e d] expand_mac [of "template_vars e d"]
      by (simp add: TemplateName_def ReplaceByte_def)
  next
    case False
    let ?m = "ReplaceByte (CHR '':'') [] (PrimaryMAC d)"
    have m: "length ?m = 12" "\<forall>c \<in> set ?m. lower_hex c"
      using mac_pairs_bare [of 5 "PrimaryMAC d"] PrimaryMAC_pattern [OF False] by (auto simp: macPattern_def)
    have sd: "single_dashes b (s @ t)" if "single_dashes b s" "\<forall>c \<in> set t. c \<noteq> CHR ''-''" for b s t
    proof -
      have "single_dashes b t" if "\<forall>c \<in> set t. c \<noteq> CHR ''-''" for b t using that by (induction b t rule: single_dashes.induct) auto
      with that show ?thesis by (induction b s rule: single_dashes.induct) (auto split: if_splits)
    qed
    have "?m \<noteq> []" using m(1) by (metis list.size(3) zero_neq_numeral)
    moreover have "last ?m \<noteq> CHR ''-''" using m(2) lower_hex_label last_in_set [OF calculation] by blast
    ultimately have "SanitizeName (p @ ?m) = p @ ?m"
      using assms m lower_hex_label by (intro SanitizeName_id sd) auto
    moreover have "expand (template_vars e d) (p @ ''${mac}'') = (p @ ?m, False)"
      using expand_plain [OF nd, of "template_vars e d" "''${mac}''"] v [of e d] expand_mac [of "template_vars e d"] \<open>?m \<noteq> []\<close>
      by simp
    ultimately show ?thesis using False by (simp add: TemplateName_def)
  qed
  have "PrimaryMAC dev = PrimaryMAC dev'"
    if "TemplateName (p @ ''${mac}'') ep dev = TemplateName (p @ ''${mac}'') ep' dev'"
  proof -
    have len: "PrimaryMAC d \<noteq> [] \<Longrightarrow> ReplaceByte (CHR '':'') [] (PrimaryMAC d) \<noteq> []" for d
      using mac_pairs_bare [of 5 "PrimaryMAC d"] PrimaryMAC_pattern [of d] unfolding macPattern_def by fastforce
    show ?thesis
      using that len [of dev] len [of dev'] PrimaryMAC_pattern [of dev] PrimaryMAC_pattern [of dev']
        mac_pairs_bare_inj [of 5 "PrimaryMAC dev" "PrimaryMAC dev'"]
      unfolding t macPattern_def by (auto split: if_splits)
  qed
  with t show ?thesis by blast
qed

theorem mac_template_names_witness:
  "TemplateName ''talos-${mac}'' sample_endpoint
     (sample_device\<lparr>NICs := [Some \<lparr>NicID = ''1'', NICPorts = [Some \<lparr>PortMac = ''52:54:00:aa:00:01''\<rparr>]\<rparr>]\<rparr>) = ''talos-525400aa0001''"
proof -
  let ?d = "sample_device\<lparr>NICs := [Some \<lparr>NicID = ''1'', NICPorts = [Some \<lparr>PortMac = ''52:54:00:aa:00:01''\<rparr>]\<rparr>]\<rparr>"
  have p: "PrimaryMAC ?d = ''52:54:00:aa:00:01''"
    by (simp add: PrimaryMAC_def inbandMACs_def Let_def ToLower_ascii lower_char_def macPattern_def
        numeral_eq_Suc lower_hex_def is_digit_def)
  have "single_dashes True ''talos-''" "\<forall>c \<in> set ''talos-''. label_char c" "length ''talos-'' \<le> 51"
    by (simp_all add: label_char_def alnum_rune_def)
  from mac_template_names [OF this, of sample_endpoint ?d] show ?thesis by (simp add: p ReplaceByte_def)
qed

end
