(* ===== verification/GoTime.thy ===== *)
theory GoTime
  imports GoStrings
begin

text \<open>
  Go's \<open>time\<close> as the program uses it: an instant is the number of nanoseconds since the Unix
  epoch (\<open>UTC\<close>), a duration a number of nanoseconds; \<open>Format(time.RFC3339)\<close> of a UTC instant
  and \<open>time.Parse(time.RFC3339, s)\<close>. The civil calendar is computed as Go does, by 400-, 100-,
  4- and 1-year cycles.

  Limits: the parser is Go's strict RFC 3339 path (fraction and numeric offset included); the
  lenient spellings the generic layout parser also takes (a one-digit hour, a comma before the
  fraction) are failures here. Years are those a four-digit year can show.
\<close>

type_synonym time = int
type_synonym duration = int

definition Second :: duration where "Second = 1000000000"
definition Minute :: duration where "Minute = 60 * Second"
definition Hour :: duration where "Hour = 60 * Minute"

text \<open>\<open>t.Truncate(time.Second)\<close>, \<open>t.Add(d)\<close>, \<open>t.After(u)\<close>, \<open>t.Before(u)\<close>.\<close>

definition TruncateSecond :: "time \<Rightarrow> time" where
  "TruncateSecond t = t - t mod Second"

definition Add :: "time \<Rightarrow> duration \<Rightarrow> time" where
  "Add t d = t + d"

definition After :: "time \<Rightarrow> time \<Rightarrow> bool" where
  "After t u \<longleftrightarrow> u < t"

definition Before :: "time \<Rightarrow> time \<Rightarrow> bool" where
  "Before t u \<longleftrightarrow> t < u"

section \<open>The civil calendar\<close>

definition leap_year :: "int \<Rightarrow> bool" where
  "leap_year y \<longleftrightarrow> y mod 4 = 0 \<and> (y mod 100 \<noteq> 0 \<or> y mod 400 = 0)"

text \<open>Days from 0001-01-01 to the first day of year \<open>y\<close>.\<close>

definition days_before_year :: "int \<Rightarrow> int" where
  "days_before_year y = 365 * (y - 1) + (y - 1) div 4 - (y - 1) div 100 + (y - 1) div 400"

definition days_before_month :: "bool \<Rightarrow> int \<Rightarrow> int" where
  "days_before_month lp m = (if m = 1 then 0 else if m = 2 then 31 else (if lp then 1 else 0) +
     (if m = 3 then 59 else if m = 4 then 90 else if m = 5 then 120 else if m = 6 then 151
      else if m = 7 then 181 else if m = 8 then 212 else if m = 9 then 243
      else if m = 10 then 273 else if m = 11 then 304 else if m = 12 then 334 else 365))"

definition days_in_month :: "bool \<Rightarrow> int \<Rightarrow> int" where
  "days_in_month lp m = days_before_month lp (m + 1) - days_before_month lp m"

definition month_of_yday :: "bool \<Rightarrow> int \<Rightarrow> int" where
  "month_of_yday lp n =
     (if n < days_before_month lp 2 then 1 else if n < days_before_month lp 3 then 2
      else if n < days_before_month lp 4 then 3 else if n < days_before_month lp 5 then 4
      else if n < days_before_month lp 6 then 5 else if n < days_before_month lp 7 then 6
      else if n < days_before_month lp 8 then 7 else if n < days_before_month lp 9 then 8
      else if n < days_before_month lp 10 then 9 else if n < days_before_month lp 11 then 10
      else if n < days_before_month lp 12 then 11 else 12)"

text \<open>Year and day of the year of the day \<open>d\<close> after 0001-01-01.\<close>

definition year_yday :: "int \<Rightarrow> int \<times> int" where
  "year_yday d =
     (let n400 = d div 146097; r = d mod 146097;
          n100 = min 3 (r div 36524); r = r - 36524 * n100;
          n4 = r div 1461; r = r mod 1461;
          n1 = min 3 (r div 365)
      in (400 * n400 + 100 * n100 + 4 * n4 + n1 + 1, r - 365 * n1))"

definition epoch_days :: int where "epoch_days = 719162"

lemma div_bounds:
  fixes x k :: int
  assumes "0 < k"
  shows "k * (x div k) \<le> x" "x < k * (x div k) + k"
  using assms mult_div_mod_eq [of k x] pos_mod_bound [of k x] pos_mod_sign [of k x] by linarith+

lemma year_parts:
  fixes a b c e :: int
  assumes "0 \<le> b" "b \<le> 3" "0 \<le> c" "c \<le> 24" "0 \<le> e" "e \<le> 3"
  shows "(400 * a + 100 * b + 4 * c + e) div 4 = 100 * a + 25 * b + c"
    "(400 * a + 100 * b + 4 * c + e) div 100 = 4 * a + b"
    "(400 * a + 100 * b + 4 * c + e) div 400 = a"
proof -
  show "(400 * a + 100 * b + 4 * c + e) div 4 = 100 * a + 25 * b + c"
    by (rule int_div_pos_eq [where r = e]) (use assms in simp_all)
  show "(400 * a + 100 * b + 4 * c + e) div 100 = 4 * a + b"
    by (rule int_div_pos_eq [where r = "4 * c + e"]) (use assms in simp_all)
  show "(400 * a + 100 * b + 4 * c + e) div 400 = a"
    by (rule int_div_pos_eq [where r = "100 * b + 4 * c + e"]) (use assms in simp_all)
qed

lemma year_yday_spec:
  assumes "year_yday d = (y, n)"
  shows "days_before_year y + n = d" and "0 \<le> n" and "n < (if leap_year y then 366 else 365)"
proof -
  define a r where "a = d div 146097" and "r = d mod 146097"
  define b s where "b = min 3 (r div 36524)" and "s = r - 36524 * b"
  define c t where "c = s div 1461" and "t = s mod 1461"
  define e where "e = min 3 (t div 365)"
  have d: "d = 146097 * a + r" and r: "0 \<le> r" "r < 146097" by (auto simp: a_def r_def)
  have b: "0 \<le> b" "b \<le> 3" and s: "0 \<le> s" "s \<le> 36524"
    using r div_bounds [of 36524 r] by (auto simp: b_def s_def min_def pos_imp_zdiv_nonneg_iff)
  have sb: "s = 36524 \<Longrightarrow> b = 3"
    using r div_bounds [of 36524 r] by (simp add: b_def s_def min_def split: if_splits)
  have c: "0 \<le> c" "c \<le> 24" and t: "0 \<le> t" "t < 1461" and st: "s = 1461 * c + t"
    using s div_bounds [of 1461 s]
    by (auto simp: c_def t_def pos_imp_zdiv_nonneg_iff)
  have e: "0 \<le> e" "e \<le> 3" and et: "365 * e \<le> t" "t - 365 * e \<le> 365"
    using t div_bounds [of 365 t] by (auto simp: e_def min_def pos_imp_zdiv_nonneg_iff)
  have te: "t - 365 * e = 365 \<Longrightarrow> e = 3"
    using t div_bounds [of 365 t] by (simp add: e_def min_def split: if_splits)
  have "year_yday d = (400 * a + 100 * b + 4 * c + e + 1, t - 365 * e)"
    unfolding year_yday_def Let_def e_def t_def c_def s_def b_def r_def a_def by (rule refl)
  with assms have y: "y = 400 * a + 100 * b + 4 * c + e + 1" and n: "n = t - 365 * e" by simp_all
  have y1: "y - 1 = 400 * a + 100 * b + 4 * c + e" using y by simp
  show "days_before_year y + n = d"
    using st unfolding days_before_year_def y1 year_parts [OF b c e] n d
    by (simp add: s_def algebra_simps)
  show "0 \<le> n" using et n by simp
  show "n < (if leap_year y then 366 else 365)"
  proof (cases "n = 365")
    case True
    then have e3: "e = 3" and t1460: "t = 1460" using te n by auto
    have "c = 24 \<Longrightarrow> b = 3" using s st sb t1460 by auto
    moreover have yc: "y = 400 * a + 100 * b + 4 * (c + 1)" using y e3 by simp
    moreover have "y mod 4 = 0" using yc by simp
    moreover have "c \<noteq> 24 \<Longrightarrow> y mod 100 = 4 * (c + 1)"
      by (rule int_mod_pos_eq [of _ _ "4 * a + b"]; use c yc in simp)
    moreover have "y mod 400 = 0" if "c = 24" "b = 3"
    proof -
      have "y = 400 * (a + 1)" using that yc by simp
      then show ?thesis by simp
    qed
    ultimately have "leap_year y" using c unfolding leap_year_def by (cases "c = 24") simp_all
    with True show ?thesis by simp
  next
    case False
    with et n show ?thesis by auto
  qed
qed

lemma days_before_month_values:
  "days_before_month lp 1 = 0" "days_before_month lp 2 = 31"
  "days_before_month lp 3 = (if lp then 60 else 59)"
  "days_before_month lp 4 = (if lp then 91 else 90)"
  "days_before_month lp 5 = (if lp then 121 else 120)"
  "days_before_month lp 6 = (if lp then 152 else 151)"
  "days_before_month lp 7 = (if lp then 182 else 181)"
  "days_before_month lp 8 = (if lp then 213 else 212)"
  "days_before_month lp 9 = (if lp then 244 else 243)"
  "days_before_month lp 10 = (if lp then 274 else 273)"
  "days_before_month lp 11 = (if lp then 305 else 304)"
  "days_before_month lp 12 = (if lp then 335 else 334)"
  "days_before_month lp 13 = (if lp then 366 else 365)"
  by (simp_all add: days_before_month_def)

lemma month_of_yday_spec:
  assumes "0 \<le> n" and "n < (if lp then 366 else 365)"
  shows "1 \<le> month_of_yday lp n" "month_of_yday lp n \<le> 12"
    "days_before_month lp (month_of_yday lp n) \<le> n"
    "n < days_before_month lp (month_of_yday lp n) + days_in_month lp (month_of_yday lp n)"
  using assms
  by (cases lp; simp add: month_of_yday_def days_in_month_def days_before_month_values)+

definition civil_of_days :: "int \<Rightarrow> int \<times> int \<times> int" where
  "civil_of_days d = (case year_yday (d + epoch_days) of
     (y, n) \<Rightarrow> (let m = month_of_yday (leap_year y) n
       in (y, m, n - days_before_month (leap_year y) m + 1)))"

definition days_of_civil :: "int \<Rightarrow> int \<Rightarrow> int \<Rightarrow> int" where
  "days_of_civil y m d =
     days_before_year y + days_before_month (leap_year y) m + (d - 1) - epoch_days"

lemma civil_of_days_spec:
  assumes "civil_of_days n = (y, m, d)"
  shows "days_of_civil y m d = n" "1 \<le> m" "m \<le> 12" "1 \<le> d" "d \<le> days_in_month (leap_year y) m"
proof -
  obtain k where k: "year_yday (n + epoch_days) = (y, k)" and
    m: "m = month_of_yday (leap_year y) k" and d: "d = k - days_before_month (leap_year y) m + 1"
    using assms by (auto simp: civil_of_days_def Let_def split: prod.splits)
  note yy = year_yday_spec [OF k] and mm = month_of_yday_spec [OF year_yday_spec(2) [OF k] year_yday_spec(3) [OF k]]
  show "days_of_civil y m d = n" using yy(1) by (simp add: days_of_civil_def d)
  show "1 \<le> m" "m \<le> 12" "1 \<le> d" "d \<le> days_in_month (leap_year y) m"
    using mm by (auto simp: m d)
qed

section \<open>RFC 3339\<close>

definition digit_char :: "int \<Rightarrow> char" where
  "digit_char n = char_of (nat (48 + n mod 10))"

definition pad2 :: "int \<Rightarrow> string" where
  "pad2 n = [digit_char (n div 10), digit_char n]"

definition pad4 :: "int \<Rightarrow> string" where
  "pad4 n = [digit_char (n div 1000), digit_char (n div 100), digit_char (n div 10), digit_char n]"

definition FormatRFC3339 :: "time \<Rightarrow> string" where
  "FormatRFC3339 t = (let secs = t div Second; sod = secs mod 86400
     in case civil_of_days (secs div 86400) of (y, m, d) \<Rightarrow>
       (if 0 \<le> y \<and> y \<le> 9999 then pad4 y else Itoa y) @ ''-'' @ pad2 m @ ''-'' @ pad2 d @ ''T'' @
       pad2 (sod div 3600) @ '':'' @ pad2 (sod div 60 mod 60) @ '':'' @ pad2 (sod mod 60) @ ''Z'')"

fun parse_uint :: "int \<Rightarrow> string \<Rightarrow> int option" where
  "parse_uint acc [] = Some acc"
| "parse_uint acc (c # s) = (if is_digit c then parse_uint (10 * acc + int (byte c - 48)) s else None)"

definition parse_field :: "int \<Rightarrow> int \<Rightarrow> string \<Rightarrow> int option" where
  "parse_field lo hi s = (case parse_uint 0 s of
     None \<Rightarrow> None | Some n \<Rightarrow> if lo \<le> n \<and> n \<le> hi then Some n else None)"

text \<open>The fraction: at most nine digits count.\<close>

definition parse_fraction :: "string \<Rightarrow> int \<times> string" where
  "parse_fraction s = (case s of
     c # c1 # cs \<Rightarrow> if c = CHR ''.'' \<and> is_digit c1 then
        (let ds = takeWhile is_digit (c1 # cs); used = take 9 ds
         in (the (parse_uint 0 used) * 10 ^ (9 - length used), dropWhile is_digit (c1 # cs)))
        else (0, s)
   | _ \<Rightarrow> (0, s))"

definition parse_zone :: "string \<Rightarrow> int option" where
  "parse_zone s =
     (if s = ''Z'' then Some 0
      else if length s = 6 \<and> (hd s = CHR ''-'' \<or> hd s = CHR ''+'') \<and> s ! 3 = CHR '':''
      then (case (parse_field 0 23 (take 2 (drop 1 s)), parse_field 0 59 (drop 4 s)) of
          (Some h, Some m) \<Rightarrow> Some ((if hd s = CHR ''-'' then -1 else 1) * (h * 60 + m) * 60)
        | _ \<Rightarrow> None)
      else None)"

definition ParseRFC3339 :: "string \<Rightarrow> time option" where
  "ParseRFC3339 s =
     (if length s < 19 \<or> s ! 4 \<noteq> CHR ''-'' \<or> s ! 7 \<noteq> CHR ''-'' \<or> s ! 10 \<noteq> CHR ''T''
         \<or> s ! 13 \<noteq> CHR '':'' \<or> s ! 16 \<noteq> CHR '':'' then None
      else (case (parse_field 0 9999 (take 4 s), parse_field 1 12 (take 2 (drop 5 s))) of
        (Some y, Some mo) \<Rightarrow>
          (case (parse_field 1 (days_in_month (leap_year y) mo) (take 2 (drop 8 s)),
                 parse_field 0 23 (take 2 (drop 11 s)), parse_field 0 59 (take 2 (drop 14 s)),
                 parse_field 0 59 (take 2 (drop 17 s)), parse_fraction (drop 19 s)) of
            (Some d, Some h, Some mi, Some sec, ns, rest) \<Rightarrow>
              (case parse_zone rest of
                 None \<Rightarrow> None
               | Some off \<Rightarrow> Some ((days_of_civil y mo d * 86400 + h * 3600 + mi * 60 + sec - off)
                   * Second + ns))
          | _ \<Rightarrow> None)
      | _ \<Rightarrow> None))"

lemma byte_digit_char [simp]: "byte (digit_char n) = nat (48 + n mod 10)"
proof -
  have "n mod 10 < 10" by simp
  then have "nat (48 + n mod 10) < 256" by linarith
  then show ?thesis by (simp add: digit_char_def)
qed

lemma digit_char_is_digit [simp]: "is_digit (digit_char n)"
proof -
  have "0 \<le> n mod 10" "n mod 10 < 10" by simp_all
  then show ?thesis unfolding is_digit_def byte_digit_char by linarith
qed

lemma parse_uint_digit [simp]:
  "parse_uint acc (digit_char n # s) = parse_uint (10 * acc + n mod 10) s"
  by (simp add: nat_add_distrib)

lemma parse_uint_pad2: "0 \<le> n \<Longrightarrow> n \<le> 99 \<Longrightarrow> parse_uint 0 (pad2 n) = Some n"
proof -
  assume "0 \<le> n" "n \<le> 99"
  then have "n div 10 mod 10 = n div 10" by simp
  then show ?thesis by (simp add: pad2_def)
qed

lemma parse_uint_pad4: "0 \<le> n \<Longrightarrow> n \<le> 9999 \<Longrightarrow> parse_uint 0 (pad4 n) = Some n"
proof -
  assume n: "0 \<le> n" "n \<le> 9999"
  then have m: "n div 1000 mod 10 = n div 1000" by simp
  define q p w where "q = n div 10" and "p = q div 10" and "w = p div 10"
  have d: "n div 100 = p" "n div 1000 = w"
    by (simp_all add: q_def p_def w_def flip: zdiv_zmult2_eq)
  have parts: "n = 10 * q + n mod 10" "q = 10 * p + q mod 10" "p = 10 * w + p mod 10"
    by (simp_all add: q_def p_def w_def)
  have "10 * (10 * (10 * w + a) + b) + c = n" if "n = 10 * q + c" "q = 10 * p + b" "p = 10 * w + a"
    for a b c
    using that by simp
  from this [OF parts] have "10 * (10 * (10 * w + p mod 10) + q mod 10) + n mod 10 = n" .
  moreover have "parse_uint 0 (pad4 n) = Some (10 * (10 * (10 * w + p mod 10) + q mod 10) + n mod 10)"
    using m by (simp add: pad4_def d flip: q_def)
  ultimately show ?thesis by simp
qed

lemma parse_field_pad2: "0 \<le> n \<Longrightarrow> n \<le> 99 \<Longrightarrow> lo \<le> n \<Longrightarrow> n \<le> hi \<Longrightarrow> parse_field lo hi (pad2 n) = Some n"
  by (simp add: parse_field_def parse_uint_pad2)

lemma days_in_month_le: "1 \<le> m \<Longrightarrow> m \<le> 12 \<Longrightarrow> days_in_month lp m \<le> 31"
  by (auto simp: days_in_month_def days_before_month_def)

definition year_of :: "time \<Rightarrow> int" where
  "year_of t = fst (civil_of_days (t div Second div 86400))"

lemma ParseRFC3339_fields:
  assumes "length s \<ge> 19" "s ! 4 = CHR ''-''" "s ! 7 = CHR ''-''" "s ! 10 = CHR ''T''"
    "s ! 13 = CHR '':''" "s ! 16 = CHR '':''"
    and "parse_field 0 9999 (take 4 s) = Some y" "parse_field 1 12 (take 2 (drop 5 s)) = Some mo"
    "parse_field 1 (days_in_month (leap_year y) mo) (take 2 (drop 8 s)) = Some d"
    "parse_field 0 23 (take 2 (drop 11 s)) = Some h" "parse_field 0 59 (take 2 (drop 14 s)) = Some mi"
    "parse_field 0 59 (take 2 (drop 17 s)) = Some sec" "parse_fraction (drop 19 s) = (ns, rest)"
    "parse_zone rest = Some off"
  shows "ParseRFC3339 s = Some ((days_of_civil y mo d * 86400 + h * 3600 + mi * 60 + sec - off) * Second + ns)"
  using assms by (simp add: ParseRFC3339_def)

text \<open>Reading back what was written loses the fraction of the second, and nothing else.\<close>

lemma Parse_Format_RFC3339:
  assumes "0 \<le> year_of t" and "year_of t \<le> 9999"
  shows "ParseRFC3339 (FormatRFC3339 t) = Some (TruncateSecond t)"
proof -
  define secs sod where "secs = t div Second" and "sod = secs mod 86400"
  obtain y m d where c: "civil_of_days (secs div 86400) = (y, m, d)" by (metis prod_cases3)
  note cs = civil_of_days_spec [OF c]
  have y: "0 \<le> y" "y \<le> 9999" using assms c by (auto simp: year_of_def secs_def)
  have d31: "d \<le> 31" using days_in_month_le [OF cs(2,3), of "leap_year y"] cs(5) by linarith
  have sod: "0 \<le> sod" "sod < 86400" by (auto simp: sod_def)
  define h mi sc where "h = sod div 3600" and "mi = sod div 60 mod 60" and "sc = sod mod 60"
  have hms: "0 \<le> h" "h \<le> 23" "0 \<le> mi" "mi \<le> 59" "0 \<le> sc" "sc \<le> 59"
    using sod by (auto simp: h_def mi_def sc_def pos_imp_zdiv_nonneg_iff)
  have sum: "h * 3600 + mi * 60 + sc = sod"
  proof -
    have "sod div 3600 = sod div 60 div 60" by (simp flip: zdiv_zmult2_eq)
    then have "sod div 60 = 60 * h + mi" by (simp add: h_def mi_def)
    moreover have "sod = 60 * (sod div 60) + sc" by (simp add: sc_def)
    ultimately show ?thesis by simp
  qed
  have fmt: "FormatRFC3339 t = pad4 y @ ''-'' @ pad2 m @ ''-'' @ pad2 d @ ''T'' @
      pad2 h @ '':'' @ pad2 mi @ '':'' @ pad2 sc @ ''Z''"
    using y by (simp add: FormatRFC3339_def Let_def c sod_def h_def mi_def sc_def flip: secs_def)
  have fields: "parse_field 0 9999 (pad4 y) = Some y" "parse_field 1 12 (pad2 m) = Some m"
    "parse_field 1 (days_in_month (leap_year y) m) (pad2 d) = Some d"
    "parse_field 0 23 (pad2 h) = Some h" "parse_field 0 59 (pad2 mi) = Some mi"
    "parse_field 0 59 (pad2 sc) = Some sc"
    using y cs d31 hms by (auto simp: parse_field_def parse_uint_pad4 parse_uint_pad2)
  obtain y1 y2 y3 y4 where ys: "pad4 y = [y1, y2, y3, y4]" by (simp add: pad4_def)
  obtain m1 m2 d1 d2 where ms: "pad2 m = [m1, m2]" "pad2 d = [d1, d2]" by (simp add: pad2_def)
  obtain h1 h2 i1 i2 s1 s2 where hs: "pad2 h = [h1, h2]" "pad2 mi = [i1, i2]" "pad2 sc = [s1, s2]"
    by (simp add: pad2_def)
  have "ParseRFC3339 (FormatRFC3339 t) =
      Some ((days_of_civil y m d * 86400 + h * 3600 + mi * 60 + sc - 0) * Second + 0)"
    unfolding fmt ys ms hs
    by (rule ParseRFC3339_fields [where rest = "''Z''"])
      (simp_all add: fields [unfolded ys ms hs] parse_fraction_def parse_zone_def)
  also have "days_of_civil y m d * 86400 + h * 3600 + mi * 60 + sc - 0 = secs"
    using div_mult_mod_eq [of secs 86400] unfolding cs(1) sod_def [symmetric] sum [symmetric] by simp
  finally show ?thesis
    by (simp add: secs_def TruncateSecond_def minus_mod_eq_div_mult)
qed

lemma TruncateSecond_le: "TruncateSecond t \<le> t" and TruncateSecond_gt: "t - Second < TruncateSecond t"
  by (auto simp: TruncateSecond_def Second_def)

lemma year_of_TruncateSecond: "year_of (TruncateSecond t) = year_of t"
  by (simp add: year_of_def TruncateSecond_def minus_mod_eq_div_mult Second_def)

end
