(* ===== verification/KubeTypes.thy ===== *)
theory KubeTypes
  imports GoTime
begin

text \<open>
  The Kubernetes data the controllers read and write, with the fields the code touches and the
  fields its comments promise never to touch. Object metadata is one record; the specs follow
  \<open>test/crds/tinkerbell.org_hardware.yaml\<close>, \<open>test/crds/bmc.tinkerbell.org_machines.yaml\<close> and the
  uses in \<open>internal/\<close>. A pointer field is an option, nil being \<^const>\<open>None\<close>; fields that are only
  carried along (iPXE settings, OS descriptions, references) are opaque strings. A deletion
  timestamp of \<^const>\<open>None\<close> is the zero time.
\<close>

record object_meta =
  om_Name :: string
  om_Namespace :: string
  om_Labels :: gomap
  om_Annotations :: gomap
  om_ResourceVersion :: string
  om_CreationTimestamp :: time
  om_DeletionTimestamp :: "time option"

definition new_meta :: "string \<Rightarrow> string \<Rightarrow> object_meta" where
  "new_meta name namespace = \<lparr>om_Name = name, om_Namespace = namespace, om_Labels = [],
     om_Annotations = [], om_ResourceVersion = [], om_CreationTimestamp = 0,
     om_DeletionTimestamp = None\<rparr>"

definition meta_key :: "object_meta \<Rightarrow> object_key" where
  "meta_key m = \<lparr>key_namespace = om_Namespace m, key_name = om_Name m\<rparr>"

section \<open>Tinkerbell Hardware\<close>

record netboot =
  AllowPXE :: "bool option"
  AllowWorkflow :: "bool option"
  NetbootOther :: string

record dhcp =
  MAC :: string
  DHCPHostname :: string
  DHCPAddress :: "string option"

record interface =
  Netboot :: "netboot option"
  DHCP :: "dhcp option"

record metadata_instance =
  InstanceID :: string
  InstanceHostname :: string
  OperatingSystem :: "string option"
  InstanceState :: string

record hardware_metadata =
  ManufacturerSlug :: "string option"
  FacilityCodeField :: "string option"
  Instance :: "metadata_instance option"

record bmc_ref =
  RefAPIGroup :: string
  RefKind :: string
  RefName :: string

record hardware_spec =
  AgentID :: string
  EnrollmentEnabled :: bool
  BMCRef :: "bmc_ref option"
  Metadata :: "hardware_metadata option"
  Interfaces :: "interface list"
  Disks :: "string list"
  UserData :: "string option"
  VendorData :: "string option"
  References :: gomap
  Resources :: gomap
  TinkVersion :: int

record hardware =
  hw_Meta :: object_meta
  hw_Spec :: hardware_spec

definition empty_hardware_spec :: hardware_spec where
  "empty_hardware_spec = \<lparr>AgentID = [], EnrollmentEnabled = False, BMCRef = None, Metadata = None,
     Interfaces = [], Disks = [], UserData = None, VendorData = None, References = [],
     Resources = [], TinkVersion = 0\<rparr>"

abbreviation hw_key :: "hardware \<Rightarrow> object_key" where
  "hw_key hw \<equiv> meta_key (hw_Meta hw)"

section \<open>Secrets and BMC Machines\<close>

record secret =
  sec_Meta :: object_meta
  sec_Data :: gomap

record bmc_machine_spec =
  ConnHost :: string
  ConnPort :: int
  AuthSecretRef :: object_key
  InsecureTLSField :: bool
  PreferredOrder :: "string list"
  RedfishPortField :: int
  UseBasicAuth :: bool

record bmc_machine =
  bm_Meta :: object_meta
  bm_Spec :: bmc_machine_spec

section \<open>What the API server promises about revisions\<close>

text \<open>
  The controllers rely on one documented property of the API server: a write that carries a
  resourceVersion is accepted only over the very revision that was read. The interface is stated
  for any kind of object. \<open>revs w\<close> are the revisions the server has ever stored, a revision being
  identified by key and resourceVersion; \<open>commits w\<close> are the guarded writes it has accepted, each
  with the revision it replaced. \<open>fetch\<close> and \<open>commit\<close> are the client calls; other clients may write
  at any time, so both may find new revisions.
\<close>

locale revision_store =
  fixes key :: "'o \<Rightarrow> object_key"
    and rv :: "'o \<Rightarrow> string"
    and revs :: "'w \<Rightarrow> 'o set"
    and commits :: "'w \<Rightarrow> ('o \<times> 'o) list"
    and fetch :: "object_key \<Rightarrow> 'w \<Rightarrow> (go_error + 'o) \<times> 'w"
    and commit :: "'o \<Rightarrow> 'w \<Rightarrow> go_error option \<times> 'w"
    and ok :: "'w \<Rightarrow> bool"
  assumes ok_unique: "ok w \<Longrightarrow> a \<in> revs w \<Longrightarrow> b \<in> revs w \<Longrightarrow> key a = key b \<Longrightarrow> rv a = rv b \<Longrightarrow> a = b"
    and read_ok: "ok w \<Longrightarrow> ok (snd (fetch k w))"
    and read_revs: "ok w \<Longrightarrow> revs w \<subseteq> revs (snd (fetch k w))"
    and read_commits: "ok w \<Longrightarrow> commits (snd (fetch k w)) = commits w"
    and read_seen: "ok w \<Longrightarrow> fst (fetch k w) = Inr a \<Longrightarrow> a \<in> revs (snd (fetch k w)) \<and> key a = k"
    and write_ok: "ok w \<Longrightarrow> ok (snd (commit a w))"
    and write_revs: "ok w \<Longrightarrow> revs w \<subseteq> revs (snd (commit a w))"
    and write_refused: "ok w \<Longrightarrow> fst (commit a w) = Some e \<Longrightarrow> commits (snd (commit a w)) = commits w"
    and write_commits: "ok w \<Longrightarrow> fst (commit a w) = None \<Longrightarrow>
      \<exists>old. old \<in> revs (snd (commit a w)) \<and> key old = key a \<and> rv old = rv a
        \<and> commits (snd (commit a w)) = commits w @ [(old, a)]"
begin

text \<open>The law the clients use: an accepted write replaced exactly the revision that was read.\<close>

lemma write_replaces_read:
  assumes "ok w" and "a \<in> revs w" and "key b = key a" and "rv b = rv a"
    and "fst (commit b w) = None"
  shows "commits (snd (commit b w)) = commits w @ [(a, b)]"
proof -
  from write_commits [OF assms(1,5)] obtain old where
    old: "old \<in> revs (snd (commit b w))" "key old = key b" "rv old = rv b"
      "commits (snd (commit b w)) = commits w @ [(old, b)]" by blast
  have "old = a"
    using ok_unique [OF write_ok [OF assms(1)] old(1)] write_revs [OF assms(1)] assms(2-4) old(2,3)
    by auto
  with old(4) show ?thesis by simp
qed

end

section \<open>A reference API server\<close>

text \<open>
  The contract has a model: an executable server for one kind of object, with per-object
  revision numbers and other writers. A pending foreign write is a function on the stored object
  (\<^const>\<open>None\<close> being absent), applied before the next guarded write of the client; the server
  stamps every stored object with a fresh resourceVersion.
\<close>

record 'o server =
  sv_objects :: "(object_key \<times> 'o) list"
  sv_next :: nat
  sv_history :: "'o list"
  sv_commits :: "('o \<times> 'o) list"
  sv_pending :: "(object_key \<times> ('o \<Rightarrow> 'o)) list"

definition sv_read :: "object_key \<Rightarrow> 'o server \<Rightarrow> (go_error + 'o) \<times> 'o server" where
  "sv_read k s = (case map_of (sv_objects s) k of None \<Rightarrow> Inl NotFound | Some a \<Rightarrow> Inr a, s)"

text \<open>Storing stamps the next revision; \<open>set_id\<close> writes key and resourceVersion into the object.\<close>

definition sv_store :: "(object_key \<Rightarrow> string \<Rightarrow> 'o \<Rightarrow> 'o) \<Rightarrow> object_key \<Rightarrow> 'o \<Rightarrow> 'o server \<Rightarrow> 'o server" where
  "sv_store set_id k a s = (let a' = set_id k (replicate (sv_next s) (CHR ''1'')) a
     in s\<lparr>sv_objects := AList.update k a' (sv_objects s), sv_next := Suc (sv_next s),
          sv_history := a' # sv_history s\<rparr>)"

fun sv_foreign :: "(object_key \<Rightarrow> string \<Rightarrow> 'o \<Rightarrow> 'o) \<Rightarrow> (object_key \<times> ('o \<Rightarrow> 'o)) list \<Rightarrow> 'o server \<Rightarrow> 'o server" where
  "sv_foreign set_id [] s = s"
| "sv_foreign set_id ((k, f) # ps) s = sv_foreign set_id ps
     (case map_of (sv_objects s) k of None \<Rightarrow> s | Some a \<Rightarrow> sv_store set_id k (f a) s)"

definition sv_write ::
    "('o \<Rightarrow> object_key) \<Rightarrow> ('o \<Rightarrow> string) \<Rightarrow> (object_key \<Rightarrow> string \<Rightarrow> 'o \<Rightarrow> 'o) \<Rightarrow>
     'o \<Rightarrow> 'o server \<Rightarrow> go_error option \<times> 'o server" where
  "sv_write key rv set_id a s0 =
     (let s = (sv_foreign set_id (sv_pending s0) s0)\<lparr>sv_pending := []\<rparr>
      in case map_of (sv_objects s) (key a) of
           None \<Rightarrow> (Some NotFound, s)
         | Some old \<Rightarrow> if rv old \<noteq> rv a then (Some Conflict, s)
             else (None, (sv_store set_id (key a) a s)\<lparr>sv_commits := sv_commits s @ [(old, a)]\<rparr>))"

definition sv_ok :: "('o \<Rightarrow> object_key) \<Rightarrow> ('o \<Rightarrow> string) \<Rightarrow> 'o server \<Rightarrow> bool" where
  "sv_ok key rv s \<longleftrightarrow>
     (\<forall>k a. map_of (sv_objects s) k = Some a \<longrightarrow> a \<in> set (sv_history s) \<and> key a = k)
     \<and> (\<forall>a \<in> set (sv_history s). length (rv a) < sv_next s)
     \<and> distinct (map (\<lambda>a. rv a) (sv_history s))"

lemma sv_ok_frame [simp]:
  "sv_ok key rv (s\<lparr>sv_pending := ps\<rparr>) \<longleftrightarrow> sv_ok key rv s"
  "sv_ok key rv (s\<lparr>sv_commits := cs\<rparr>) \<longleftrightarrow> sv_ok key rv s"
  by (simp_all add: sv_ok_def)

locale object_id =
  fixes key :: "'o \<Rightarrow> object_key" and rv :: "'o \<Rightarrow> string"
    and set_id :: "object_key \<Rightarrow> string \<Rightarrow> 'o \<Rightarrow> 'o"
  assumes key_set: "key (set_id k v a) = k" and rv_set: "rv (set_id k v a) = v"
begin

lemma store_ok:
  assumes "sv_ok key rv s"
  shows "sv_ok key rv (sv_store set_id k a s)"
proof -
  have "rv a \<noteq> replicate (sv_next s) (CHR ''1'')" if "a \<in> set (sv_history s)" for a
  proof -
    have "length (rv a) < sv_next s" using assms that by (simp add: sv_ok_def)
    then show ?thesis by auto
  qed
  then have "replicate (sv_next s) (CHR ''1'') \<notin> rv ` set (sv_history s)" by (metis imageE)
  with assms show ?thesis
    by (auto simp: sv_ok_def sv_store_def Let_def key_set rv_set update_conv' less_Suc_eq)
qed

lemma store_history: "set (sv_history s) \<subseteq> set (sv_history (sv_store set_id k a s))"
  by (auto simp: sv_store_def Let_def)

lemma store_commits: "sv_commits (sv_store set_id k a s) = sv_commits s"
  by (simp add: sv_store_def Let_def)

lemma foreign_keeps:
  "sv_ok key rv s \<Longrightarrow> sv_ok key rv (sv_foreign set_id ps s)
     \<and> set (sv_history s) \<subseteq> set (sv_history (sv_foreign set_id ps s))
     \<and> sv_commits (sv_foreign set_id ps s) = sv_commits s"
proof (induction ps arbitrary: s)
  case Nil
  then show ?case by simp
next
  case (Cons p ps)
  obtain k f where p: "p = (k, f)" by fastforce
  show ?case
  proof (cases "map_of (sv_objects s) k")
    case None
    with Cons p show ?thesis by simp
  next
    case (Some a)
    from Cons.IH [OF store_ok [OF Cons.prems, of k "f a"]] p Some store_history [of s k "f a"]
    show ?thesis by (auto simp: store_commits)
  qed
qed

end

sublocale object_id \<subseteq> revision_store key rv "\<lambda>s. set (sv_history s)" sv_commits sv_read
  "sv_write key rv set_id" "sv_ok key rv"
proof (unfold_locales, goal_cases)
  case (1 w a b)
  then show ?case by (auto simp: sv_ok_def distinct_map inj_on_def)
next
  case (2 w k)
  then show ?case by (simp add: sv_read_def)
next
  case (3 w k)
  then show ?case by (simp add: sv_read_def)
next
  case (4 w k)
  then show ?case by (simp add: sv_read_def)
next
  case (5 w k a)
  then show ?case by (auto simp: sv_read_def sv_ok_def split: option.splits)
next
  case (6 w a)
  from foreign_keeps [OF 6, of "sv_pending w"]
  have ok: "sv_ok key rv ((sv_foreign set_id (sv_pending w) w)\<lparr>sv_pending := []\<rparr>)" by simp
  from store_ok [OF this, of "key a" a] ok show ?case
    by (simp add: sv_write_def Let_def split: option.split)
next
  case (7 w a)
  from foreign_keeps [OF 7, of "sv_pending w"] show ?case
    by (auto simp: sv_write_def Let_def sv_store_def split: option.splits)
next
  case (8 w a e)
  from foreign_keeps [OF 8(1), of "sv_pending w"] 8(2) show ?case
    by (auto simp: sv_write_def Let_def split: option.splits if_splits)
next
  case (9 w a)
  let ?s = "sv_foreign set_id (sv_pending w) w"
  from foreign_keeps [OF 9(1), of "sv_pending w"]
  have ok: "sv_ok key rv ?s" and c: "sv_commits ?s = sv_commits w" by simp_all
  from 9(2) obtain old where old: "map_of (sv_objects ?s) (key a) = Some old" "rv old = rv a"
    by (auto simp: sv_write_def Let_def split: option.splits if_splits)
  from ok old(1) have "old \<in> set (sv_history ?s)" "key old = key a" by (auto simp: sv_ok_def)
  with old c show ?case by (auto simp: sv_write_def Let_def sv_store_def)
qed

definition hw_set_id :: "object_key \<Rightarrow> string \<Rightarrow> hardware \<Rightarrow> hardware" where
  "hw_set_id k v hw = hw\<lparr>hw_Meta := (hw_Meta hw)\<lparr>om_Name := key_name k,
     om_Namespace := key_namespace k, om_ResourceVersion := v\<rparr>\<rparr>"

definition hw_rv :: "hardware \<Rightarrow> string" where
  "hw_rv hw = om_ResourceVersion (hw_Meta hw)"

definition hw_object_key :: "hardware \<Rightarrow> object_key" where
  "hw_object_key hw = meta_key (hw_Meta hw)"

interpretation hw_store: object_id hw_object_key hw_rv hw_set_id
  by unfold_locales (simp_all add: hw_object_key_def hw_rv_def hw_set_id_def meta_key_def)

end
