(* ===== verification/Mapping_Resources.thy ===== *)
theory Mapping_Resources
  imports Naming KubeTypes
begin

text \<open>
  \<open>internal/sync/mapping.go\<close>: the sparse resources discovery writes for one BMC. A field left empty
  here is a field discovery does not own.
\<close>

definition ManagedByLabel :: string where "ManagedByLabel = ''discovery.tinkerbell.org/managed-by''"
definition ManagedByValue :: string where "ManagedByValue = ''tinkerbell-bmc-discovery-controller''"
definition FieldManager :: string where "FieldManager = ManagedByValue"
definition LastSeenAnnotation :: string where "LastSeenAnnotation = ''discovery.tinkerbell.org/last-seen''"
definition InstanceAnnotation :: string where "InstanceAnnotation = ''discovery.tinkerbell.org/mdns-instance''"
definition ServiceAnnotation :: string where "ServiceAnnotation = ''discovery.tinkerbell.org/mdns-service''"

definition DesiredAuthSecret :: "string \<Rightarrow> string \<Rightarrow> credentials \<Rightarrow> secret" where
  "DesiredAuthSecret name namespace creds = \<lparr>sec_Meta = new_meta name namespace,
     sec_Data = [(''username'', Username creds), (''password'', Password creds)]\<rparr>"

definition DesiredMachine :: "endpoint \<Rightarrow> string \<Rightarrow> string \<Rightarrow> bool \<Rightarrow> object_key \<Rightarrow> bmc_machine" where
  "DesiredMachine ep name namespace insecureTLS authRef = \<lparr>bm_Meta = new_meta name namespace,
     bm_Spec = \<lparr>ConnHost = AddrString (EpIP ep), ConnPort = EpPort ep, AuthSecretRef = authRef,
       InsecureTLSField = insecureTLS, PreferredOrder = [''gofish''], RedfishPortField = EpPort ep,
       UseBasicAuth = True\<rparr>\<rparr>"

record hardware_options =
  OptName :: string
  OptNamespace :: string
  OptFacilityCode :: string
  OptAutoEnrollment :: bool

definition netbootFor :: "hardware option \<Rightarrow> netboot" where
  "netbootFor live = (case live of
     Some hw \<Rightarrow> (case Interfaces (hw_Spec hw) of
       i # _ \<Rightarrow> (case Netboot i of
         Some n \<Rightarrow> n
       | None \<Rightarrow> \<lparr>AllowPXE = Some True, AllowWorkflow = Some True, NetbootOther = []\<rparr>)
     | [] \<Rightarrow> \<lparr>AllowPXE = Some True, AllowWorkflow = Some True, NetbootOther = []\<rparr>)
   | None \<Rightarrow> \<lparr>AllowPXE = Some True, AllowWorkflow = Some True, NetbootOther = []\<rparr>)"

fun disks_of :: "string option list \<Rightarrow> string list" where
  "disks_of [] = []"
| "disks_of (None # drives) = disks_of drives"
| "disks_of (Some logicalName # drives) =
     (if logicalName \<noteq> [] then logicalName # disks_of drives else disks_of drives)"

definition DesiredHardware :: "device \<Rightarrow> hardware_options \<Rightarrow> hardware option \<Rightarrow> hardware" where
  "DesiredHardware dev opts live =
     (let instanceID = (if PrimaryMAC dev = [] then Serial dev else PrimaryMAC dev);
          mac = PrimaryMAC dev
      in \<lparr>hw_Meta = new_meta (OptName opts) (OptNamespace opts),
          hw_Spec = empty_hardware_spec\<lparr>
            AgentID := PrimaryMAC dev,
            EnrollmentEnabled := OptAutoEnrollment opts,
            BMCRef := Some \<lparr>RefAPIGroup = ''bmc.tinkerbell.org/v1alpha1'', RefKind = ''Machine'', RefName = OptName opts\<rparr>,
            Metadata := Some \<lparr>ManufacturerSlug = Some (SanitizeName (Vendor dev)),
              FacilityCodeField = (if OptFacilityCode opts \<noteq> [] then Some (OptFacilityCode opts) else None),
              Instance = Some \<lparr>InstanceID = instanceID, InstanceHostname = OptName opts,
                OperatingSystem = None, InstanceState = []\<rparr>\<rparr>,
            Interfaces := (if mac \<noteq> [] then [\<lparr>Netboot = Some (netbootFor live),
              DHCP = Some \<lparr>MAC = mac, DHCPHostname = OptName opts, DHCPAddress = None\<rparr>\<rparr>] else []),
            Disks := disks_of (Drives dev)\<rparr>\<rparr>)"

text \<open>The fields other controllers own are never set: CAPT's userData, the OS metadata of the
  in-cluster metadata writer and the janitor, and the fields no discovery data fills.\<close>

definition sparse :: "hardware \<Rightarrow> bool" where
  "sparse hw \<longleftrightarrow> UserData (hw_Spec hw) = None \<and> VendorData (hw_Spec hw) = None \<and> References (hw_Spec hw) = []
     \<and> Resources (hw_Spec hw) = [] \<and> TinkVersion (hw_Spec hw) = 0
     \<and> (\<forall>md i. Metadata (hw_Spec hw) = Some md \<longrightarrow> Instance md = Some i \<longrightarrow>
          OperatingSystem i = None \<and> InstanceState i = [])"

lemma DesiredHardware_sparse: "sparse (DesiredHardware dev opts live)"
  by (simp add: sparse_def DesiredHardware_def empty_hardware_spec_def Let_def)

lemma netbootFor_live:
  "Interfaces (hw_Spec hw) = i # is \<Longrightarrow> Netboot i = Some n \<Longrightarrow> netbootFor (Some hw) = n"
  by (simp add: netbootFor_def)

end
