(* ===== verification/Syncer.thy ===== *)
theory Syncer
  imports Mapping_Resources
begin

text \<open>
  \<open>internal/sync/syncer.go\<close>: creating and applying the resources of one BMC. \<open>client.Object\<close>, the
  interface, is the sum of the three kinds the syncer writes. Outside are the API client (Get,
  Create, server-side Apply; a write names its field manager, an apply whether it forces ownership),
  the converter to unstructured content, which can only fail or succeed, and the clock. \<open>discovery_call\<close> is the trace of the syncer and of the worker that drives it.
\<close>

datatype client_object = SecretObject secret | MachineObject bmc_machine | HardwareObject hardware

datatype object_kind = SecretKind | MachineKind | HardwareKind

fun kind_of :: "client_object \<Rightarrow> object_kind" where
  "kind_of (SecretObject _) = SecretKind"
| "kind_of (MachineObject _) = MachineKind"
| "kind_of (HardwareObject _) = HardwareKind"

text \<open>Kinds in the order of the references: a machine names its secret, a hardware its machine.\<close>

instantiation object_kind :: linorder
begin

fun rank_object_kind :: "object_kind \<Rightarrow> nat" where
  "rank_object_kind SecretKind = 0"
| "rank_object_kind MachineKind = 1"
| "rank_object_kind HardwareKind = 2"

definition less_eq_object_kind :: "object_kind \<Rightarrow> object_kind \<Rightarrow> bool" where
  "less_eq_object_kind k l \<longleftrightarrow> rank_object_kind k \<le> rank_object_kind l"

definition less_object_kind :: "object_kind \<Rightarrow> object_kind \<Rightarrow> bool" where
  "less_object_kind k l \<longleftrightarrow> rank_object_kind k < rank_object_kind l"

instance
proof
  fix k l :: object_kind
  show "k = l" if "k \<le> l" "l \<le> k"
    using that by (cases k; cases l) (simp_all add: less_eq_object_kind_def)
qed (auto simp: less_eq_object_kind_def less_object_kind_def)

end

fun get_meta :: "client_object \<Rightarrow> object_meta" where
  "get_meta (SecretObject s) = sec_Meta s"
| "get_meta (MachineObject m) = bm_Meta m"
| "get_meta (HardwareObject h) = hw_Meta h"

fun set_meta :: "object_meta \<Rightarrow> client_object \<Rightarrow> client_object" where
  "set_meta meta (SecretObject s) = SecretObject (s\<lparr>sec_Meta := meta\<rparr>)"
| "set_meta meta (MachineObject m) = MachineObject (m\<lparr>bm_Meta := meta\<rparr>)"
| "set_meta meta (HardwareObject h) = HardwareObject (h\<lparr>hw_Meta := meta\<rparr>)"

definition key_of :: "client_object \<Rightarrow> object_key" where
  "key_of obj = meta_key (get_meta obj)"

lemma set_meta_laws [simp]:
  "get_meta (set_meta meta obj) = meta" "kind_of (set_meta meta obj) = kind_of obj"
  "set_meta meta (set_meta meta' obj) = set_meta meta obj" "set_meta (get_meta obj) obj = obj"
  by (cases obj, simp_all)+

record 'w sync_env =
  se_Get :: "object_kind \<Rightarrow> object_key \<Rightarrow> 'w \<Rightarrow> (go_error + client_object) \<times> 'w"
  se_Create :: "string \<Rightarrow> client_object \<Rightarrow> 'w \<Rightarrow> go_error option \<times> 'w"
  se_Convert :: "client_object \<Rightarrow> go_error option"
  se_Apply :: "string \<Rightarrow> bool \<Rightarrow> client_object \<Rightarrow> 'w \<Rightarrow> go_error option \<times> 'w"
  se_Now :: "'w \<Rightarrow> time \<times> 'w"
  se_GetCredentials :: "object_key \<Rightarrow> 'w \<Rightarrow> (go_error + secret) \<times> 'w"
  se_Collect :: "endpoint \<Rightarrow> credentials \<Rightarrow> 'w \<Rightarrow> (go_error + device option) \<times> 'w"

datatype discovery_call =
    DNow time
  | DGet object_kind object_key "go_error + client_object"
  | DCreate client_object "go_error option"
  | DApply client_object "go_error option"
  | DGetCredentials object_key "go_error + secret"
  | DCollect endpoint credentials "go_error + device option"

type_synonym ('w, 'r) dprog = "('w, discovery_call, 'r) prog"

record syncer =
  Namespace :: string
  InsecureTLS :: bool
  NameTemplate :: string
  FacilityCode :: string
  AutoEnrollment :: bool

section \<open>Applying one object\<close>

definition ownership_meta :: "time \<Rightarrow> endpoint \<Rightarrow> object_meta \<Rightarrow> object_meta" where
  "ownership_meta now ep meta = meta\<lparr>
     om_Labels := mput ManagedByLabel ManagedByValue (om_Labels meta),
     om_Annotations := mput ServiceAnnotation (EpService ep) (mput InstanceAnnotation (EpInstance ep)
       (mput LastSeenAnnotation (FormatRFC3339 now) (om_Annotations meta)))\<rparr>"

definition stampOwnership :: "'w sync_env \<Rightarrow> endpoint \<Rightarrow> client_object \<Rightarrow> ('w, client_object) dprog" where
  "stampOwnership env ep obj = do {
     now \<leftarrow> extcall DNow (se_Now env);
     State_Monad.return (set_meta (ownership_meta now ep (get_meta obj)) obj)
   }"

text \<open>The payload: the typed object without status and creation timestamp.\<close>

definition applyConfigurationFor :: "'w sync_env \<Rightarrow> client_object \<Rightarrow> go_error + client_object" where
  "applyConfigurationFor env desired = (case se_Convert env desired of
     Some err \<Rightarrow> Inl (Wrap ''converting to apply configuration'' err)
   | None \<Rightarrow> Inr (set_meta ((get_meta desired)\<lparr>om_CreationTimestamp := 0\<rparr>) desired))"

definition with_resource_version :: "string \<Rightarrow> client_object \<Rightarrow> client_object" where
  "with_resource_version v obj = set_meta ((get_meta obj)\<lparr>om_ResourceVersion := v\<rparr>) obj"

definition applyManaged ::
    "'w sync_env \<Rightarrow> endpoint \<Rightarrow> client_object \<Rightarrow> (client_object \<Rightarrow> client_object \<Rightarrow> client_object) option
       \<Rightarrow> ('w, go_error option) dprog" where
  "applyManaged env ep desired carry = do {
     desired \<leftarrow> stampOwnership env ep desired;
     r \<leftarrow> extcall (DGet (kind_of desired) (key_of desired)) (se_Get env (kind_of desired) (key_of desired));
     case r of
       Inl err \<Rightarrow>
         if IsNotFound err then do {
           e \<leftarrow> extcall (DCreate desired) (se_Create env FieldManager desired);
           State_Monad.return e
         } else State_Monad.return (Some err)
     | Inr live \<Rightarrow>
         if mget (om_Labels (get_meta live)) ManagedByLabel \<noteq> ManagedByValue then State_Monad.return None
         else let desired = (case carry of None \<Rightarrow> desired | Some f \<Rightarrow> f live desired);
                  desired = with_resource_version (om_ResourceVersion (get_meta live)) desired
         in (case applyConfigurationFor env desired of
           Inl err \<Rightarrow> State_Monad.return (Some err)
         | Inr payload \<Rightarrow> do {
             e \<leftarrow> extcall (DApply payload) (se_Apply env FieldManager True payload);
             State_Monad.return e
           })
   }"

text \<open>The hardware's carry closure.\<close>

fun carry_netboot :: "client_object \<Rightarrow> client_object \<Rightarrow> client_object" where
  "carry_netboot (HardwareObject live) (HardwareObject hw) =
     (case Interfaces (hw_Spec hw) of
        [] \<Rightarrow> HardwareObject hw
      | i # rest \<Rightarrow> HardwareObject (hw\<lparr>hw_Spec := (hw_Spec hw)\<lparr>Interfaces := i\<lparr>Netboot := Some (netbootFor (Some live))\<rparr> # rest\<rparr>\<rparr>))"
| "carry_netboot _ desired = desired"

section \<open>Syncing a BMC\<close>

definition resource_name :: "syncer \<Rightarrow> endpoint \<Rightarrow> device \<Rightarrow> string" where
  "resource_name s ep dev =
     (let name = TemplateName (NameTemplate s) ep dev in if name = [] then ResourceName ep else name)"

definition desired_objects :: "syncer \<Rightarrow> endpoint \<Rightarrow> device \<Rightarrow> credentials \<Rightarrow> secret \<times> bmc_machine \<times> hardware" where
  "desired_objects s ep dev creds =
     (let name = resource_name s ep dev; authName = name @ ''-bmc-auth''
      in (DesiredAuthSecret authName (Namespace s) creds,
          DesiredMachine ep name (Namespace s) (InsecureTLS s) \<lparr>key_namespace = Namespace s, key_name = authName\<rparr>,
          DesiredHardware dev \<lparr>OptName = name, OptNamespace = Namespace s, OptFacilityCode = FacilityCode s,
            OptAutoEnrollment = AutoEnrollment s\<rparr> None))"

definition Sync :: "'w sync_env \<Rightarrow> syncer \<Rightarrow> endpoint \<Rightarrow> device option \<Rightarrow> credentials \<Rightarrow> ('w, go_error option) dprog" where
  "Sync env s ep dev creds = (case dev of
     None \<Rightarrow> State_Monad.return (Some (OtherError ''refusing to sync without verified inventory''))
   | Some d \<Rightarrow> (case desired_objects s ep d creds of (secret, machine, hardware) \<Rightarrow> do {
       e \<leftarrow> applyManaged env ep (SecretObject secret) None;
       case e of
         Some err \<Rightarrow> State_Monad.return (Some (Wrap ''syncing auth secret'' err))
       | None \<Rightarrow> do {
           e \<leftarrow> applyManaged env ep (MachineObject machine) None;
           case e of
             Some err \<Rightarrow> State_Monad.return (Some (Wrap ''syncing machine'' err))
           | None \<Rightarrow> do {
               e \<leftarrow> applyManaged env ep (HardwareObject hardware) (Some carry_netboot);
               State_Monad.return (case e of Some err \<Rightarrow> Some (Wrap ''syncing hardware'' err) | None \<Rightarrow> None)
             }
         }
     }))"

end
