(* ===== verification/SyncerProperties.thy ===== *)
theory SyncerProperties
  imports Syncer
begin

text \<open>
  Properties of the syncer: what one sync may write, given what it has read, and in which order.
\<close>

section \<open>The protocol of a sync\<close>

definition sparse_object :: "client_object \<Rightarrow> bool" where
  "sparse_object obj \<longleftrightarrow> (\<forall>h. obj = HardwareObject h \<longrightarrow> sparse h \<and> length (Interfaces (hw_Spec h)) \<le> 1)"

definition owned_object :: "client_object \<Rightarrow> bool" where
  "owned_object obj \<longleftrightarrow> mget (om_Labels (get_meta obj)) ManagedByLabel = ManagedByValue"

text \<open>The netboot state another controller last set on the primary interface is carried verbatim.\<close>

definition netboot_kept :: "client_object \<Rightarrow> client_object \<Rightarrow> bool" where
  "netboot_kept live obj \<longleftrightarrow> (\<forall>l h i is n. live = HardwareObject l \<longrightarrow> obj = HardwareObject h \<longrightarrow>
     Interfaces (hw_Spec l) = i # is \<longrightarrow> Netboot i = Some n \<longrightarrow> (\<forall>j \<in> set (Interfaces (hw_Spec h)). Netboot j = Some n))"

text \<open>An object is settled once it has been created or applied, or was seen to belong to someone else.\<close>

definition settled :: "discovery_call list \<Rightarrow> object_kind \<Rightarrow> object_key \<Rightarrow> bool" where
  "settled us kind key \<longleftrightarrow> (\<exists>obj. kind_of obj = kind \<and> key_of obj = key
       \<and> (DCreate obj None \<in> set us \<or> DApply obj None \<in> set us))
     \<or> (\<exists>live. DGet kind key (Inr live) \<in> set us \<and> \<not> owned_object live)"

text \<open>The secret is settled before the machine that refers to it is written, both before the hardware.\<close>

definition referents_settled :: "object_key \<Rightarrow> object_key \<Rightarrow> discovery_call list \<Rightarrow> object_kind \<Rightarrow> bool" where
  "referents_settled sk mk us kind \<longleftrightarrow> (kind \<noteq> SecretKind \<longrightarrow> settled us SecretKind sk)
     \<and> (kind = HardwareKind \<longrightarrow> settled us MachineKind mk)"

fun sync_permitted :: "object_key \<Rightarrow> object_key \<Rightarrow> discovery_call list \<Rightarrow> discovery_call \<Rightarrow> bool" where
  "sync_permitted sk mk us (DCreate obj _) = (sparse_object obj \<and> owned_object obj
     \<and> referents_settled sk mk us (kind_of obj)
     \<and> (\<exists>err. DGet (kind_of obj) (key_of obj) (Inl err) \<in> set us \<and> IsNotFound err))"
| "sync_permitted sk mk us (DApply obj _) = (sparse_object obj \<and> owned_object obj
     \<and> referents_settled sk mk us (kind_of obj)
     \<and> (\<exists>live. DGet (kind_of obj) (key_of obj) (Inr live) \<in> set us \<and> owned_object live
          \<and> om_ResourceVersion (get_meta obj) = om_ResourceVersion (get_meta live) \<and> netboot_kept live obj))"
| "sync_permitted sk mk us (DGetCredentials _ _) = False"
| "sync_permitted sk mk us (DCollect _ _ _) = False"
| "sync_permitted sk mk us _ = True"

lemma settled_mono: "settled us kind key \<Longrightarrow> set us \<subseteq> set vs \<Longrightarrow> settled vs kind key"
  unfolding settled_def by blast

lemma referents_settled_mono:
  "referents_settled sk mk us kind \<Longrightarrow> set us \<subseteq> set vs \<Longrightarrow> referents_settled sk mk vs kind"
  unfolding referents_settled_def using settled_mono by blast

text \<open>What a carry closure may do: keep kind and metadata, keep the object sparse, carry the netboot.\<close>

definition carry_ok :: "client_object \<Rightarrow> (client_object \<Rightarrow> client_object \<Rightarrow> client_object) option \<Rightarrow> bool" where
  "carry_ok desired carry \<longleftrightarrow> (case carry of
     None \<Rightarrow> (\<forall>h. desired \<noteq> HardwareObject h)
   | Some f \<Rightarrow> f = carry_netboot)"

lemma carry_netboot_meta: "get_meta (carry_netboot live obj) = get_meta obj \<and> kind_of (carry_netboot live obj) = kind_of obj"
  by (induction live obj rule: carry_netboot.induct) (auto split: list.splits)

lemma carry_netboot_sparse: "sparse_object obj \<Longrightarrow> sparse_object (carry_netboot live obj)"
  by (induction live obj rule: carry_netboot.induct) (auto simp: sparse_object_def sparse_def split: list.splits)

lemma carry_netboot_kept: "sparse_object obj \<Longrightarrow> netboot_kept live (carry_netboot live obj)"
  by (induction live obj rule: carry_netboot.induct)
    (auto simp: netboot_kept_def sparse_object_def netbootFor_live split: list.splits)

lemma meta_only:
  "sparse_object (set_meta meta obj) = sparse_object obj" "netboot_kept live (set_meta meta obj) = netboot_kept live obj"
  by (cases obj; auto simp: sparse_object_def sparse_def netboot_kept_def)+

lemma owned_stamped: "owned_object (set_meta (ownership_meta now ep meta) obj)"
  by (simp add: owned_object_def ownership_meta_def)

lemma key_stamped: "key_of (set_meta (ownership_meta now ep (get_meta obj)) obj) = key_of obj"
  by (simp add: key_of_def ownership_meta_def meta_key_def)

text \<open>What is applied, from what is live.\<close>

definition applied :: "client_object \<Rightarrow> client_object \<Rightarrow> (client_object \<Rightarrow> client_object \<Rightarrow> client_object) option \<Rightarrow> client_object" where
  "applied live desired carry = with_resource_version (om_ResourceVersion (get_meta live))
     (case carry of None \<Rightarrow> desired | Some f \<Rightarrow> f live desired)"

lemma applied_facts:
  assumes "sparse_object desired" and "owned_object desired" and "carry_ok desired carry"
  shows "sparse_object (applied live desired carry) \<and> owned_object (applied live desired carry)
    \<and> kind_of (applied live desired carry) = kind_of desired \<and> key_of (applied live desired carry) = key_of desired
    \<and> om_ResourceVersion (get_meta (applied live desired carry)) = om_ResourceVersion (get_meta live)
    \<and> netboot_kept live (applied live desired carry)"
proof (cases carry)
  case None
  with assms have "\<forall>h. desired \<noteq> HardwareObject h" by (simp add: carry_ok_def)
  then have "netboot_kept live desired" by (auto simp: netboot_kept_def)
  with None assms show ?thesis
    by (simp add: applied_def with_resource_version_def meta_only owned_object_def key_of_def meta_key_def)
next
  case (Some f)
  with assms(3) have f: "f = carry_netboot" by (simp add: carry_ok_def)
  note c = carry_netboot_meta [of live desired] carry_netboot_sparse [OF assms(1), of live] carry_netboot_kept [OF assms(1), of live]
  show ?thesis
    using c assms(2) unfolding Some f applied_def option.case with_resource_version_def
    by (simp add: meta_only owned_object_def key_of_def meta_key_def)
qed

lemma payload_facts:
  assumes "applyConfigurationFor env obj = Inr payload"
  shows "sparse_object payload = sparse_object obj \<and> owned_object payload = owned_object obj
    \<and> kind_of payload = kind_of obj \<and> key_of payload = key_of obj
    \<and> om_ResourceVersion (get_meta payload) = om_ResourceVersion (get_meta obj)
    \<and> netboot_kept live payload = netboot_kept live obj"
proof -
  from assms have "payload = set_meta ((get_meta obj)\<lparr>om_CreationTimestamp := 0\<rparr>) obj"
    by (simp add: applyConfigurationFor_def split: option.splits)
  then show ?thesis by (simp add: meta_only owned_object_def key_of_def meta_key_def)
qed

text \<open>One object, given what is stamped on it.\<close>

definition apply_stamped ::
    "'w sync_env \<Rightarrow> client_object \<Rightarrow> (client_object \<Rightarrow> client_object \<Rightarrow> client_object) option \<Rightarrow> ('w, go_error option) dprog" where
  "apply_stamped env d carry = do {
     r \<leftarrow> extcall (DGet (kind_of d) (key_of d)) (se_Get env (kind_of d) (key_of d));
     case r of
       Inl err \<Rightarrow> if IsNotFound err then do { e \<leftarrow> extcall (DCreate d) (se_Create env FieldManager d); State_Monad.return e }
         else State_Monad.return (Some err)
     | Inr live \<Rightarrow> if mget (om_Labels (get_meta live)) ManagedByLabel \<noteq> ManagedByValue then State_Monad.return None
         else (case applyConfigurationFor env (applied live d carry) of
           Inl err \<Rightarrow> State_Monad.return (Some err)
         | Inr payload \<Rightarrow> do { e \<leftarrow> extcall (DApply payload) (se_Apply env FieldManager True payload); State_Monad.return e })
   }"

lemma applyManaged_stamped:
  "applyManaged env ep desired carry = do {
     now \<leftarrow> extcall DNow (se_Now env);
     apply_stamped env (set_meta (ownership_meta now ep (get_meta desired)) desired) carry
   }"
  unfolding applyManaged_def stampOwnership_def apply_stamped_def Let_def applied_def
  by (simp only: State_Monad.bind_assoc State_Monad.bind_left_identity)

lemma apply_stamped_follows:
  assumes d: "sparse_object d" "owned_object d" "carry_ok d carry" and pre: "referents_settled sk mk us (kind_of d)"
  shows "follows (sync_permitted sk mk) us (apply_stamped env d carry)
    (\<lambda>r vs. set us \<subseteq> set vs \<and> (r = None \<longrightarrow> settled vs (kind_of d) (key_of d)))"
  unfolding apply_stamped_def
proof (rule follows_bind_extcall)
  show "sync_permitted sk mk us (DGet (kind_of d) (key_of d) r)" for r by simp
  fix r
  let ?us = "us @ [DGet (kind_of d) (key_of d) r]"
  have pre': "referents_settled sk mk ?us (kind_of d)" by (rule referents_settled_mono [OF pre]) auto
  have create: "sync_permitted sk mk ?us (DCreate d e)" if "r = Inl err" "IsNotFound err" for err e
    using that d pre' by auto
  have apply_ok: "kind_of payload = kind_of d \<and> key_of payload = key_of d \<and> sync_permitted sk mk ?us (DApply payload e)"
    if "r = Inr live" "owned_object live" "applyConfigurationFor env (applied live d carry) = Inr payload" for live payload e
    using applied_facts [OF d, of live] payload_facts [OF that(3), of live] that(1,2) pre' by auto
  have foreign: "settled ?us (kind_of d) (key_of d)" if "r = Inr live" "\<not> owned_object live" for live
    using that unfolding settled_def by auto
  have wrote: "settled (?us @ [DCreate d None]) (kind_of d) (key_of d)" unfolding settled_def by auto
  have wrote': "settled (?us @ [DApply payload None]) (kind_of d) (key_of d)"
    if "kind_of payload = kind_of d \<and> key_of payload = key_of d" for payload
    using that unfolding settled_def by auto
  let ?Q = "\<lambda>r vs. set us \<subseteq> set vs \<and> (r = None \<longrightarrow> settled vs (kind_of d) (key_of d))"
  have writing: "follows (sync_permitted sk mk) ?us (do { e \<leftarrow> extcall act f; State_Monad.return e }) ?Q"
    if "\<And>e. sync_permitted sk mk ?us (act e)" "settled (?us @ [act None]) (kind_of d) (key_of d)" for act f
    by (intro follows_bind_extcall follows_return that(1)) (use that(2) in auto)
  show "follows (sync_permitted sk mk) ?us (case r of
       Inl err \<Rightarrow> if IsNotFound err then do { e \<leftarrow> extcall (DCreate d) (se_Create env FieldManager d); State_Monad.return e }
         else State_Monad.return (Some err)
     | Inr live \<Rightarrow> if mget (om_Labels (get_meta live)) ManagedByLabel \<noteq> ManagedByValue then State_Monad.return None
         else (case applyConfigurationFor env (applied live d carry) of
           Inl err \<Rightarrow> State_Monad.return (Some err)
         | Inr payload \<Rightarrow> do { e \<leftarrow> extcall (DApply payload) (se_Apply env FieldManager True payload); State_Monad.return e })) ?Q"
  proof (intro follows_branch)
    show "follows (sync_permitted sk mk) ?us (do { e \<leftarrow> extcall (DCreate d) (se_Create env FieldManager d); State_Monad.return e }) ?Q"
      if "r = Inl err" "IsNotFound err" for err
      using create [OF that] wrote by (intro writing)
    show "follows (sync_permitted sk mk) ?us (State_Monad.return (Some err)) ?Q" for err
      by (rule follows_return) auto
    show "follows (sync_permitted sk mk) ?us (State_Monad.return (Some err)) ?Q" for err
      by (rule follows_return) auto
    show "follows (sync_permitted sk mk) ?us (State_Monad.return None) ?Q"
      if "r = Inr live" "mget (om_Labels (get_meta live)) ManagedByLabel \<noteq> ManagedByValue" for live
      by (rule follows_return) (use foreign [OF that(1)] that(2) in \<open>auto simp: owned_object_def\<close>)
    show "follows (sync_permitted sk mk) ?us (do { e \<leftarrow> extcall (DApply payload) (se_Apply env FieldManager True payload); State_Monad.return e }) ?Q"
      if r: "r = Inr live" and o: "\<not> mget (om_Labels (get_meta live)) ManagedByLabel \<noteq> ManagedByValue"
        and p: "applyConfigurationFor env (applied live d carry) = Inr payload" for live payload
    proof -
      have "owned_object live" using o by (simp add: owned_object_def)
      note a = apply_ok [OF r this p]
      show ?thesis using a wrote' by (intro writing) blast+
    qed
  qed
qed

lemma applyManaged_follows:
  assumes "sparse_object desired" and "carry_ok desired carry" and "referents_settled sk mk us (kind_of desired)"
  shows "follows (sync_permitted sk mk) us (applyManaged env ep desired carry)
    (\<lambda>r vs. set us \<subseteq> set vs \<and> (r = None \<longrightarrow> settled vs (kind_of desired) (key_of desired)))"
  unfolding applyManaged_stamped
proof (rule follows_bind_extcall)
  show "sync_permitted sk mk us (DNow r)" for r by simp
  fix now
  let ?d = "set_meta (ownership_meta now ep (get_meta desired)) desired"
  have "carry_ok ?d carry"
    using assms(2) by (cases carry; cases desired) (auto simp: carry_ok_def)
  moreover have "referents_settled sk mk (us @ [DNow now]) (kind_of ?d)"
    using assms(3) by (auto elim: referents_settled_mono)
  ultimately show "follows (sync_permitted sk mk) (us @ [DNow now]) (apply_stamped env ?d carry)
      (\<lambda>r vs. set us \<subseteq> set vs \<and> (r = None \<longrightarrow> settled vs (kind_of desired) (key_of desired)))"
    using assms(1) key_stamped [of now ep desired]
    by (intro follows_weaken [OF apply_stamped_follows]) (auto simp: meta_only owned_stamped)
qed

section \<open>The protocol of \<open>Sync\<close>\<close>

definition auth_key :: "syncer \<Rightarrow> endpoint \<Rightarrow> device \<Rightarrow> object_key" where
  "auth_key s ep d = \<lparr>key_namespace = Namespace s, key_name = resource_name s ep d @ ''-bmc-auth''\<rparr>"

definition resource_key :: "syncer \<Rightarrow> endpoint \<Rightarrow> device \<Rightarrow> object_key" where
  "resource_key s ep d = \<lparr>key_namespace = Namespace s, key_name = resource_name s ep d\<rparr>"

abbreviation bmc_permitted :: "syncer \<Rightarrow> endpoint \<Rightarrow> device \<Rightarrow> discovery_call list \<Rightarrow> discovery_call \<Rightarrow> bool" where
  "bmc_permitted s ep d \<equiv> sync_permitted (auth_key s ep d) (resource_key s ep d)"

lemma desired_keys:
  assumes "desired_objects s ep d creds = (sec, m, h)"
  shows "key_of (SecretObject sec) = auth_key s ep d \<and> key_of (MachineObject m) = resource_key s ep d
    \<and> key_of (HardwareObject h) = resource_key s ep d \<and> sparse_object (HardwareObject h)"
  using assms DesiredHardware_sparse
  by (auto simp: desired_objects_def Let_def DesiredAuthSecret_def DesiredMachine_def DesiredHardware_def
    key_of_def meta_key_def new_meta_def auth_key_def resource_key_def sparse_object_def sparse_def)

definition all_settled :: "syncer \<Rightarrow> endpoint \<Rightarrow> device \<Rightarrow> discovery_call list \<Rightarrow> bool" where
  "all_settled s ep d us \<longleftrightarrow> settled us SecretKind (auth_key s ep d) \<and> settled us MachineKind (resource_key s ep d)
     \<and> settled us HardwareKind (resource_key s ep d)"

text \<open>A step that may fail, followed by a wrapped early return or the rest.\<close>

lemma follows_bind_error:
  fixes m :: "('w, 'a, 'x option) prog" and n :: "('w, 'a, 'y option) prog" and f :: "'x \<Rightarrow> 'y"
  assumes m: "follows A us m (\<lambda>r vs. set us \<subseteq> set vs \<and> (r = None \<longrightarrow> P vs))"
    and n: "\<And>vs. set us \<subseteq> set vs \<Longrightarrow> P vs \<Longrightarrow> follows A vs n (\<lambda>r ws. set vs \<subseteq> set ws \<and> (r = None \<longrightarrow> R ws))"
  shows "follows A us (State_Monad.bind m (\<lambda>e. case e of Some err \<Rightarrow> State_Monad.return (Some (f err)) | None \<Rightarrow> n))
    (\<lambda>r ws. set us \<subseteq> set ws \<and> (r = None \<longrightarrow> R ws))"
proof (rule follows_bind [OF m])
  fix e :: "'x option" and vs
  assume e: "set us \<subseteq> set vs \<and> (e = None \<longrightarrow> P vs)"
  show "follows A vs (case e of Some err \<Rightarrow> State_Monad.return (Some (f err)) | None \<Rightarrow> n)
      (\<lambda>r ws. set us \<subseteq> set ws \<and> (r = None \<longrightarrow> R ws))"
  proof (cases e)
    case None
    with e have "follows A vs n (\<lambda>r ws. set vs \<subseteq> set ws \<and> (r = None \<longrightarrow> R ws))" by (simp add: n)
    with None e show ?thesis by (simp, elim follows_weaken) blast
  next
    case (Some err)
    with e show ?thesis by (simp add: follows_return)
  qed
qed

lemma Sync_follows:
  "follows (bmc_permitted s ep d) us (Sync env s ep (Some d) creds)
     (\<lambda>r vs. set us \<subseteq> set vs \<and> (r = None \<longrightarrow> all_settled s ep d vs))"
proof -
  obtain sec m h where o: "desired_objects s ep d creds = (sec, m, h)" by (metis prod_cases3)
  note k = desired_keys [OF o]
  have 1: "follows (bmc_permitted s ep d) us (applyManaged env ep (SecretObject sec) None)
      (\<lambda>r vs. set us \<subseteq> set vs \<and> (r = None \<longrightarrow> settled vs SecretKind (auth_key s ep d)))" for us
    by (rule follows_weaken [OF applyManaged_follows])
      (use k in \<open>auto simp: sparse_object_def carry_ok_def referents_settled_def\<close>)
  have 2: "follows (bmc_permitted s ep d) us (applyManaged env ep (MachineObject m) None)
      (\<lambda>r vs. set us \<subseteq> set vs \<and> (r = None \<longrightarrow> settled vs MachineKind (resource_key s ep d)))"
    if "settled us SecretKind (auth_key s ep d)" for us
    by (rule follows_weaken [OF applyManaged_follows])
      (use k that in \<open>auto simp: sparse_object_def carry_ok_def referents_settled_def\<close>)
  have 3: "follows (bmc_permitted s ep d) us (applyManaged env ep (HardwareObject h) (Some carry_netboot))
      (\<lambda>r vs. set us \<subseteq> set vs \<and> (r = None \<longrightarrow> settled vs HardwareKind (resource_key s ep d)))"
    if "settled us SecretKind (auth_key s ep d)" "settled us MachineKind (resource_key s ep d)" for us
    by (rule follows_weaken [OF applyManaged_follows])
      (use k that in \<open>auto simp: carry_ok_def referents_settled_def\<close>)
  show ?thesis
    unfolding Sync_def option.case o prod.case
  proof (rule follows_bind_error [OF 1], rule follows_bind_error [OF 2])
    fix v1 v2
    assume "settled v1 SecretKind (auth_key s ep d)" "set v1 \<subseteq> set v2" and m: "settled v2 MachineKind (resource_key s ep d)"
    then have s: "settled v2 SecretKind (auth_key s ep d)" by (blast intro: settled_mono)
    show "follows (bmc_permitted s ep d) v2 (do {
         e \<leftarrow> applyManaged env ep (HardwareObject h) (Some carry_netboot);
         State_Monad.return (case e of Some err \<Rightarrow> Some (Wrap ''syncing hardware'' err) | None \<Rightarrow> None)
       }) (\<lambda>r vs. set v2 \<subseteq> set vs \<and> (r = None \<longrightarrow> all_settled s ep d vs))"
    proof (rule follows_bind [OF 3 [OF s m]], rule follows_return)
      fix r :: "go_error option" and v
      assume "set v2 \<subseteq> set v \<and> (r = None \<longrightarrow> settled v HardwareKind (resource_key s ep d))"
      then show "set v2 \<subseteq> set v \<and> ((case r of Some err \<Rightarrow> Some (Wrap ''syncing hardware'' err) | None \<Rightarrow> None) = None
          \<longrightarrow> all_settled s ep d v)"
        using settled_mono [OF s] settled_mono [OF m] by (cases r) (auto simp: all_settled_def)
    qed
  qed
qed

section \<open>What a sync writes\<close>

text \<open>The object describes the BMC: it has the key of a desired one and its spec or data, netboot apart.\<close>

definition without_netboot :: "hardware_spec \<Rightarrow> hardware_spec" where
  "without_netboot spec = spec\<lparr>Interfaces := map (\<lambda>i. i\<lparr>Netboot := None\<rparr>) (Interfaces spec)\<rparr>"

definition of_bmc :: "syncer \<Rightarrow> endpoint \<Rightarrow> device \<Rightarrow> credentials \<Rightarrow> client_object \<Rightarrow> bool" where
  "of_bmc s ep d creds obj \<longleftrightarrow> (case desired_objects s ep d creds of (sec, m, h) \<Rightarrow> (case obj of
     SecretObject x \<Rightarrow> meta_key (sec_Meta x) = meta_key (sec_Meta sec) \<and> sec_Data x = sec_Data sec
   | MachineObject x \<Rightarrow> meta_key (bm_Meta x) = meta_key (bm_Meta m) \<and> bm_Spec x = bm_Spec m
   | HardwareObject x \<Rightarrow> meta_key (hw_Meta x) = meta_key (hw_Meta h) 
       \<and> without_netboot (hw_Spec x) = without_netboot (hw_Spec h)))"

fun writes_bmc :: "syncer \<Rightarrow> endpoint \<Rightarrow> device \<Rightarrow> credentials \<Rightarrow> discovery_call \<Rightarrow> bool" where
  "writes_bmc s ep d creds (DCreate obj _) = of_bmc s ep d creds obj"
| "writes_bmc s ep d creds (DApply obj _) = of_bmc s ep d creds obj"
| "writes_bmc s ep d creds _ = True"

lemma of_bmc_meta:
  "of_bmc s ep d creds obj \<Longrightarrow> meta_key meta = key_of obj \<Longrightarrow> of_bmc s ep d creds (set_meta meta obj)"
  by (cases obj) (auto simp: of_bmc_def key_of_def split: prod.splits)

lemma of_bmc_carry: "of_bmc s ep d creds obj \<Longrightarrow> of_bmc s ep d creds (carry_netboot live obj)"
  by (induction live obj rule: carry_netboot.induct) (auto simp: of_bmc_def without_netboot_def split: list.splits)

lemma without_netboot_refs:
  "without_netboot a = without_netboot b \<Longrightarrow> BMCRef a = BMCRef b \<and> AgentID a = AgentID b"
  by (cases a; cases b) (simp add: without_netboot_def)

lemma key_meta_parts: "meta_key meta = \<lparr>key_namespace = om_Namespace meta, key_name = om_Name meta\<rparr>"
  by (simp add: meta_key_def)

lemma applyManaged_of_bmc:
  assumes d: "of_bmc s ep dev creds desired" and carry: "carry = None \<or> carry = Some carry_netboot"
  shows "calls_only (writes_bmc s ep dev creds) (applyManaged env ep' desired carry)"
proof -
  have stamped: "of_bmc s ep dev creds (set_meta (ownership_meta now ep' (get_meta desired)) desired)" for now
    by (rule of_bmc_meta [OF d]) (simp add: ownership_meta_def key_of_def key_meta_parts)
  have "of_bmc s ep dev creds (applied live x carry)" if "of_bmc s ep dev creds x" for live x
    using that carry unfolding applied_def with_resource_version_def
    by (auto intro!: of_bmc_meta of_bmc_carry simp: key_of_def key_meta_parts)
  then have payload: "of_bmc s ep dev creds payload"
    if "applyConfigurationFor env (applied live x carry) = Inr payload" "of_bmc s ep dev creds x" for live x payload
    using that by (auto simp: applyConfigurationFor_def key_of_def key_meta_parts intro!: of_bmc_meta split: option.splits)
  show ?thesis
    unfolding applyManaged_stamped apply_stamped_def
    by (intro calls_only_intros) (auto intro: stamped payload)
qed

lemma Sync_of_bmc: "calls_only (writes_bmc s ep d creds) (Sync env s ep (Some d) creds)"
proof -
  obtain sec m h where o: "desired_objects s ep d creds = (sec, m, h)" by (metis prod_cases3)
  then have "of_bmc s ep d creds (SecretObject sec)" "of_bmc s ep d creds (MachineObject m)"
    "of_bmc s ep d creds (HardwareObject h)" by (simp_all add: of_bmc_def)
  then show ?thesis
    unfolding Sync_def option.case o prod.case by (intro calls_only_intros applyManaged_of_bmc) simp_all
qed

section \<open>A sample run\<close>

text \<open>A BMC whose secret is missing, whose machine was provisioned by hand and whose hardware was
  written by an earlier sync and then disarmed by a workflow (or has lost its netboot block).\<close>

definition sample_nic_device :: device where
  "sample_nic_device = sample_device\<lparr>NICs := [Some \<lparr>NicID = ''1'', NICPorts = [Some \<lparr>PortMac = ''52:54:00:aa:00:01''\<rparr>]\<rparr>]\<rparr>"

definition sample_creds :: credentials where
  "sample_creds = \<lparr>Username = ''admin'', Password = ''secret''\<rparr>"

definition sample_syncer :: syncer where
  "sample_syncer = \<lparr>Namespace = ''tink'', InsecureTLS = True, NameTemplate = [], FacilityCode = ''onprem'', AutoEnrollment = False\<rparr>"

definition sample_hand_made :: bmc_machine where
  "sample_hand_made = (DesiredMachine sample_endpoint ''bmc-1'' ''tink'' True \<lparr>key_namespace = ''tink'', key_name = ''own''\<rparr>)"

definition sample_live :: "netboot option \<Rightarrow> hardware" where
  "sample_live nb = \<lparr>hw_Meta = (new_meta ''bmc-1'' ''tink'')\<lparr>om_Labels := [(ManagedByLabel, ManagedByValue)], om_ResourceVersion := ''5''\<rparr>,
     hw_Spec = empty_hardware_spec\<lparr>Interfaces := [\<lparr>Netboot = nb, DHCP = None\<rparr>], UserData := Some ''machineconfig''\<rparr>\<rparr>"

definition sample_sync_env :: "netboot option \<Rightarrow> unit sync_env" where
  "sample_sync_env nb = \<lparr>
     se_Get = (\<lambda>kind _ w. (case kind of SecretKind \<Rightarrow> Inl NotFound | MachineKind \<Rightarrow> Inr (MachineObject sample_hand_made)
       | HardwareKind \<Rightarrow> Inr (HardwareObject (sample_live nb)), w)),
     se_Create = (\<lambda>_ _ w. (None, w)), se_Convert = (\<lambda>_. None), se_Apply = (\<lambda>_ _ _ w. (None, w)), se_Now = (\<lambda>w. (0, w)),
     se_GetCredentials = (\<lambda>_ w. (Inl NotFound, w)),
     se_Collect = (\<lambda>_ creds w. (if creds = sample_creds then Inr (Some sample_nic_device) else Inl (OtherError ''401''), w))\<rparr>"

definition sample_sync :: "netboot option \<Rightarrow> go_error option \<times> (unit, discovery_call) st" where
  "sample_sync nb = run_state (Sync (sample_sync_env nb) sample_syncer sample_endpoint (Some sample_nic_device) sample_creds)
     \<lparr>world = (), trace = []\<rparr>"

lemma sample_mac: "PrimaryMAC sample_nic_device = ''52:54:00:aa:00:01''"
  by (simp add: sample_nic_device_def PrimaryMAC_def inbandMACs_def Let_def ToLower_ascii lower_char_def macPattern_def
      numeral_eq_Suc lower_hex_def is_digit_def)

definition sample_applied :: "netboot option \<Rightarrow> client_object" where
  "sample_applied nb = (case desired_objects sample_syncer sample_endpoint sample_nic_device sample_creds of
     (_, _, h) \<Rightarrow> set_meta ((ownership_meta 0 sample_endpoint (hw_Meta h))\<lparr>om_ResourceVersion := ''5'', om_CreationTimestamp := 0\<rparr>)
       (HardwareObject (h\<lparr>hw_Spec := (hw_Spec h)\<lparr>Interfaces := [(hd (Interfaces (hw_Spec h)))\<lparr>Netboot := Some (netbootFor (Some (sample_live nb)))\<rparr>]\<rparr>\<rparr>)))"

lemma sample_sync_run:
  "\<exists>us. sample_sync nb = (None, \<lparr>world = (), trace = us @ [DApply (sample_applied nb) None]\<rparr>)
     \<and> DGet HardwareKind (resource_key sample_syncer sample_endpoint sample_nic_device) (Inr (HardwareObject (sample_live nb))) \<in> set us"
proof -
  obtain sec m h where o: "desired_objects sample_syncer sample_endpoint sample_nic_device sample_creds = (sec, m, h)"
    by (metis prod_cases3)
  note k = desired_keys [OF o]
  have h: "Interfaces (hw_Spec h) = [\<lparr>Netboot = Some (netbootFor None),
      DHCP = Some \<lparr>MAC = ''52:54:00:aa:00:01'', DHCPHostname = resource_name sample_syncer sample_endpoint sample_nic_device, DHCPAddress = None\<rparr>\<rparr>]"
    using o by (auto simp: desired_objects_def Let_def DesiredHardware_def sample_mac)
  have live: "mget (om_Labels (hw_Meta (sample_live nb))) ManagedByLabel = ManagedByValue" "om_ResourceVersion (hw_Meta (sample_live nb)) = ''5''"
    by (simp_all add: sample_live_def mget_def)
  have foreign: "mget (om_Labels (bm_Meta sample_hand_made)) ManagedByLabel \<noteq> ManagedByValue"
    by (simp add: sample_hand_made_def DesiredMachine_def new_meta_def mget_def ManagedByValue_def)
  show ?thesis
    unfolding sample_sync_def Sync_def option.case o prod.case applyManaged_def stampOwnership_def Let_def
    using k by (simp add: sample_sync_env_def live foreign applyConfigurationFor_def with_resource_version_def h
      key_of_def meta_key_def sample_applied_def o ownership_meta_def)
qed

section \<open>Properties\<close>

text \<open>C14: Every write of a sync is one of two kinds. An object is created only after its own Get
  answered NotFound; it is applied only over a live object that carries the managed-by label, on
  condition of the very resourceVersion that was read, and a live netboot block is carried verbatim.
  Either way the payload is labelled as managed, sparse (CAPT's userData, the OS metadata, vendorData,
  references and resources are never in it), and what it refers to is settled before it: the secret
  before the machine, both before the hardware. Objects of others are never written.\<close>

theorem sync_writes_permitted:
  assumes "run_state (Sync env s ep (Some d) creds) \<lparr>world = w, trace = []\<rparr> = (r, s')" and "trace s' = us @ c # vs"
  shows "sync_permitted (auth_key s ep d) (resource_key s ep d) us c"
  using yields_run [OF Sync_follows [where us = "[]", unfolded follows_def] assms(1)] assms(2) by auto

theorem sync_writes_permitted_witness:
  "\<exists>us. trace (snd (sample_sync None)) = us @ [DApply (sample_applied None) None]
     \<and> sync_permitted (auth_key sample_syncer sample_endpoint sample_nic_device)
         (resource_key sample_syncer sample_endpoint sample_nic_device) us (DApply (sample_applied None) None)"
proof -
  obtain us where run: "sample_sync None = (None, \<lparr>world = (), trace = us @ [DApply (sample_applied None) None]\<rparr>)"
    using sample_sync_run by blast
  then have "trace (snd (sample_sync None)) = us @ DApply (sample_applied None) None # []" by simp
  with sync_writes_permitted [of "sample_sync_env None" sample_syncer sample_endpoint sample_nic_device sample_creds "()",
      OF _ this] run show ?thesis
    unfolding sample_sync_def by (intro exI [of _ us]) simp
qed

text \<open>The kinds written, in the order of the writes.\<close>

fun writes :: "discovery_call list \<Rightarrow> object_kind list" where
  "writes [] = []"
| "writes (DCreate obj _ # xs) = kind_of obj # writes xs"
| "writes (DApply obj _ # xs) = kind_of obj # writes xs"
| "writes (_ # xs) = writes xs"

lemma writes_append [simp]: "writes (xs @ ys) = writes xs @ writes ys"
  by (induction xs rule: writes.induct) auto

lemma applyManaged_writes:
  assumes "carry = None \<or> carry = Some carry_netboot"
  shows "yields (applyManaged env ep desired carry) (\<lambda>_ xs. writes xs = [] \<or> writes xs = [kind_of desired])"
proof -
  have kind: "kind_of payload = kind_of d"
    if "applyConfigurationFor env (applied live d carry) = Inr payload" for live d payload
    using payload_facts [OF that] carry_netboot_meta [of live d] assms
    by (auto simp: applied_def with_resource_version_def)
  show ?thesis
    unfolding applyManaged_stamped apply_stamped_def
    by (intro yields_bind_extcall yields_branch yields_return) (auto dest: kind)
qed

text \<open>A step that writes one kind or nothing, before steps that write later kinds.\<close>

lemma yields_bind_writes:
  assumes "yields m (\<lambda>_ xs. writes xs = [] \<or> writes xs = [k])"
    and "\<And>e. yields (f e) (\<lambda>_ ys. sorted_wrt (<) (writes ys) \<and> (\<forall>l \<in> set (writes ys). k < l))"
  shows "yields (State_Monad.bind m f) (\<lambda>_ xs. sorted_wrt (<) (writes xs) \<and> set (writes xs) \<subseteq> {k} \<union> {l. k < l})"
proof (rule yields_bind [OF assms(1)])
  fix e xs
  assume "writes xs = [] \<or> writes xs = [k]"
  then show "yields (f e) (\<lambda>_ ys. sorted_wrt (<) (writes (xs @ ys)) \<and> set (writes (xs @ ys)) \<subseteq> {k} \<union> {l. k < l})"
    by (intro yields_weaken [OF assms(2)]) (auto simp: sorted_wrt_append)
qed

lemma Sync_writes: "yields (Sync env s ep dev creds) (\<lambda>_ xs. sorted_wrt (<) (writes xs))"
proof (cases dev)
  case None
  then show ?thesis by (simp add: Sync_def yields_return)
next
  case (Some d)
  obtain sec m h where o: "desired_objects s ep d creds = (sec, m, h)" by (metis prod_cases3)
  have kinds: "SecretKind < MachineKind" "MachineKind < HardwareKind" "\<not> MachineKind < SecretKind"
    by (simp_all add: less_object_kind_def)
  have step: "yields (applyManaged env ep (SecretObject sec) None) (\<lambda>_ xs. writes xs = [] \<or> writes xs = [SecretKind])"
    "yields (applyManaged env ep (MachineObject m) None) (\<lambda>_ xs. writes xs = [] \<or> writes xs = [MachineKind])"
    "yields (applyManaged env ep (HardwareObject h) (Some carry_netboot)) (\<lambda>_ xs. writes xs = [] \<or> writes xs = [HardwareKind])"
    using applyManaged_writes [of None env ep "SecretObject sec"] applyManaged_writes [of None env ep "MachineObject m"]
      applyManaged_writes [of "Some carry_netboot" env ep "HardwareObject h"] by simp_all
  let ?hardware = "do {
      e \<leftarrow> applyManaged env ep (HardwareObject h) (Some carry_netboot);
      State_Monad.return (case e of Some err \<Rightarrow> Some (Wrap ''syncing hardware'' err) | None \<Rightarrow> None)
    }"
  let ?machine = "do {
      e \<leftarrow> applyManaged env ep (MachineObject m) None;
      case e of Some err \<Rightarrow> State_Monad.return (Some (Wrap ''syncing machine'' err)) | None \<Rightarrow> ?hardware
    }"
  have hardware: "yields ?hardware (\<lambda>_ xs. sorted_wrt (<) (writes xs) \<and> set (writes xs) \<subseteq> {HardwareKind} \<union> {l. HardwareKind < l})"
    by (rule yields_bind_writes [OF step(3)], rule yields_return) simp
  have machine: "yields ?machine (\<lambda>_ xs. sorted_wrt (<) (writes xs) \<and> set (writes xs) \<subseteq> {MachineKind} \<union> {l. MachineKind < l})"
    by (rule yields_bind_writes [OF step(2)], rule yields_case_option, rule yields_weaken [OF hardware])
      (use kinds less_trans in \<open>auto intro: yields_return\<close>)
  show ?thesis
    unfolding Sync_def Some option.case o prod.case
    by (rule yields_weaken [OF yields_bind_writes [OF step(1)]], rule yields_case_option, rule yields_weaken [OF machine])
      (use kinds less_trans in \<open>auto intro: yields_return\<close>)
qed

text \<open>C24: One sync writes each kind of object at most once, in the order secret, machine, hardware, whatever
  fails on the way; and when it reports success it had verified inventory and has settled all three
  objects: the secret, the machine and the hardware were each created or applied, or belong to someone
  else.\<close>

theorem sync_success_settles_all:
  assumes "run_state (Sync env s ep dev creds) \<lparr>world = w, trace = []\<rparr> = (r, s')"
  shows "sorted_wrt (<) (writes (trace s'))
    \<and> (r = None \<longrightarrow> (\<exists>d. dev = Some d \<and> settled (trace s') SecretKind (auth_key s ep d)
      \<and> settled (trace s') MachineKind (resource_key s ep d) \<and> settled (trace s') HardwareKind (resource_key s ep d)))"
proof
  show "sorted_wrt (<) (writes (trace s'))" by (rule yields_run_empty [OF Sync_writes assms])
  show "r = None \<longrightarrow> (\<exists>d. dev = Some d \<and> settled (trace s') SecretKind (auth_key s ep d)
      \<and> settled (trace s') MachineKind (resource_key s ep d) \<and> settled (trace s') HardwareKind (resource_key s ep d))"
  proof (cases dev)
    case None
    with assms show ?thesis by (auto simp: Sync_def)
  next
    case (Some d)
    with yields_run [OF Sync_follows [where us = "[]", unfolded follows_def] assms [unfolded Some]]
    show ?thesis by (simp add: all_settled_def)
  qed
qed

theorem sync_success_settles_all_witness:
  "settled (trace (snd (sample_sync None))) HardwareKind (resource_key sample_syncer sample_endpoint sample_nic_device)"
proof -
  obtain s' where "sample_sync None = (None, s')" using sample_sync_run by blast
  with sync_success_settles_all [of "sample_sync_env None" sample_syncer sample_endpoint "Some sample_nic_device" sample_creds "()" None s']
  show ?thesis unfolding sample_sync_def by simp
qed

text \<open>C25: The three objects of a BMC fit together. They are in the syncer's namespace; the machine's
  authSecretRef is the key of the secret, the hardware's bmcRef names the machine, and machine and
  hardware share a name, which is a valid label for every endpoint that discovery emits; the hardware
  has at most its primary interface, whose netboot block is the create default, and no field of the
  other controllers.\<close>

theorem desired_objects_fit_together:
  assumes "desired_objects s ep d creds = (sec, m, h)" and "EntryToEndpoint entry = Some ep"
  shows "AuthSecretRef (bm_Spec m) = meta_key (sec_Meta sec)
    \<and> BMCRef (hw_Spec h) = Some \<lparr>RefAPIGroup = ''bmc.tinkerbell.org/v1alpha1'', RefKind = ''Machine'', RefName = om_Name (bm_Meta m)\<rparr>
    \<and> hw_key h = meta_key (bm_Meta m) \<and> om_Namespace (sec_Meta sec) = Namespace s \<and> om_Namespace (bm_Meta m) = Namespace s
    \<and> dns_label (om_Name (bm_Meta m)) \<and> sparse h
    \<and> map DHCP (Interfaces (hw_Spec h)) = (if PrimaryMAC d = [] then []
        else [Some \<lparr>MAC = PrimaryMAC d, DHCPHostname = om_Name (bm_Meta m), DHCPAddress = None\<rparr>])"
proof -
  have "TemplateName (NameTemplate s) ep d = [] \<or> dns_label (TemplateName (NameTemplate s) ep d)"
    using SanitizeName_label by (auto simp: TemplateName_def split: prod.splits)
  moreover have "dns_label (ResourceName ep)" using ResourceName_label [OF assms(2)] .
  ultimately have "dns_label (resource_name s ep d)" by (auto simp: resource_name_def Let_def)
  then show ?thesis
    using assms(1) by (auto simp: desired_objects_def Let_def DesiredAuthSecret_def DesiredMachine_def DesiredHardware_def
      meta_key_def new_meta_def sparse_def empty_hardware_spec_def)
qed

theorem desired_objects_fit_together_witness:
  "\<exists>ep sec m h. desired_objects sample_syncer ep sample_nic_device sample_creds = (sec, m, h) \<and> EntryToEndpoint bare_entry = Some ep
     \<and> AuthSecretRef (bm_Spec m) = meta_key (sec_Meta sec) \<and> dns_label (om_Name (bm_Meta m))"
proof -
  obtain ep where ep: "EntryToEndpoint bare_entry = Some ep"
    by (auto simp: EntryToEndpoint_def bare_entry_def AddrFromSlice_def)
  moreover obtain sec m h where "desired_objects sample_syncer ep sample_nic_device sample_creds = (sec, m, h)"
    by (metis prod_cases3)
  ultimately show ?thesis using desired_objects_fit_together by blast
qed

text \<open>What a re-sync does to netboot. A netboot block of the live primary interface, here one that
  a workflow has disarmed, is applied back as it is; when the live interface has none, the apply authors
  the defaults and arms PXE, on an update.\<close>

theorem netboot_on_update:
  "(\<exists>us. trace (snd (sample_sync (Some \<lparr>AllowPXE = Some False, AllowWorkflow = Some True, NetbootOther = []\<rparr>)))
       = us @ [DApply (sample_applied (Some \<lparr>AllowPXE = Some False, AllowWorkflow = Some True, NetbootOther = []\<rparr>)) None])
   \<and> (\<exists>h. sample_applied (Some \<lparr>AllowPXE = Some False, AllowWorkflow = Some True, NetbootOther = []\<rparr>) = HardwareObject h
        \<and> map Netboot (Interfaces (hw_Spec h)) = [Some \<lparr>AllowPXE = Some False, AllowWorkflow = Some True, NetbootOther = []\<rparr>])
   \<and> (\<exists>us. trace (snd (sample_sync None)) = us @ [DApply (sample_applied None) None])
   \<and> (\<exists>h. sample_applied None = HardwareObject h
        \<and> map Netboot (Interfaces (hw_Spec h)) = [Some \<lparr>AllowPXE = Some True, AllowWorkflow = Some True, NetbootOther = []\<rparr>])"
proof -
  have a: "\<exists>us. trace (snd (sample_sync nb)) = us @ [DApply (sample_applied nb) None]" for nb
  proof -
    obtain us where "sample_sync nb = (None, \<lparr>world = (), trace = us @ [DApply (sample_applied nb) None]\<rparr>)"
      using sample_sync_run by blast
    then show ?thesis by simp
  qed
  have b: "\<exists>h. sample_applied nb = HardwareObject h
      \<and> map Netboot (Interfaces (hw_Spec h)) = [Some (netbootFor (Some (sample_live nb)))]" for nb
    by (simp add: sample_applied_def split: prod.splits)
  show ?thesis
    using a b [of "Some \<lparr>AllowPXE = Some False, AllowWorkflow = Some True, NetbootOther = []\<rparr>"] b [of None]
    by (simp add: netbootFor_def sample_live_def)
qed

end
