(* ===== verification/Worker.thy ===== *)
theory Worker
  imports SyncerProperties
begin

text \<open>
  \<open>internal/controller/worker.go\<close>: the discovery worker. \<open>credentialCandidates\<close> and \<open>handle\<close> are
  programs over \<open>sync_env\<close> (the secret read and the collector are calls of it); \<open>Start\<close> and
  \<open>processQueue\<close>, which run concurrently and share the map of known endpoints under a mutex, are the
  steps of a transition relation. client-go's work queue is outside: the state records the calls the
  worker makes on it, and the queue hands out only keys that were added.
\<close>

record worker =
  CredentialsSecret :: object_key
  DefaultCredentials :: "string \<Rightarrow> credentials option"
  RedfishPort :: int
  WorkerSyncer :: syncer

section \<open>The credential chain\<close>

record credential_candidate =
  cand_creds :: credentials
  cand_source :: string

fun has_creds :: "credential_candidate list \<Rightarrow> credentials \<Rightarrow> bool" where
  "has_creds [] creds = False"
| "has_creds (existing # rest) creds = (if cand_creds existing = creds then True else has_creds rest creds)"

definition add_candidate :: "credentials \<Rightarrow> string \<Rightarrow> credential_candidate list \<Rightarrow> credential_candidate list" where
  "add_candidate creds source candidates = (if has_creds candidates creds then candidates
     else candidates @ [\<lparr>cand_creds = creds, cand_source = source\<rparr>])"

fun secret_candidates :: "go_error + secret \<Rightarrow> credential_candidate list" where
  "secret_candidates (Inr s) =
     (let username = mget (sec_Data s) ''username''; password = mget (sec_Data s) ''password''
      in if username \<noteq> [] \<and> password \<noteq> []
         then add_candidate \<lparr>Username = username, Password = password\<rparr> ''secret'' [] else [])"
| "secret_candidates (Inl _) = []"

definition default_candidates :: "worker \<Rightarrow> endpoint \<Rightarrow> credential_candidate list \<Rightarrow> credential_candidate list" where
  "default_candidates wk ep candidates =
     (let candidates = (case DefaultCredentials wk (EpService ep) of
            Some creds \<Rightarrow> add_candidate creds ''service default'' candidates | None \<Rightarrow> candidates)
      in (case DefaultCredentials wk WildcardService of
            Some creds \<Rightarrow> add_candidate creds ''global default'' candidates | None \<Rightarrow> candidates))"

definition credentialCandidates :: "'w sync_env \<Rightarrow> worker \<Rightarrow> endpoint \<Rightarrow> ('w, credential_candidate list) dprog" where
  "credentialCandidates env wk ep = do {
     r \<leftarrow> extcall (DGetCredentials (CredentialsSecret wk)) (se_GetCredentials env (CredentialsSecret wk));
     State_Monad.return (default_candidates wk ep (secret_candidates r))
   }"

section \<open>Handling one key\<close>

text \<open>The loop over the candidates. A collector that returns a nil device with a nil error makes the
  next log line dereference it: that run panics.\<close>

datatype verification = Verified device credentials | Unverified "go_error option" | NilDevicePanic

fun verify_candidates ::
    "'w sync_env \<Rightarrow> endpoint \<Rightarrow> credential_candidate list \<Rightarrow> go_error option \<Rightarrow> ('w, verification) dprog" where
  "verify_candidates env ep [] lastErr = State_Monad.return (Unverified lastErr)"
| "verify_candidates env ep (candidate # rest) lastErr = do {
     r \<leftarrow> extcall (DCollect ep (cand_creds candidate)) (se_Collect env ep (cand_creds candidate));
     case r of
       Inl err \<Rightarrow> verify_candidates env ep rest (Some err)
     | Inr dev \<Rightarrow> (case dev of
         None \<Rightarrow> State_Monad.return NilDevicePanic
       | Some d \<Rightarrow> State_Monad.return (Verified d (cand_creds candidate)))
   }"

definition effective_endpoint :: "worker \<Rightarrow> endpoint \<Rightarrow> endpoint" where
  "effective_endpoint wk ep = (if RedfishPort wk \<noteq> 0 then ep\<lparr>EpPort := RedfishPort wk\<rparr> else ep)"

text \<open>The result of \<open>handle\<close>; \<^const>\<open>None\<close> is the panic.\<close>

definition handle ::
    "'w sync_env \<Rightarrow> worker \<Rightarrow> (string \<Rightarrow> endpoint option) \<Rightarrow> string \<Rightarrow> ('w, go_error option option) dprog" where
  "handle env wk known key = (case known key of
     None \<Rightarrow> State_Monad.return (Some None)
   | Some ep0 \<Rightarrow> (let ep = effective_endpoint wk ep0 in do {
       candidates \<leftarrow> credentialCandidates env wk ep;
       if candidates = [] then State_Monad.return (Some (Some (OtherError ''no credentials available'')))
       else do {
         v \<leftarrow> verify_candidates env ep candidates None;
         case v of
           NilDevicePanic \<Rightarrow> State_Monad.return None
         | Unverified lastErr \<Rightarrow> State_Monad.return (Some lastErr)
         | Verified dev creds \<Rightarrow> do {
             e \<leftarrow> Sync env (WorkerSyncer wk) ep (Some dev) creds;
             State_Monad.return (Some e)
           }
       }
     }))"

section \<open>Discovery and the queue\<close>

datatype queue_call = QAdd string | QAddRateLimited string | QForget string | QDone string

record 'w worker_state =
  ws_known :: "string \<Rightarrow> endpoint option"
  ws_queue :: "queue_call list"
  ws_world :: 'w
  ws_calls :: "discovery_call list"

datatype worker_event = Observed endpoint | Ticked "string list" | Processed string

definition start_state :: "'w \<Rightarrow> 'w worker_state" where
  "start_state w = \<lparr>ws_known = (\<lambda>_. None), ws_queue = [], ws_world = w, ws_calls = []\<rparr>"

definition observe :: "endpoint \<Rightarrow> 'w worker_state \<Rightarrow> 'w worker_state" where
  "observe ep st = st\<lparr>ws_known := (ws_known st)(Key ep \<mapsto> ep), ws_queue := ws_queue st @ [QAdd (Key ep)]\<rparr>"

text \<open>The range over a Go map visits its keys once each, in any order: the order is part of the event.\<close>

definition resync :: "string list \<Rightarrow> 'w worker_state \<Rightarrow> 'w worker_state" where
  "resync keys st = st\<lparr>ws_queue := ws_queue st @ map QAdd keys\<rparr>"

definition process_calls :: "string \<Rightarrow> go_error option \<Rightarrow> queue_call list" where
  "process_calls key e = (case e of Some err \<Rightarrow> [QAddRateLimited key, QDone key] | None \<Rightarrow> [QForget key, QDone key])"

definition offered :: "'w worker_state \<Rightarrow> string \<Rightarrow> bool" where
  "offered st key \<longleftrightarrow> QAdd key \<in> set (ws_queue st) \<or> QAddRateLimited key \<in> set (ws_queue st)"

inductive worker_step :: "'w sync_env \<Rightarrow> worker \<Rightarrow> 'w worker_state \<Rightarrow> worker_event \<Rightarrow> 'w worker_state \<Rightarrow> bool"
  for env :: "'w sync_env" and wk :: worker where
  step_observe: "worker_step env wk st (Observed ep) (observe ep st)"
| step_tick: "distinct keys \<Longrightarrow> set keys = dom (ws_known st) \<Longrightarrow> worker_step env wk st (Ticked keys) (resync keys st)"
| step_process: "offered st key \<Longrightarrow>
    run_state (handle env wk (ws_known st) key) \<lparr>world = ws_world st, trace = []\<rparr> = (Some e, s') \<Longrightarrow>
    worker_step env wk st (Processed key)
      (st\<lparr>ws_queue := ws_queue st @ process_calls key e, ws_world := world s', ws_calls := ws_calls st @ trace s'\<rparr>)"

inductive_cases processE: "worker_step env wk st (Processed key) st'"

text \<open>A processed key was offered, its endpoint was read from the map of that moment, and the queue is
  told of the outcome: forgotten after a success, to be retried after an error, done in both cases.\<close>

lemma process_outcome:
  assumes "worker_step env wk st (Processed key) st'"
  shows "offered st key \<and> ws_known st' = ws_known st
    \<and> (\<exists>e s'. run_state (handle env wk (ws_known st) key) \<lparr>world = ws_world st, trace = []\<rparr> = (Some e, s')
         \<and> ws_queue st' = ws_queue st @ (if e = None then [QForget key] else [QAddRateLimited key]) @ [QDone key]
         \<and> ws_calls st' = ws_calls st @ trace s')"
  by (rule processE [OF assms]) (auto simp: process_calls_def split: option.splits)

text \<open>Runs of the worker, with the events that made them, the latest last.\<close>

inductive worker_run :: "'w sync_env \<Rightarrow> worker \<Rightarrow> worker_event list \<Rightarrow> 'w worker_state \<Rightarrow> bool"
  for env :: "'w sync_env" and wk :: worker where
  run_start: "worker_run env wk [] (start_state w)"
| run_step: "worker_run env wk es st \<Longrightarrow> worker_step env wk st e st' \<Longrightarrow> worker_run env wk (es @ [e]) st'"

end
