(* ===== verification/WorkerProperties.thy ===== *)
theory WorkerProperties
  imports Worker
begin

text \<open>
  Properties of the worker: the credential chain, what one handled key may read and write, where its
  writes come from, and the invariants of every run of discovery and queue processing together.
\<close>

section \<open>The credential chain\<close>

lemma has_creds_set: "has_creds cs creds \<longleftrightarrow> creds \<in> cand_creds ` set cs"
  by (induction cs creds rule: has_creds.induct) auto

definition secret_pair :: "go_error + secret \<Rightarrow> credentials option" where
  "secret_pair r = (case r of Inl _ \<Rightarrow> None
     | Inr s \<Rightarrow> if mget (sec_Data s) ''username'' \<noteq> [] \<and> mget (sec_Data s) ''password'' \<noteq> []
         then Some \<lparr>Username = mget (sec_Data s) ''username'', Password = mget (sec_Data s) ''password''\<rparr> else None)"

text \<open>The specification: the three sources in order, absent ones skipped, a repeated pair only at its
  first place.\<close>

fun first_occurrences :: "'a list \<Rightarrow> 'a list" where
  "first_occurrences [] = []"
| "first_occurrences (x # xs) = x # filter (\<lambda>y. y \<noteq> x) (first_occurrences xs)"

lemma first_occurrences_distinct: "distinct (first_occurrences xs) \<and> set (first_occurrences xs) = set xs"
  by (induction xs) auto

definition chain_spec :: "worker \<Rightarrow> endpoint \<Rightarrow> go_error + secret \<Rightarrow> credentials list" where
  "chain_spec wk ep r = first_occurrences (List.map_filter id
     [secret_pair r, DefaultCredentials wk (EpService ep), DefaultCredentials wk WildcardService])"

lemma candidates_spec:
  "map cand_creds (default_candidates wk ep (secret_candidates r)) = chain_spec wk ep r"
proof -
  have s: "map cand_creds (secret_candidates r) = (case secret_pair r of None \<Rightarrow> [] | Some c \<Rightarrow> [c])"
    by (cases r) (auto simp: secret_pair_def Let_def add_candidate_def)
  have a: "map cand_creds (add_candidate c src cs) = (if c \<in> set (map cand_creds cs) then map cand_creds cs
      else map cand_creds cs @ [c])" for c src cs
    by (auto simp: add_candidate_def has_creds_set)
  show ?thesis
    using s unfolding default_candidates_def chain_spec_def Let_def
    by (cases "secret_pair r"; cases "DefaultCredentials wk (EpService ep)"; cases "DefaultCredentials wk WildcardService")
      (auto simp: a map_filter_def simp flip: set_map)
qed

section \<open>The protocol of one handled key\<close>

definition secret_data :: "credentials \<Rightarrow> discovery_call \<Rightarrow> bool" where
  "secret_data creds c \<longleftrightarrow> (case c of
     DCreate (SecretObject sec) _ \<Rightarrow> sec_Data sec = [(''username'', Username creds), (''password'', Password creds)]
   | DApply (SecretObject sec) _ \<Rightarrow> sec_Data sec = [(''username'', Username creds), (''password'', Password creds)]
   | _ \<Rightarrow> True)"

text \<open>The secret is read first. A candidate is tried on the endpoint only while every earlier one was
  refused. Everything else belongs to the sync of the device and credentials of the attempt that
  succeeded, and a secret holds exactly those credentials.\<close>

fun handle_permitted :: "syncer \<Rightarrow> endpoint \<Rightarrow> discovery_call list \<Rightarrow> discovery_call \<Rightarrow> bool" where
  "handle_permitted s ep us (DGetCredentials _ _) = (us = [])"
| "handle_permitted s ep us (DCollect ep' creds _) = (ep' = ep
     \<and> (\<forall>c \<in> set us. \<forall>e k r. c = DCollect e k r \<longrightarrow> k \<noteq> creds \<and> (\<exists>err. r = Inl err)))"
| "handle_permitted s ep us c = (\<exists>d creds. DCollect ep creds (Inr (Some d)) \<in> set us
     \<and> sync_permitted (auth_key s ep d) (resource_key s ep d) us c \<and> secret_data creds c)"

lemma guarded_all:
  "guarded A us xs \<Longrightarrow> \<forall>x \<in> set xs. P x \<Longrightarrow>
     (\<And>vs x. A (us @ vs) x \<Longrightarrow> P x \<Longrightarrow> B (us @ vs) x) \<Longrightarrow> guarded B us xs"
proof (induction xs arbitrary: us)
  case (Cons x xs)
  from Cons.prems(1,2) Cons.prems(3) [of "[]" x] have "B us x" by simp
  moreover have "guarded B (us @ [x]) xs"
    by (rule Cons.IH) (use Cons.prems(1,2) Cons.prems(3) [of "x # _"] in auto)
  ultimately show ?case by simp
qed simp

lemma secret_of_bmc: "writes_bmc s ep d creds c \<Longrightarrow> secret_data creds c"
  by (auto simp: secret_data_def of_bmc_def desired_objects_def Let_def DesiredAuthSecret_def
      split: discovery_call.splits client_object.splits)

lemma Sync_data: "calls_only (secret_data creds) (Sync env s ep (Some d) creds)"
  by (rule yields_weaken [OF Sync_of_bmc]) (auto intro: secret_of_bmc)

text \<open>The attempts before the one that counts, each refused.\<close>

fun refused :: "endpoint \<Rightarrow> credentials list \<Rightarrow> discovery_call list \<Rightarrow> bool" where
  "refused ep [] xs = (xs = [])"
| "refused ep (c # cs) xs = (\<exists>err rest. xs = DCollect ep c (Inl err) # rest \<and> refused ep cs rest)"

lemma refused_mem: "refused ep cs xs \<Longrightarrow> x \<in> set xs \<Longrightarrow> \<exists>c err. x = DCollect ep c (Inl err) \<and> c \<in> set cs"
  by (induction cs arbitrary: xs) fastforce+

definition verified_by :: "endpoint \<Rightarrow> credentials list \<Rightarrow> verification \<Rightarrow> discovery_call list \<Rightarrow> bool" where
  "verified_by ep chain v xs \<longleftrightarrow> (case v of
     Unverified e \<Rightarrow> refused ep chain xs \<and> (chain \<noteq> [] \<longrightarrow> e \<noteq> None)
   | Verified d c \<Rightarrow> \<exists>pre post us. chain = pre @ c # post \<and> refused ep pre us \<and> xs = us @ [DCollect ep c (Inr (Some d))]
   | NilDevicePanic \<Rightarrow> \<exists>pre c post us. chain = pre @ c # post \<and> refused ep pre us \<and> xs = us @ [DCollect ep c (Inr None)])"

lemma verified_by_Cons:
  assumes "verified_by ep chain v xs" and "chain = [] \<Longrightarrow> v \<noteq> Unverified None"
  shows "verified_by ep (c # chain) v (DCollect ep c (Inl err) # xs)"
proof (cases v)
  case (Verified d k)
  with assms(1) obtain pre post us where "chain = pre @ k # post" "refused ep pre us" "xs = us @ [DCollect ep k (Inr (Some d))]"
    by (auto simp: verified_by_def)
  then show ?thesis unfolding verified_by_def Verified verification.case
    by (intro exI [of _ "c # pre"] exI [of _ post] exI [of _ "DCollect ep c (Inl err) # us"]) simp
next
  case (Unverified e)
  with assms show ?thesis by (auto simp: verified_by_def)
next
  case NilDevicePanic
  with assms(1) obtain pre k post us where "chain = pre @ k # post" "refused ep pre us" "xs = us @ [DCollect ep k (Inr None)]"
    by (auto simp: verified_by_def)
  then show ?thesis unfolding verified_by_def NilDevicePanic verification.case
    by (intro exI [of _ "c # pre"] exI [of _ k] exI [of _ post] exI [of _ "DCollect ep c (Inl err) # us"]) simp
qed

lemma verified_by_first:
  "verified_by ep (c # cs) (Verified d c) [DCollect ep c (Inr (Some d))]"
  "verified_by ep (c # cs) NilDevicePanic [DCollect ep c (Inr None)]"
proof -
  have r: "refused ep [] []" by simp
  show "verified_by ep (c # cs) (Verified d c) [DCollect ep c (Inr (Some d))]"
    unfolding verified_by_def verification.case
    by (rule exI [of _ "[]"], rule exI [of _ cs], rule exI [of _ "[]"]) (simp add: r)
  show "verified_by ep (c # cs) NilDevicePanic [DCollect ep c (Inr None)]"
    unfolding verified_by_def verification.case
    by (rule exI [of _ "[]"], rule exI [of _ c], rule exI [of _ cs], rule exI [of _ "[]"]) (simp add: r)
qed

lemma verify_candidates_spec:
  "yields (verify_candidates env ep cs e0)
     (\<lambda>v xs. verified_by ep (map cand_creds cs) v xs \<and> (cs = [] \<longrightarrow> v = Unverified e0))"
proof (induction cs arbitrary: e0)
  case Nil
  show ?case by (simp, rule yields_return) (simp add: verified_by_def)
next
  case (Cons c cs)
  show ?case
  proof (simp only: verify_candidates.simps, intro yields_bind_extcall yields_case_sum yields_case_option yields_return)
    fix w err
    assume r: "fst (se_Collect env ep (cand_creds c) w) = Inl err"
    show "yields (verify_candidates env ep cs (Some err))
        (\<lambda>v ys. verified_by ep (map cand_creds (c # cs)) v (DCollect ep (cand_creds c) (fst (se_Collect env ep (cand_creds c) w)) # ys)
          \<and> (c # cs = [] \<longrightarrow> v = Unverified e0))"
      unfolding r by (rule yields_weaken [OF Cons.IH]) (auto intro: verified_by_Cons)
  qed (simp_all add: verified_by_first)
qed

text \<open>The three ways a known key is handled: every candidate of the chain was refused, and the run fails
  without any further call; some candidate's collector returned no device; or some candidate was
  accepted after the earlier ones were refused, and its device is synced with its credentials.\<close>

inductive handled :: "worker \<Rightarrow> endpoint \<Rightarrow> go_error option option \<Rightarrow> discovery_call list \<Rightarrow> bool"
  for wk :: worker and ep :: endpoint where
  all_refused: "refused ep (chain_spec wk ep cr) us \<Longrightarrow>
    handled wk ep (Some (Some err)) (DGetCredentials (CredentialsSecret wk) cr # us)"
| nil_device: "chain_spec wk ep cr = pre @ c # post \<Longrightarrow> refused ep pre us \<Longrightarrow>
    handled wk ep None (DGetCredentials (CredentialsSecret wk) cr # us @ [DCollect ep c (Inr None)])"
| synced: "chain_spec wk ep cr = pre @ c # post \<Longrightarrow> refused ep pre us \<Longrightarrow>
    before = DGetCredentials (CredentialsSecret wk) cr # us @ [DCollect ep c (Inr (Some d))] \<Longrightarrow>
    guarded (bmc_permitted (WorkerSyncer wk) ep d) before ys \<Longrightarrow> \<forall>y \<in> set ys. secret_data c y \<Longrightarrow>
    (e = None \<Longrightarrow> all_settled (WorkerSyncer wk) ep d (before @ ys)) \<Longrightarrow>
    handled wk ep (Some e) (before @ ys)"

lemma handle_handled:
  assumes "known key = Some ep0"
  shows "yields (handle env wk known key) (handled wk (effective_endpoint wk ep0))"
proof -
  let ?ep = "effective_endpoint wk ep0" and ?s = "WorkerSyncer wk"
  show ?thesis
    unfolding handle_def assms option.case Let_def credentialCandidates_def State_Monad.bind_assoc State_Monad.bind_left_identity
  proof (rule yields_bind_extcall, rule yields_if)
    fix w
    let ?cr = "fst (se_GetCredentials env (CredentialsSecret wk) w)"
    let ?cs = "default_candidates wk ?ep (secret_candidates ?cr)"
    let ?read = "DGetCredentials (CredentialsSecret wk) ?cr"
    have chain: "map cand_creds ?cs = chain_spec wk ?ep ?cr" by (rule candidates_spec)
    show "yields (State_Monad.return (Some (Some (OtherError ''no credentials available''))))
        (\<lambda>r ys. handled wk ?ep r (?read # ys))" if "?cs = []"
      using that chain by (intro yields_return all_refused) simp
    show "yields (do {
         v \<leftarrow> verify_candidates env ?ep ?cs None;
         case v of NilDevicePanic \<Rightarrow> State_Monad.return None
         | Unverified lastErr \<Rightarrow> State_Monad.return (Some lastErr)
         | Verified dev creds \<Rightarrow> do { e \<leftarrow> Sync env ?s ?ep (Some dev) creds; State_Monad.return (Some e) }
       }) (\<lambda>r ys. handled wk ?ep r (?read # ys))" if "?cs \<noteq> []"
    proof (rule yields_bind [OF verify_candidates_spec])
      fix v xs
      assume v: "verified_by ?ep (map cand_creds ?cs) v xs \<and> (?cs = [] \<longrightarrow> v = Unverified None)"
      show "yields (case v of NilDevicePanic \<Rightarrow> State_Monad.return None
         | Unverified lastErr \<Rightarrow> State_Monad.return (Some lastErr)
         | Verified dev creds \<Rightarrow> do { e \<leftarrow> Sync env ?s ?ep (Some dev) creds; State_Monad.return (Some e) })
         (\<lambda>r ys. handled wk ?ep r (?read # xs @ ys))"
      proof (cases v)
        case (Unverified e)
        with v chain that have "refused ?ep (chain_spec wk ?ep ?cr) xs" "e \<noteq> None" by (auto simp: verified_by_def)
        with Unverified show ?thesis by (auto intro!: yields_return all_refused)
      next
        case NilDevicePanic
        with v chain obtain pre c post us where "chain_spec wk ?ep ?cr = pre @ c # post" "refused ?ep pre us"
          "xs = us @ [DCollect ?ep c (Inr None)]" by (auto simp: verified_by_def)
        with NilDevicePanic show ?thesis by (simp, intro yields_return) (simp add: nil_device)
      next
        case (Verified d c)
        with v chain obtain pre post us where *: "chain_spec wk ?ep ?cr = pre @ c # post" "refused ?ep pre us"
          "xs = us @ [DCollect ?ep c (Inr (Some d))]" by (auto simp: verified_by_def)
        let ?before = "?read # us @ [DCollect ?ep c (Inr (Some d))]"
        have sync: "yields (Sync env ?s ?ep (Some d) c) (\<lambda>e ys. (guarded (bmc_permitted ?s ?ep d) ?before ys
            \<and> set ?before \<subseteq> set (?before @ ys) \<and> (e = None \<longrightarrow> all_settled ?s ?ep d (?before @ ys)))
            \<and> (\<forall>y \<in> set ys. secret_data c y))"
          by (rule triple_conj [OF Sync_follows [unfolded follows_def] Sync_data])
        show ?thesis
          unfolding Verified verification.case
        proof (rule yields_bind [OF sync], rule yields_return)
          fix e :: "go_error option" and ys
          assume q: "(guarded (bmc_permitted ?s ?ep d) ?before ys
            \<and> set ?before \<subseteq> set (?before @ ys) \<and> (e = None \<longrightarrow> all_settled ?s ?ep d (?before @ ys)))
            \<and> (\<forall>y \<in> set ys. secret_data c y)"
          show "handled wk ?ep (Some e) (?read # xs @ ys @ [])"
            using synced [OF *(1,2) refl, where d = d and ys = ys and e = e] q *(3) by simp
        qed
      qed
    qed
  qed
qed

lemma refused_guarded:
  assumes "refused ep cs xs" and "distinct cs"
    and "\<forall>c \<in> set us. \<forall>e k r. c = DCollect e k r \<longrightarrow> k \<notin> set cs \<and> (\<exists>err. r = Inl err)"
  shows "guarded (handle_permitted s ep) us xs"
  using assms
proof (induction cs arbitrary: us xs)
  case (Cons c cs)
  then obtain err rest where xs: "xs = DCollect ep c (Inl err) # rest" "refused ep cs rest" by auto
  have "guarded (handle_permitted s ep) (us @ [DCollect ep c (Inl err)]) rest"
    by (rule Cons.IH [OF xs(2)]) (use Cons.prems(2,3) in auto)
  moreover have "handle_permitted s ep us (DCollect ep c (Inl err))" using Cons.prems(3) by auto
  ultimately show ?case using xs(1) by simp
qed simp

lemma chain_distinct: "distinct (chain_spec wk ep r)"
  unfolding chain_spec_def using first_occurrences_distinct by blast

lemma sync_call_permitted:
  assumes "sync_permitted (auth_key s ep d) (resource_key s ep d) us x" and "secret_data c x"
    and "DCollect ep c (Inr (Some d)) \<in> set us"
  shows "handle_permitted s ep us x"
proof (cases "(\<exists>k r. x = DGetCredentials k r) \<or> (\<exists>e k r. x = DCollect e k r)")
  case True
  with assms(1) show ?thesis by auto
next
  case False
  then have "handle_permitted s ep us x = (\<exists>d creds. DCollect ep creds (Inr (Some d)) \<in> set us
     \<and> sync_permitted (auth_key s ep d) (resource_key s ep d) us x \<and> secret_data creds x)"
    by (cases x) (simp_all del: sync_permitted.simps)
  with assms show ?thesis by blast
qed

lemma tries_guarded:
  assumes "refused ep pre us" and "distinct pre"
  shows "guarded (handle_permitted s ep) [] (DGetCredentials k cr # us)"
  using refused_guarded [OF assms, of "[DGetCredentials k cr]"] by simp

lemma attempt_guarded:
  assumes "refused ep pre us" and "distinct (pre @ c # post)"
  shows "guarded (handle_permitted s ep) [] (DGetCredentials k cr # us @ [DCollect ep c a])"
  using tries_guarded [OF assms(1), of s k cr] refused_mem [OF assms(1)] assms(2) by fastforce

lemma handled_permitted:
  assumes "handled wk ep r xs"
  shows "guarded (handle_permitted (WorkerSyncer wk) ep) [] xs"
  using assms
proof cases
  case (all_refused cr us err)
  then show ?thesis using tries_guarded [OF _ chain_distinct] by simp
next
  case (nil_device cr pre c post us)
  have "distinct (pre @ c # post)" using chain_distinct [of wk ep cr] nil_device(3) by simp
  then show ?thesis unfolding nil_device(2) by (rule attempt_guarded [OF nil_device(4)])
next
  case (synced cr pre c post us before d ys e)
  have "distinct (pre @ c # post)" using chain_distinct [of wk ep cr] synced(3) by simp
  then have "guarded (handle_permitted (WorkerSyncer wk) ep) [] before"
    unfolding synced(5) by (rule attempt_guarded [OF synced(4)])
  moreover have "handle_permitted (WorkerSyncer wk) ep (before @ vs) x"
    if "bmc_permitted (WorkerSyncer wk) ep d (before @ vs) x" "secret_data c x" for vs x
    by (rule sync_call_permitted [OF that]) (simp add: synced(5))
  ultimately show ?thesis using guarded_all [OF synced(6,7)] synced(2) by simp
qed

section \<open>Where a handled key's writes come from\<close>

definition is_write :: "discovery_call \<Rightarrow> bool" where
  "is_write c \<longleftrightarrow> (case c of DCreate _ _ \<Rightarrow> True | DApply _ _ \<Rightarrow> True | _ \<Rightarrow> False)"

text \<open>The world in which the attempt after the candidates \<open>pre\<close> is made: the secret was read in the world
  \<open>w\<close>, and each of them was tried.\<close>

definition attempt_world :: "'w sync_env \<Rightarrow> worker \<Rightarrow> endpoint \<Rightarrow> credentials list \<Rightarrow> 'w \<Rightarrow> 'w" where
  "attempt_world env wk ep pre w = fold (\<lambda>c w. snd (se_Collect env ep c w)) pre (snd (se_GetCredentials env (CredentialsSecret wk) w))"

lemma verified_run:
  "run_state (verify_candidates env ep cs e0) \<lparr>world = w, trace = t\<rparr> = (Verified d c, s') \<Longrightarrow>
     \<exists>pre post us. map cand_creds cs = pre @ c # post \<and> refused ep pre us
       \<and> trace s' = t @ us @ [DCollect ep c (Inr (Some d))]
       \<and> fst (se_Collect env ep c (fold (\<lambda>c w. snd (se_Collect env ep c w)) pre w)) = Inr (Some d)"
proof (induction cs arbitrary: e0 w t)
  case (Cons x cs)
  obtain r w' where r: "se_Collect env ep (cand_creds x) w = (r, w')" by fastforce
  show ?case
  proof (cases r)
    case (Inl err)
    with Cons.prems r have "run_state (verify_candidates env ep cs (Some err))
        \<lparr>world = w', trace = t @ [DCollect ep (cand_creds x) (Inl err)]\<rparr> = (Verified d c, s')" by simp
    from Cons.IH [OF this] obtain pre post us where
      *: "map cand_creds cs = pre @ c # post" "refused ep pre us"
        "trace s' = t @ (DCollect ep (cand_creds x) (Inl err) # us) @ [DCollect ep c (Inr (Some d))]"
        "fst (se_Collect env ep c (fold (\<lambda>c w. snd (se_Collect env ep c w)) pre w')) = Inr (Some d)" by auto
    show ?thesis
      by (rule exI [of _ "cand_creds x # pre"], rule exI [of _ post],
          rule exI [of _ "DCollect ep (cand_creds x) (Inl err) # us"]) (use * r in simp)
  next
    case (Inr dev)
    with Cons.prems r have "dev = Some d" "c = cand_creds x" "s' = \<lparr>world = w', trace = t @ [DCollect ep (cand_creds x) r]\<rparr>"
      by (auto split: option.splits)
    with Inr r show ?thesis
      by (intro exI [of _ "[]"] exI [of _ "map cand_creds cs"]) simp
  qed
qed simp

lemma attempts_write_nothing: "refused ep pre us \<Longrightarrow> x \<in> set us \<Longrightarrow> \<not> is_write x"
  using refused_mem by (fastforce simp: is_write_def)

text \<open>One handling, from the world \<open>w\<close>, in which the call \<open>c\<close> was made after the calls \<open>us\<close>: the secret
  had been read, some candidates of the chain refused, and the device \<open>d\<close> collected with the next one
  \<open>creds\<close> in the world they had left; since then, only this sync's own calls.\<close>

definition verified_write :: "'w sync_env \<Rightarrow> worker \<Rightarrow> endpoint \<Rightarrow> 'w \<Rightarrow> discovery_call list \<Rightarrow> discovery_call
    \<Rightarrow> device \<Rightarrow> credentials \<Rightarrow> credentials list \<Rightarrow> bool" where
  "verified_write env wk ep w us c d creds pre \<longleftrightarrow> (\<exists>cr post tries ys.
     us = DGetCredentials (CredentialsSecret wk) cr # tries @ DCollect ep creds (Inr (Some d)) # ys
     \<and> chain_spec wk ep cr = pre @ creds # post \<and> refused ep pre tries
     \<and> fst (se_Collect env ep creds (attempt_world env wk ep pre w)) = Inr (Some d)
     \<and> bmc_permitted (WorkerSyncer wk) ep d us c
     \<and> writes_bmc (WorkerSyncer wk) ep d creds c)"

lemma handle_writes:
  assumes "known key = Some ep0"
    and run: "run_state (handle env wk known key) \<lparr>world = w, trace = []\<rparr> = (r, s')"
    and t: "trace s' = us @ c # vs" "is_write c"
  shows "\<exists>d creds pre. verified_write env wk (effective_endpoint wk ep0) w us c d creds pre"
proof -
  let ?ep = "effective_endpoint wk ep0" and ?s = "WorkerSyncer wk"
  obtain cr w1 where g: "se_GetCredentials env (CredentialsSecret wk) w = (cr, w1)" by fastforce
  let ?read = "DGetCredentials (CredentialsSecret wk) cr" and ?cs = "default_candidates wk ?ep (secret_candidates cr)"
  obtain v s1 where v: "run_state (verify_candidates env ?ep ?cs None) \<lparr>world = w1, trace = [?read]\<rparr> = (v, s1)" by fastforce
  from yields_run [OF verify_candidates_spec v] obtain xs where
    xs: "trace s1 = ?read # xs" "verified_by ?ep (chain_spec wk ?ep cr) v xs" by (auto simp: candidates_spec)
  note h = run [unfolded handle_def assms(1) option.case Let_def credentialCandidates_def]
  have quiet: "\<not> is_write x" if "x \<in> set (trace s1)" for x
    using that xs attempts_write_nothing by (cases v) (auto simp: verified_by_def is_write_def)
  have cw: "c \<in> set (trace s')" using t(1) by simp
  obtain d creds where V: "v = Verified d creds" and ne: "?cs \<noteq> []"
  proof (cases "?cs = []")
    case True
    with h g have "trace s' = [?read]" by auto
    with cw t(2) show ?thesis by (simp add: is_write_def)
  next
    case False
    with h g v cw t(2) quiet that show ?thesis by (cases v) auto
  qed
  obtain e s2 where sync: "run_state (Sync env ?s ?ep (Some d) creds) s1 = (e, s2)" by fastforce
  with h g v V ne have s2: "trace s' = trace s2" by simp
  from verified_run [OF v [unfolded V]] obtain pre post tries where
    *: "chain_spec wk ?ep cr = pre @ creds # post" "refused ?ep pre tries"
      "trace s1 = ?read # tries @ [DCollect ?ep creds (Inr (Some d))]"
      "fst (se_Collect env ?ep creds (attempt_world env wk ?ep pre w)) = Inr (Some d)"
    by (auto simp: candidates_spec attempt_world_def g)
  have "yields (Sync env ?s ?ep (Some d) creds) (\<lambda>e ys. (guarded (bmc_permitted ?s ?ep d) (trace s1) ys
      \<and> set (trace s1) \<subseteq> set (trace s1 @ ys) \<and> (e = None \<longrightarrow> all_settled ?s ?ep d (trace s1 @ ys)))
      \<and> (\<forall>y \<in> set ys. writes_bmc ?s ?ep d creds y))"
    by (rule triple_conj [OF Sync_follows [unfolded follows_def] Sync_of_bmc])
  from yields_run [OF this sync] obtain ys where
    ys: "trace s2 = trace s1 @ ys" "guarded (bmc_permitted ?s ?ep d) (trace s1) ys"
      "\<forall>y \<in> set ys. writes_bmc ?s ?ep d creds y" by auto
  have "\<exists>ys1. us = trace s1 @ ys1 \<and> ys = ys1 @ c # vs"
    using t(1) quiet t(2) unfolding s2 ys(1) by (auto simp: append_eq_append_conv2 append_eq_Cons_conv)
  then obtain ys1 where ys1: "us = trace s1 @ ys1" "ys = ys1 @ c # vs" by blast
  with ys(2,3) have "bmc_permitted ?s ?ep d us c" "writes_bmc ?s ?ep d creds c" by simp_all
  moreover have "us = ?read # tries @ DCollect ?ep creds (Inr (Some d)) # ys1" unfolding ys1(1) *(3) by simp
  ultimately have "verified_write env wk ?ep w us c d creds pre"
    using *(1,2,4) unfolding verified_write_def by blast
  then show ?thesis by blast
qed

context verified_collector
begin

lemma write_accepted:
  assumes "se_Collect env = collect" and "verified_write env wk ep w us c d creds pre"
  shows "accepts ep creds (attempt_world env wk ep pre w)"
  using assms collected_accepted unfolding verified_write_def by blast

end

section \<open>Invariants of every run\<close>

fun observations :: "worker_event list \<Rightarrow> endpoint list" where
  "observations [] = []"
| "observations (Observed ep # es) = ep # observations es"
| "observations (_ # es) = observations es"

text \<open>The endpoint last observed under a key.\<close>

definition last_observed :: "worker_event list \<Rightarrow> string \<Rightarrow> endpoint option" where
  "last_observed es = map_of (rev (map (\<lambda>ep. (Key ep, ep)) (observations es)))"

lemma observations_snoc:
  "observations (es @ [e]) = observations es @ (case e of Observed ep \<Rightarrow> [ep] | _ \<Rightarrow> [])"
  by (induction es rule: observations.induct) (auto split: worker_event.splits)

lemma observations_set: "ep \<in> set (observations es) \<longleftrightarrow> Observed ep \<in> set es"
  by (induction es rule: observations.induct) auto

lemma last_observed_snoc:
  "last_observed (es @ [e]) = (case e of Observed ep \<Rightarrow> (last_observed es)(Key ep \<mapsto> ep) | _ \<Rightarrow> last_observed es)"
  by (cases e) (auto simp: last_observed_def observations_snoc)

lemma last_observed_SomeD: "last_observed es k = Some ep \<Longrightarrow> Observed ep \<in> set es \<and> Key ep = k"
  by (auto simp: last_observed_def observations_set dest!: map_of_SomeD)


definition worker_inv :: "worker_event list \<Rightarrow> 'w worker_state \<Rightarrow> bool" where
  "worker_inv es st \<longleftrightarrow> ws_known st = last_observed es
     \<and> (\<forall>k. offered st k \<longrightarrow> k \<in> dom (ws_known st))
     \<and> (\<forall>ep. Observed ep \<in> set es \<longrightarrow> QAdd (Key ep) \<in> set (ws_queue st))"

lemma offered_simps:
  "offered (observe ep st) k \<longleftrightarrow> k = Key ep \<or> offered st k"
  "offered (resync keys st) k \<longleftrightarrow> k \<in> set keys \<or> offered st k"
  "offered (st\<lparr>ws_queue := ws_queue st @ process_calls key e, ws_world := w, ws_calls := cs\<rparr>) k
     \<longleftrightarrow> offered st k \<or> k = key \<and> e \<noteq> None"
  by (auto simp: offered_def observe_def resync_def process_calls_def split: option.splits)

lemma worker_step_inv:
  assumes "worker_step env wk st e st'" and inv: "worker_inv es st"
  shows "worker_inv (es @ [e]) st'"
  using assms(1)
proof cases
  case (step_observe ep)
  with inv show ?thesis
    by (auto simp: worker_inv_def last_observed_snoc offered_simps) (auto simp: observe_def)
next
  case (step_tick keys)
  with inv show ?thesis
    by (auto simp: worker_inv_def last_observed_snoc offered_simps) (auto simp: resync_def)
next
  case (step_process key r s')
  with inv have "key \<in> dom (ws_known st)" unfolding worker_inv_def by blast
  with inv step_process show ?thesis
    unfolding worker_inv_def last_observed_snoc by (auto simp: offered_simps)
qed

lemma worker_run_inv: "worker_run env wk es st \<Longrightarrow> worker_inv es st"
proof (induction rule: worker_run.induct)
  case (run_start w)
  show ?case by (simp add: worker_inv_def start_state_def last_observed_def offered_def)
next
  case (run_step es st e st')
  then show ?case by (blast intro: worker_step_inv)
qed

text \<open>Every write of a run comes from one handling, begun in a state that the run went through, of a key
  whose endpoint was then the latest observed.\<close>

lemma run_writes:
  "worker_run env wk es st \<Longrightarrow> ws_calls st = before @ c # after \<Longrightarrow> is_write c \<Longrightarrow>
     \<exists>es1 key es2 st1 ep us d creds pre. es = es1 @ Processed key # es2 \<and> worker_run env wk es1 st1
       \<and> last_observed es1 key = Some ep \<and> before = ws_calls st1 @ us
       \<and> verified_write env wk (effective_endpoint wk ep) (ws_world st1) us c d creds pre"
proof (induction arbitrary: after rule: worker_run.induct)
  case (run_start w)
  then show ?case by (simp add: start_state_def)
next
  case (run_step es st e st')
  show ?case
  proof (cases "\<exists>vs. ws_calls st = before @ c # vs")
    case True
    then obtain vs where "ws_calls st = before @ c # vs" by blast
    from run_step.IH [OF this run_step.prems(2)] obtain es1 key es2 where "es = es1 @ Processed key # es2"
      "\<exists>st1 ep us d creds pre. worker_run env wk es1 st1 \<and> last_observed es1 key = Some ep \<and> before = ws_calls st1 @ us
         \<and> verified_write env wk (effective_endpoint wk ep) (ws_world st1) us c d creds pre" by blast
    then show ?thesis by (intro exI [of _ es1] exI [of _ key] exI [of _ "es2 @ [e]"]) simp
  next
    case False
    from run_step.hyps(2) False run_step.prems(1) obtain key r s' where e: "e = Processed key" and
      run: "run_state (handle env wk (ws_known st) key) \<lparr>world = ws_world st, trace = []\<rparr> = (Some r, s')"
        and o: "offered st key" and c: "ws_calls st @ trace s' = before @ c # after"
      by cases (auto simp: observe_def resync_def)
    have inv: "worker_inv es st" by (rule worker_run_inv [OF run_step.hyps(1)])
    with o obtain ep where ep: "ws_known st key = Some ep" unfolding worker_inv_def by blast
    from c False obtain us where us: "before = ws_calls st @ us" "trace s' = us @ c # after"
      by (auto simp: append_eq_append_conv2 append_eq_Cons_conv Cons_eq_append_conv)
    from handle_writes [where known = "ws_known st", OF ep run us(2) run_step.prems(2)] inv ep us(1) e run_step.hyps(1)
    show ?thesis unfolding worker_inv_def
      by (intro exI [of _ es] exI [of _ key] exI [of _ "[]"] exI [of _ st] exI [of _ ep] exI [of _ us]) auto
  qed
qed

section \<open>Properties\<close>

fun tried :: "discovery_call list \<Rightarrow> credentials list" where
  "tried [] = []"
| "tried (DCollect _ creds _ # cs) = creds # tried cs"
| "tried (_ # cs) = tried cs"

lemma tried_append: "tried (us @ vs) = tried us @ tried vs"
  by (induction us rule: tried.induct) auto

lemma tried_mem: "k \<in> set (tried us) \<Longrightarrow> \<exists>e r. DCollect e k r \<in> set us"
  by (induction us rule: tried.induct) auto

lemma tried_distinct:
  "guarded (handle_permitted s ep) us xs \<Longrightarrow> distinct (tried us) \<Longrightarrow> distinct (tried (us @ xs))"
proof (induction xs arbitrary: us)
  case (Cons x xs)
  have "distinct (tried (us @ [x]))"
  proof (cases x)
    case (DCollect e k r)
    with Cons.prems(1) have "k \<notin> set (tried us)" using tried_mem by fastforce
    with Cons.prems(2) DCollect show ?thesis by (simp add: tried_append)
  qed (use Cons.prems(2) in \<open>simp_all add: tried_append\<close>)
  with Cons.IH [of "us @ [x]"] Cons.prems(1) show ?case by simp
qed simp

text \<open>C17: The credential chain. A key whose endpoint is known is handled by reading the credentials
  secret and trying, in order and each at most once, the secret's pair, the default of the service type
  and the wildcard default, until one is accepted: when all are refused the run fails without any
  further call; otherwise the device of the accepted attempt is synced with exactly those credentials,
  and a run that reports success has settled all of its objects. The credentials tried are distinct.\<close>

theorem handle_pivots_through_candidates:
  assumes "known key = Some ep" and "run_state (handle env wk known key) \<lparr>world = w, trace = []\<rparr> = (r, s')"
  shows "handled wk (effective_endpoint wk ep) r (trace s')
    \<and> distinct (tried (trace s'))"
proof -
  have h: "handled wk (effective_endpoint wk ep) r (trace s')"
    by (rule yields_run_empty [OF handle_handled assms(2)]) (rule assms(1))
  with tried_distinct [OF handled_permitted [OF h]] show ?thesis by simp
qed

text \<open>A worker with a default for every service whose pair the BMC refuses, and the pair it accepts as
  the wildcard; the BMC is the one of the sample sync.\<close>

definition sample_worker :: worker where
  "sample_worker = \<lparr>CredentialsSecret = \<lparr>key_namespace = ''tink'', key_name = ''bmc-discovery-credentials''\<rparr>,
     DefaultCredentials = [EpService sample_endpoint \<mapsto> \<lparr>Username = ''root'', Password = ''0penBmc''\<rparr>, WildcardService \<mapsto> sample_creds],
     RedfishPort = 0, WorkerSyncer = sample_syncer\<rparr>"

definition sample_handle :: "go_error option option \<times> (unit, discovery_call) st" where
  "sample_handle = run_state (handle (sample_sync_env None) sample_worker [Key sample_endpoint \<mapsto> sample_endpoint] (Key sample_endpoint))
     \<lparr>world = (), trace = []\<rparr>"

lemma sample_chain:
  "default_candidates sample_worker sample_endpoint [] = [
     \<lparr>cand_creds = \<lparr>Username = ''root'', Password = ''0penBmc''\<rparr>, cand_source = ''service default''\<rparr>,
     \<lparr>cand_creds = sample_creds, cand_source = ''global default''\<rparr>]"
  by (simp add: default_candidates_def sample_worker_def add_candidate_def sample_creds_def sample_endpoint_def WildcardService_def)

lemma sample_effective: "effective_endpoint sample_worker sample_endpoint = sample_endpoint"
  by (simp add: effective_endpoint_def sample_worker_def)

theorem handle_pivots_through_candidates_witness:
  "handled sample_worker sample_endpoint (fst sample_handle) (trace (snd sample_handle))
    \<and> (\<exists>ys. tried (trace (snd sample_handle)) = [\<lparr>Username = ''root'', Password = ''0penBmc''\<rparr>, sample_creds] @ ys)"
proof -
  let ?known = "[Key sample_endpoint \<mapsto> sample_endpoint]"
  obtain r s' where run: "sample_handle = (r, s')" by fastforce
  have k: "?known (Key sample_endpoint) = Some sample_endpoint" by simp
  have h: "handled sample_worker sample_endpoint r (trace s')"
    using handle_pivots_through_candidates [OF k run [unfolded sample_handle_def]] by (simp add: sample_effective)
  obtain e s2 where sync: "run_state (Sync (sample_sync_env None) (WorkerSyncer sample_worker) sample_endpoint (Some sample_nic_device) sample_creds)
      \<lparr>world = (), trace = [DGetCredentials (CredentialsSecret sample_worker) (Inl NotFound),
         DCollect sample_endpoint \<lparr>Username = ''root'', Password = ''0penBmc''\<rparr> (Inl (OtherError ''401'')),
         DCollect sample_endpoint sample_creds (Inr (Some sample_nic_device))]\<rparr> = (e, s2)" by fastforce
  have env: "se_GetCredentials (sample_sync_env None) = (\<lambda>_ w. (Inl NotFound, w))"
    "se_Collect (sample_sync_env None) = (\<lambda>_ creds w. (if creds = sample_creds then Inr (Some sample_nic_device) else Inl (OtherError ''401''), w))"
    by (simp_all add: sample_sync_env_def)
  have ne: "\<lparr>Username = ''root'', Password = ''0penBmc''\<rparr> \<noteq> sample_creds" by (simp add: sample_creds_def)
  have "sample_handle = (Some e, s2)"
    unfolding sample_handle_def handle_def k option.case Let_def sample_effective credentialCandidates_def
    using sync by (simp add: env sample_chain ne)
  then have t1: "snd sample_handle = s2" by (rule ssubst) (rule snd_conv)
  obtain xs where t2: "trace s2 = [DGetCredentials (CredentialsSecret sample_worker) (Inl NotFound),
         DCollect sample_endpoint \<lparr>Username = ''root'', Password = ''0penBmc''\<rparr> (Inl (OtherError ''401'')),
         DCollect sample_endpoint sample_creds (Inr (Some sample_nic_device))] @ xs"
    using yields_run [OF Sync_data sync] by auto
  have "tried (trace (snd sample_handle)) = [\<lparr>Username = ''root'', Password = ''0penBmc''\<rparr>, sample_creds] @ tried xs"
    unfolding t1 t2 by simp
  with h run show ?thesis by (metis fst_conv snd_conv)
qed

text \<open>C7: No resource without a verified BMC, end to end. With the bmclib collector, every create or
  apply at any place in any run of the worker belongs to one handling of a key, begun in a state \<open>st1\<close>
  the run went through; the endpoint is the one last observed under that key by then. The calls that
  this handling made before the write are the read of the credentials secret, the attempts with the
  candidates of the chain before the one that counts, each refused, and that attempt at the same
  endpoint: in the world in which it was made the BMC opened a session for these credentials and
  the collector returned the device. What is written is what the sync of this endpoint, this device and
  these credentials desires, and a call its protocol permits: the object's name and namespace, a secret with exactly these
  credentials, a machine with the desired spec, a hardware with the desired spec but for netboot.\<close>

theorem worker_writes_only_verified:
  assumes "worker_run env wk es st" and "se_Collect env = collect_with ienv"
    and "ws_calls st = before @ c # after" and "is_write c"
  shows "\<exists>es1 key es2 st1 ep0 ep cr pre creds post tries w d ys.
     es = es1 @ Processed key # es2 \<and> worker_run env wk es1 st1
     \<and> last_observed es1 key = Some ep0 \<and> ep = effective_endpoint wk ep0
     \<and> before = ws_calls st1 @ DGetCredentials (CredentialsSecret wk) cr # tries @ DCollect ep creds (Inr (Some d)) # ys
     \<and> chain_spec wk ep cr = pre @ creds # post \<and> refused ep pre tries
     \<and> w = attempt_world env wk ep pre (ws_world st1)
     \<and> bmc_accepts ienv ep creds w \<and> fst (collect_with ienv ep creds w) = Inr (Some d)
     \<and> sync_permitted (auth_key (WorkerSyncer wk) ep d) (resource_key (WorkerSyncer wk) ep d)
         (drop (length (ws_calls st1)) before) c
     \<and> writes_bmc (WorkerSyncer wk) ep d creds c \<and> secret_data creds c"
proof -
  from run_writes [OF assms(1,3,4)] obtain es1 key es2 st1 ep0 us d creds pre where
    r: "es = es1 @ Processed key # es2" "worker_run env wk es1 st1" "last_observed es1 key = Some ep0" "before = ws_calls st1 @ us"
      and v: "verified_write env wk (effective_endpoint wk ep0) (ws_world st1) us c d creds pre" by blast
  let ?ep = "effective_endpoint wk ep0"
  from v obtain cr post tries ys where
    u: "us = DGetCredentials (CredentialsSecret wk) cr # tries @ DCollect ?ep creds (Inr (Some d)) # ys"
      "chain_spec wk ?ep cr = pre @ creds # post" "refused ?ep pre tries"
      "bmc_permitted (WorkerSyncer wk) ?ep d us c" "writes_bmc (WorkerSyncer wk) ?ep d creds c"
    and col: "fst (collect_with ienv ?ep creds (attempt_world env wk ?ep pre (ws_world st1))) = Inr (Some d)"
    unfolding verified_write_def assms(2) by blast
  from u(4) r(4) have "bmc_permitted (WorkerSyncer wk) ?ep d (drop (length (ws_calls st1)) before) c" by simp
  with r u(1-3,5) col bmclib.write_accepted [OF assms(2) v] secret_of_bmc [OF u(5)] show ?thesis by blast
qed

text \<open>The sample BMC again, behind the bmclib collector, losing the race for its secret.\<close>

definition sample_race_env :: "unit sync_env" where
  "sample_race_env = (sample_sync_env None)\<lparr>se_Create := (\<lambda>_ _ w. (Some AlreadyExists, w)), se_Collect := collect_with sample_inv_env\<rparr>"

lemma sample_collect: "\<exists>d. collect_with sample_inv_env sample_endpoint creds () = (Inr (Some d), ())"
  by (simp add: collect_with_def Collect_def Let_def sample_inv_env_def enrichNICs_def sample_device_def hasNICMAC_def)

lemma sample_race:
  "\<exists>us sec. run_state (handle sample_race_env sample_worker [Key sample_endpoint \<mapsto> sample_endpoint] (Key sample_endpoint))
     \<lparr>world = (), trace = []\<rparr> = (Some (Some (Wrap ''syncing auth secret'' AlreadyExists)),
       \<lparr>world = (), trace = us @ [DCreate (SecretObject sec) (Some AlreadyExists)]\<rparr>)"
proof -
  obtain d where d: "collect_with sample_inv_env sample_endpoint \<lparr>Username = ''root'', Password = ''0penBmc''\<rparr> () = (Inr (Some d), ())"
    using sample_collect by blast
  obtain sec m h where o: "desired_objects (WorkerSyncer sample_worker) sample_endpoint d \<lparr>Username = ''root'', Password = ''0penBmc''\<rparr> = (sec, m, h)"
    by (metis prod_cases3)
  have env: "se_GetCredentials sample_race_env = (\<lambda>_ w. (Inl NotFound, w))" "se_Collect sample_race_env = collect_with sample_inv_env"
    "se_Now sample_race_env = (\<lambda>w. (0, w))" "se_Create sample_race_env = (\<lambda>_ _ w. (Some AlreadyExists, w))"
    "se_Get sample_race_env SecretKind key w = (Inl NotFound, w)" for key w
    by (simp_all add: sample_race_env_def sample_sync_env_def)
  have k: "[Key sample_endpoint \<mapsto> sample_endpoint] (Key sample_endpoint) = Some sample_endpoint" by simp
  show ?thesis
    unfolding handle_def k option.case Let_def sample_effective credentialCandidates_def
    by (simp add: env sample_chain d Sync_def o applyManaged_def stampOwnership_def)
qed

text \<open>The endpoint observed and its key handled.\<close>

lemma sample_race_run:
  "\<exists>es st sec. worker_run sample_race_env sample_worker es st \<and> observations es = [sample_endpoint]
     \<and> DCreate (SecretObject sec) (Some AlreadyExists) \<in> set (ws_calls st)"
proof -
  let ?s1 = "observe sample_endpoint (start_state ())"
  obtain us sec where run: "run_state (handle sample_race_env sample_worker (ws_known ?s1) (Key sample_endpoint))
     \<lparr>world = ws_world ?s1, trace = []\<rparr> = (Some (Some (Wrap ''syncing auth secret'' AlreadyExists)),
       \<lparr>world = (), trace = us @ [DCreate (SecretObject sec) (Some AlreadyExists)]\<rparr>)"
    using sample_race by (auto simp: observe_def start_state_def)
  have "worker_run sample_race_env sample_worker ([] @ [Observed sample_endpoint]) ?s1"
    by (rule run_step [OF run_start step_observe])
  moreover have "offered ?s1 (Key sample_endpoint)" by (simp add: offered_def observe_def)
  ultimately show ?thesis
    using run_step [OF _ step_process [OF _ run]] by (fastforce simp: observe_def start_state_def)
qed

theorem worker_writes_only_verified_witness:
  "\<exists>es st before c after w creds d. worker_run sample_race_env sample_worker es st
     \<and> ws_calls st = before @ c # after \<and> is_write c
     \<and> DCollect sample_endpoint creds (Inr (Some d)) \<in> set before \<and> bmc_accepts sample_inv_env sample_endpoint creds w
     \<and> writes_bmc sample_syncer sample_endpoint d creds c"
proof -
  from sample_race_run obtain es st sec where r: "worker_run sample_race_env sample_worker es st"
    "observations es = [sample_endpoint]" "DCreate (SecretObject sec) (Some AlreadyExists) \<in> set (ws_calls st)" by blast
  let ?c = "DCreate (SecretObject sec) (Some AlreadyExists)"
  have w: "is_write ?c" by (simp add: is_write_def)
  have col: "se_Collect sample_race_env = collect_with sample_inv_env" by (simp add: sample_race_env_def)
  from r(3) obtain before after where split: "ws_calls st = before @ ?c # after" by (auto dest: split_list)
  have ob: "ep = sample_endpoint" if "last_observed es1 key = Some ep" "es = es1 @ Processed key # es2" for ep es1 es2 key
    using last_observed_SomeD [OF that(1)] that(2) r(2) observations_set [of ep es] by simp
  have syncer: "WorkerSyncer sample_worker = sample_syncer" by (simp add: sample_worker_def)
  from worker_writes_only_verified [OF r(1) col split w] ob sample_effective syncer obtain w creds d where
    "DCollect sample_endpoint creds (Inr (Some d)) \<in> set before" "bmc_accepts sample_inv_env sample_endpoint creds w"
    "writes_bmc sample_syncer sample_endpoint d creds ?c" by (metis in_set_conv_decomp append_Cons append_assoc)
  with r(1) split w show ?thesis by blast
qed

text \<open>C20: The shared map and the queue. In every run, the map of known endpoints holds exactly the
  endpoints observed so far, each under its own key and in its latest form; every key the queue can
  hand to \<open>handle\<close> is in the map, so the lookup there never misses, and the endpoint it yields is the
  latest observation; and every observed key has been offered to the queue.\<close>

theorem worker_knows_the_latest:
  assumes "worker_run env wk es st"
  shows "ws_known st = last_observed es
    \<and> (\<forall>k. offered st k \<longrightarrow> (\<exists>ep. ws_known st k = Some ep \<and> Key ep = k \<and> Observed ep \<in> set es))
    \<and> (\<forall>ep. Observed ep \<in> set es \<longrightarrow> offered st (Key ep))"
  using worker_run_inv [OF assms] last_observed_SomeD unfolding worker_inv_def offered_def by (metis domD)

theorem worker_knows_the_latest_witness:
  "ws_known (observe (sample_endpoint\<lparr>EpPort := 8443\<rparr>) (observe sample_endpoint (start_state ()))) (Key sample_endpoint)
     = Some (sample_endpoint\<lparr>EpPort := 8443\<rparr>)"
proof -
  have "worker_run sample_race_env sample_worker (([] @ [Observed sample_endpoint]) @ [Observed (sample_endpoint\<lparr>EpPort := 8443\<rparr>)])
      (observe (sample_endpoint\<lparr>EpPort := 8443\<rparr>) (observe sample_endpoint (start_state ())))"
    by (rule run_step [OF run_step [OF run_start step_observe] step_observe])
  from worker_knows_the_latest [OF this] show ?thesis by (simp add: last_observed_def Key_def)
qed



end
