(* ===== verification/Qualify.thy ===== *)
theory Qualify
  imports KubeTypes
begin

text \<open>
  The CAPI Machine as the teardown controller reads it, the annotation keys of
  \<open>internal/teardown/teardown.go\<close>, and the pure predicates of \<open>internal/teardown/qualify.go\<close>: which
  Machines are serviced, when a hook may be stamped, when the controller may act, and how the
  pre-terminate hook keys are divided into its own, its left-overs and foreign ones.

  The named constants of cluster-api the code compares with are constructors (condition types,
  reasons, address types), every other value being an \<open>Other...\<close>; label and annotation keys are the
  literal strings \<open>docs/talos-machine-teardown.md\<close> gives for them.
\<close>

section \<open>The CAPI Machine\<close>

datatype address_type =
    MachineHostName
  | MachineInternalIP
  | MachineExternalIP
  | OtherAddressType string

datatype condition_type = MachineDeletingCondition | OtherCondition string
datatype condition_status = ConditionTrue | ConditionFalse | ConditionUnknown

datatype deleting_reason =
    NoReason
  | MachineDeletingReason
  | MachineDeletingWaitingForPreDrainHookReason
  | MachineDeletingDrainingNodeReason
  | MachineDeletingWaitingForVolumeDetachReason
  | MachineDeletingWaitingForPreTerminateHookReason
  | OtherReason string

record condition =
  CondType :: condition_type
  CondStatus :: condition_status
  CondReason :: deleting_reason

record machine =
  m_Meta :: object_meta
  m_ClusterName :: string
  m_BootstrapKind :: string
  m_BootstrapAPIGroup :: string
  m_InfraKind :: string
  m_InfraAPIGroup :: string
  m_InfraName :: string
  m_NodeRefName :: string
  m_Addresses :: "(address_type \<times> string) list"
  m_Conditions :: "condition list"

abbreviation m_Name :: "machine \<Rightarrow> string" where
  "m_Name m \<equiv> om_Name (m_Meta m)"
abbreviation m_Namespace :: "machine \<Rightarrow> string" where
  "m_Namespace m \<equiv> om_Namespace (m_Meta m)"
abbreviation m_Labels :: "machine \<Rightarrow> gomap" where
  "m_Labels m \<equiv> om_Labels (m_Meta m)"
abbreviation m_Annotations :: "machine \<Rightarrow> gomap" where
  "m_Annotations m \<equiv> om_Annotations (m_Meta m)"
abbreviation m_Deletion :: "machine \<Rightarrow> time option" where
  "m_Deletion m \<equiv> om_DeletionTimestamp (m_Meta m)"
abbreviation m_Creation :: "machine \<Rightarrow> time" where
  "m_Creation m \<equiv> om_CreationTimestamp (m_Meta m)"
abbreviation m_key :: "machine \<Rightarrow> object_key" where
  "m_key m \<equiv> meta_key (m_Meta m)"

definition SetAnnotations :: "gomap \<Rightarrow> machine \<Rightarrow> machine" where
  "SetAnnotations a m = m\<lparr>m_Meta := (m_Meta m)\<lparr>om_Annotations := a\<rparr>\<rparr>"

lemma SetAnnotations_sel [simp]:
  "m_Annotations (SetAnnotations a m) = a"
  "m_Labels (SetAnnotations a m) = m_Labels m"
  "m_Name (SetAnnotations a m) = m_Name m"
  "m_Namespace (SetAnnotations a m) = m_Namespace m"
  "m_Deletion (SetAnnotations a m) = m_Deletion m"
  "m_key (SetAnnotations a m) = m_key m"
  "m_ClusterName (SetAnnotations a m) = m_ClusterName m"
  "m_Conditions (SetAnnotations a m) = m_Conditions m"
  "m_Addresses (SetAnnotations a m) = m_Addresses m"
  "m_InfraName (SetAnnotations a m) = m_InfraName m"
  "m_NodeRefName (SetAnnotations a m) = m_NodeRefName m"
  "SetAnnotations a (SetAnnotations b m) = SetAnnotations a m"
  "SetAnnotations (m_Annotations m) m = m"
  by (simp_all add: SetAnnotations_def meta_key_def)

section \<open>Keys and phase conclusions (teardown.go)\<close>

definition Name :: string where "Name = ''talos-machine-teardown''"
definition PreTerminatePrefix :: string where
  "PreTerminatePrefix = ''pre-terminate.delete.hook.machine.cluster.x-k8s.io''"
definition HookAnnotation :: string where "HookAnnotation = PreTerminatePrefix @ ''/talos-teardown''"
definition HookValue :: string where "HookValue = Name"
definition ObservedAtAnnotation :: string where
  "ObservedAtAnnotation = ''teardown.tinkerbell.org/pre-terminate-observed-at''"
definition EtcdAnnotation :: string where "EtcdAnnotation = ''teardown.tinkerbell.org/etcd''"
definition ResetAnnotation :: string where "ResetAnnotation = ''teardown.tinkerbell.org/reset''"
definition ClusterNameLabel :: string where "ClusterNameLabel = ''teardown.tinkerbell.org/cluster-name''"
definition ClusterNamespaceLabel :: string where
  "ClusterNamespaceLabel = ''teardown.tinkerbell.org/cluster-namespace''"
definition EtcdLeavingAnnotation :: string where
  "EtcdLeavingAnnotation = ''controlplane.cluster.x-k8s.io/etcd-leaving''"
definition CapiClusterNameLabel :: string where "CapiClusterNameLabel = ''cluster.x-k8s.io/cluster-name''"
definition MachineControlPlaneLabel :: string where
  "MachineControlPlaneLabel = ''cluster.x-k8s.io/control-plane''"

definition EtcdNotMember :: string where "EtcdNotMember = ''not-member''"
definition EtcdLeft :: string where "EtcdLeft = ''left''"
definition EtcdRemoved :: string where "EtcdRemoved = ''removed''"
definition EtcdOrphaned :: string where "EtcdOrphaned = ''orphaned''"
definition EtcdSkippedClusterDelete :: string where "EtcdSkippedClusterDelete = ''skipped-cluster-delete''"
definition ResetDone :: string where "ResetDone = ''done''"
definition ResetSkippedTimeout :: string where "ResetSkippedTimeout = ''skipped-timeout''"
definition ResetSkippedNoAddress :: string where "ResetSkippedNoAddress = ''skipped-no-address''"

lemmas conclusion_defs = EtcdNotMember_def EtcdLeft_def EtcdRemoved_def EtcdOrphaned_def
  EtcdSkippedClusterDelete_def ResetDone_def ResetSkippedTimeout_def ResetSkippedNoAddress_def

lemma annotation_keys_distinct [simp]:
  "HookAnnotation \<noteq> ObservedAtAnnotation" "ObservedAtAnnotation \<noteq> HookAnnotation"
  "HookAnnotation \<noteq> EtcdAnnotation" "EtcdAnnotation \<noteq> HookAnnotation"
  "HookAnnotation \<noteq> ResetAnnotation" "ResetAnnotation \<noteq> HookAnnotation"
  "ObservedAtAnnotation \<noteq> EtcdAnnotation" "EtcdAnnotation \<noteq> ObservedAtAnnotation"
  "ObservedAtAnnotation \<noteq> ResetAnnotation" "ResetAnnotation \<noteq> ObservedAtAnnotation"
  "EtcdAnnotation \<noteq> ResetAnnotation" "ResetAnnotation \<noteq> EtcdAnnotation"
  "EtcdLeavingAnnotation \<noteq> ResetAnnotation" "EtcdLeavingAnnotation \<noteq> EtcdAnnotation"
  by (simp_all add: HookAnnotation_def PreTerminatePrefix_def ObservedAtAnnotation_def
      EtcdAnnotation_def ResetAnnotation_def EtcdLeavingAnnotation_def)

lemma phase_keys_not_hooks [simp]:
  "\<not> HasPrefix ObservedAtAnnotation PreTerminatePrefix"
  "\<not> HasPrefix EtcdAnnotation PreTerminatePrefix"
  "\<not> HasPrefix ResetAnnotation PreTerminatePrefix"
  by (simp_all add: HasPrefix_def PreTerminatePrefix_def ObservedAtAnnotation_def
      EtcdAnnotation_def ResetAnnotation_def)

lemma HookAnnotation_prefix [simp]: "HasPrefix HookAnnotation PreTerminatePrefix"
  by (simp add: HasPrefix_def HookAnnotation_def)

section \<open>The predicates (qualify.go)\<close>

definition Qualifies :: "machine \<Rightarrow> bool" where
  "Qualifies m \<longleftrightarrow> m_BootstrapKind m = ''TalosConfig''
     \<and> m_BootstrapAPIGroup m = ''bootstrap.cluster.x-k8s.io''
     \<and> m_InfraKind m = ''TinkerbellMachine''
     \<and> m_InfraAPIGroup m = ''infrastructure.cluster.x-k8s.io''"

definition HasHook :: "machine \<Rightarrow> bool" where
  "HasHook m \<longleftrightarrow> mhas (m_Annotations m) HookAnnotation"

fun deletingReason_in :: "condition list \<Rightarrow> deleting_reason" where
  "deletingReason_in [] = NoReason"
| "deletingReason_in (c # cs) =
     (if CondType c = MachineDeletingCondition \<and> CondStatus c = ConditionTrue then CondReason c
      else deletingReason_in cs)"

definition deletingReason :: "machine \<Rightarrow> deleting_reason" where
  "deletingReason m = deletingReason_in (m_Conditions m)"

fun preTerminateOrEarlier :: "deleting_reason \<Rightarrow> bool" where
  "preTerminateOrEarlier MachineDeletingReason = True"
| "preTerminateOrEarlier MachineDeletingWaitingForPreDrainHookReason = True"
| "preTerminateOrEarlier MachineDeletingDrainingNodeReason = True"
| "preTerminateOrEarlier MachineDeletingWaitingForVolumeDetachReason = True"
| "preTerminateOrEarlier MachineDeletingWaitingForPreTerminateHookReason = True"
| "preTerminateOrEarlier _ = False"

definition StampAllowed :: "machine \<Rightarrow> bool" where
  "StampAllowed m \<longleftrightarrow> (if m_Deletion m = None then True
     else let reason = deletingReason m in reason = NoReason \<or> preTerminateOrEarlier reason)"

definition AtPreTerminate :: "machine \<Rightarrow> bool" where
  "AtPreTerminate m \<longleftrightarrow> deletingReason m = MachineDeletingWaitingForPreTerminateHookReason"

fun other_hooks_in :: "gomap \<Rightarrow> bool" where
  "other_hooks_in [] = False"
| "other_hooks_in ((key, value) # rest) =
     (if key = HookAnnotation \<or> value = HookValue then other_hooks_in rest
      else if HasPrefix key PreTerminatePrefix then True
      else other_hooks_in rest)"

definition HasOtherPreTerminateHooks :: "machine \<Rightarrow> bool" where
  "HasOtherPreTerminateHooks m = other_hooks_in (m_Annotations m)"

fun legacy_hooks_in :: "gomap \<Rightarrow> string list" where
  "legacy_hooks_in [] = []"
| "legacy_hooks_in ((key, value) # rest) =
     (if key = HookAnnotation \<or> value \<noteq> HookValue then legacy_hooks_in rest
      else if HasPrefix key PreTerminatePrefix then key # legacy_hooks_in rest
      else legacy_hooks_in rest)"

definition legacyHookKeys :: "machine \<Rightarrow> string list" where
  "legacyHookKeys m = legacy_hooks_in (m_Annotations m)"

definition IsControlPlane :: "machine \<Rightarrow> bool" where
  "IsControlPlane m \<longleftrightarrow> mhas (m_Labels m) MachineControlPlaneLabel"

lemma SetAnnotations_pred [simp]:
  "Qualifies (SetAnnotations a m) = Qualifies m"
  "AtPreTerminate (SetAnnotations a m) = AtPreTerminate m"
  "StampAllowed (SetAnnotations a m) = StampAllowed m"
  "IsControlPlane (SetAnnotations a m) = IsControlPlane m"
  "HasHook (SetAnnotations a m) = mhas a HookAnnotation"
  "HasOtherPreTerminateHooks (SetAnnotations a m) = other_hooks_in a"
  "legacyHookKeys (SetAnnotations a m) = legacy_hooks_in a"
  by (simp_all add: Qualifies_def AtPreTerminate_def StampAllowed_def IsControlPlane_def HasHook_def
      HasOtherPreTerminateHooks_def legacyHookKeys_def deletingReason_def SetAnnotations_def)

lemma AtPreTerminate_StampAllowed: "AtPreTerminate m \<Longrightarrow> StampAllowed m"
  by (simp add: AtPreTerminate_def StampAllowed_def)

lemma other_hooks_iff: "other_hooks_in a \<longleftrightarrow>
    (\<exists>(k, v) \<in> set a. k \<noteq> HookAnnotation \<and> v \<noteq> HookValue \<and> HasPrefix k PreTerminatePrefix)"
  by (induction a rule: other_hooks_in.induct) auto

lemma legacy_hooks_iff: "k \<in> set (legacy_hooks_in a) \<longleftrightarrow>
    k \<noteq> HookAnnotation \<and> (k, HookValue) \<in> set a \<and> HasPrefix k PreTerminatePrefix"
  by (induction a rule: legacy_hooks_in.induct) auto

lemma phase_keys_not_legacy [simp]:
  "ObservedAtAnnotation \<notin> set (legacy_hooks_in a)" "EtcdAnnotation \<notin> set (legacy_hooks_in a)"
  "ResetAnnotation \<notin> set (legacy_hooks_in a)" "HookAnnotation \<notin> set (legacy_hooks_in a)"
  by (simp_all add: legacy_hooks_iff)

text \<open>Adding or changing a phase annotation leaves the hooks as they are.\<close>

lemma other_hooks_mput:
  assumes "k = HookAnnotation \<or> \<not> HasPrefix k PreTerminatePrefix"
  shows "other_hooks_in (mput k v a) \<longleftrightarrow> other_hooks_in a"
  unfolding mput_def using assms by (induction a) (auto split: if_splits)

section \<open>The hook keys\<close>

text \<open>What a release leaves: the controller's key and its left-overs go, the rest stays.\<close>

definition release_annotations :: "gomap \<Rightarrow> gomap" where
  "release_annotations a = mdelete_all (legacy_hooks_in (mdelete HookAnnotation a)) (mdelete HookAnnotation a)"

definition stamp_annotations :: "gomap \<Rightarrow> gomap" where
  "stamp_annotations a = (let a' = mput HookAnnotation HookValue a in mdelete_all (legacy_hooks_in a') a')"

lemma release_lookup:
  "wf_gomap a \<Longrightarrow> map_of (release_annotations a) k =
     (if k = HookAnnotation \<or> HasPrefix k PreTerminatePrefix \<and> map_of a k = Some HookValue then None
      else map_of a k)"
  by (auto simp: release_annotations_def legacy_hooks_iff wf_gomap_mem)

lemma stamp_lookup:
  "wf_gomap a \<Longrightarrow> map_of (stamp_annotations a) k =
     (if k = HookAnnotation then Some HookValue
      else if HasPrefix k PreTerminatePrefix \<and> map_of a k = Some HookValue then None
      else map_of a k)"
  by (auto simp: stamp_annotations_def Let_def legacy_hooks_iff wf_gomap_mem)

lemma wf_release [simp]: "wf_gomap a \<Longrightarrow> wf_gomap (release_annotations a)"
  by (simp add: release_annotations_def)

lemma wf_stamp [simp]: "wf_gomap a \<Longrightarrow> wf_gomap (stamp_annotations a)"
  by (simp add: stamp_annotations_def Let_def)

lemma mhas_release [simp]:
  "\<not> mhas (release_annotations a) HookAnnotation"
  "mhas (release_annotations a) ResetAnnotation = mhas a ResetAnnotation"
  "mhas (release_annotations a) EtcdAnnotation = mhas a EtcdAnnotation"
  by (simp_all add: release_annotations_def)

lemma mhas_stamp [simp]:
  "mhas (stamp_annotations a) HookAnnotation"
  "mhas (stamp_annotations a) ResetAnnotation = mhas a ResetAnnotation"
  "mhas (stamp_annotations a) EtcdAnnotation = mhas a EtcdAnnotation"
  by (simp_all add: stamp_annotations_def Let_def)

section \<open>Writers of annotations\<close>

text \<open>
  Every annotation write of the controller keeps the other controllers' keys: the contract of an
  annotation writer is the set of keys it may change, given the map it starts from. It is
  interpreted on the four writes of the code: stamping the hook, stamping a phase or the observation
  time, and the release.
\<close>

locale annotation_writer =
  fixes write_ann :: "gomap \<Rightarrow> gomap" and owned :: "string \<Rightarrow> string option \<Rightarrow> bool"
  assumes frame: "wf_gomap a \<Longrightarrow> \<not> owned k (map_of a k) \<Longrightarrow> map_of (write_ann a) k = map_of a k"
    and wf_write: "wf_gomap a \<Longrightarrow> wf_gomap (write_ann a)"
begin

lemma foreign_value_kept:
  "wf_gomap a \<Longrightarrow> \<not> owned k (map_of a k) \<Longrightarrow> mhas (write_ann a) k \<longleftrightarrow> mhas a k"
  by (simp add: mhas_def frame)

lemma foreign_hooks_kept:
  assumes "wf_gomap a" and "\<And>k v. owned k v \<Longrightarrow> HasPrefix k PreTerminatePrefix \<Longrightarrow> k = HookAnnotation \<or> v = Some HookValue"
    and "other_hooks_in a"
  shows "other_hooks_in (write_ann a)"
proof -
  from assms(3) obtain k v where kv: "(k, v) \<in> set a" "k \<noteq> HookAnnotation" "v \<noteq> HookValue"
    "HasPrefix k PreTerminatePrefix" by (auto simp: other_hooks_iff)
  then have m: "map_of a k = Some v" using assms(1) wf_gomap_mem by blast
  then have "\<not> owned k (map_of a k)" using assms(2) [of k] kv by auto
  with frame assms(1) m have "map_of (write_ann a) k = Some v" by simp
  then have "(k, v) \<in> set (write_ann a)" by (rule map_of_SomeD)
  with kv show ?thesis by (auto simp: other_hooks_iff)
qed

end

definition own_hook_key :: "string \<Rightarrow> string option \<Rightarrow> bool" where
  "own_hook_key k v \<longleftrightarrow> k = HookAnnotation \<or> HasPrefix k PreTerminatePrefix \<and> v = Some HookValue"

interpretation stamp_writer: annotation_writer stamp_annotations own_hook_key
  by unfold_locales (auto simp: stamp_lookup own_hook_key_def)

interpretation release_writer: annotation_writer release_annotations own_hook_key
  by unfold_locales (auto simp: release_lookup own_hook_key_def)

interpretation phase_writer: annotation_writer "mput key v" "\<lambda>k _. k = key"
  by unfold_locales auto

end
