(* ===== verification/EtcdMembers.thy ===== *)
theory EtcdMembers
  imports Qualify
begin

text \<open>
  \<open>internal/teardown/etcd.go\<close>: matching a Machine to an etcd member by host name, and reading the
  state of the etcd service from a ServiceInfo answer. A protobuf answer is the list of its
  messages, each with its list of members; the nil answer is \<^const>\<open>None\<close>.
\<close>

record etcd_member =
  MemberId :: nat
  MemberHostname :: string

type_synonym member_list_response = "etcd_member list list"

record service_state =
  SvcState :: string
  SvcHealthy :: "bool option"

text \<open>\<open>talosclient.ServiceInfo\<close>: the embedded service pointer, nil being \<^const>\<open>None\<close>.\<close>

type_synonym service_info = "service_state option"

fun first_hostname :: "string \<Rightarrow> (address_type \<times> string) list \<Rightarrow> string" where
  "first_hostname nodeName [] = nodeName"
| "first_hostname nodeName ((t, a) # rest) =
     (if t = MachineHostName then a else first_hostname nodeName rest)"

definition hostnameCandidates :: "machine \<Rightarrow> string list" where
  "hostnameCandidates m =
     (let nodeName = first_hostname (m_NodeRefName m) (m_Addresses m)
      in filter (\<lambda>c. c \<noteq> []) [nodeName, m_InfraName m, m_Name m])"

fun matchesMember :: "string list \<Rightarrow> string \<Rightarrow> bool" where
  "matchesMember [] memberHostname = False"
| "matchesMember (c # cs) memberHostname =
     (let (member, _, _) = Cut (CHR ''.'') memberHostname;
          (candidate, _, _) = Cut (CHR ''.'') c
      in if EqualFold candidate member then True else matchesMember cs memberHostname)"

fun find_in_message :: "etcd_member list \<Rightarrow> string list \<Rightarrow> etcd_member option" where
  "find_in_message [] candidates = None"
| "find_in_message (m # ms) candidates =
     (if matchesMember candidates (MemberHostname m) then Some m else find_in_message ms candidates)"

fun find_in_messages :: "member_list_response \<Rightarrow> string list \<Rightarrow> etcd_member option" where
  "find_in_messages [] candidates = None"
| "find_in_messages (msg # msgs) candidates =
     (case find_in_message msg candidates of
        Some m \<Rightarrow> Some m
      | None \<Rightarrow> find_in_messages msgs candidates)"

definition findMember :: "member_list_response option \<Rightarrow> string list \<Rightarrow> etcd_member option" where
  "findMember resp candidates = (case resp of
     None \<Rightarrow> None
   | Some msgs \<Rightarrow> find_in_messages msgs candidates)"

definition etcdRunningState :: string where
  "etcdRunningState = ''Running''"

fun etcdHealthy :: "service_info list \<Rightarrow> bool" where
  "etcdHealthy [] = False"
| "etcdHealthy (svc # svcs) = (case svc of
     None \<Rightarrow> etcdHealthy svcs
   | Some info \<Rightarrow>
       if SvcState info = etcdRunningState \<and> SvcHealthy info = Some True then True
       else etcdHealthy svcs)"

fun etcdNotFinished :: "service_info list \<Rightarrow> bool" where
  "etcdNotFinished [] = False"
| "etcdNotFinished (svc # svcs) =
     (if (case svc of None \<Rightarrow> False | Some info \<Rightarrow> SvcState info \<noteq> ''Finished'') then True
      else etcdNotFinished svcs)"

section \<open>Characterisations\<close>

text \<open>The host part of a name: everything before the first dot.\<close>

definition host_part :: "string \<Rightarrow> string" where
  "host_part s = takeWhile (\<lambda>c. c \<noteq> CHR ''.'') s"

lemma matchesMember_iff:
  "matchesMember cs h \<longleftrightarrow> (\<exists>c \<in> set cs. EqualFold (host_part c) (host_part h))"
proof (induction cs)
  case (Cons c cs)
  obtain a b f where "Cut (CHR ''.'') h = (a, b, f)" by (metis prod_cases3)
  moreover obtain a' b' f' where "Cut (CHR ''.'') c = (a', b', f')" by (metis prod_cases3)
  ultimately show ?case
    using Cons Cut_fst [of "CHR ''.''" h] Cut_fst [of "CHR ''.''" c] by (simp add: host_part_def)
qed simp

lemma find_in_message_find: "find_in_message ms cs = find (\<lambda>m. matchesMember cs (MemberHostname m)) ms"
  by (induction ms) auto

lemma find_append: "find P (xs @ ys) = (case find P xs of Some x \<Rightarrow> Some x | None \<Rightarrow> find P ys)"
  by (induction xs) auto

lemma findMember_find:
  "findMember resp cs = find (\<lambda>m. matchesMember cs (MemberHostname m))
     (case resp of None \<Rightarrow> [] | Some msgs \<Rightarrow> concat msgs)"
proof (cases resp)
  case (Some msgs)
  have "find_in_messages msgs cs = find (\<lambda>m. matchesMember cs (MemberHostname m)) (concat msgs)"
    by (induction msgs) (auto simp: find_in_message_find find_append split: option.split)
  with Some show ?thesis by (simp add: findMember_def)
qed (simp add: findMember_def)

lemma find_SomeD: "find P xs = Some x \<Longrightarrow> x \<in> set xs \<and> P x"
  by (induction xs) (auto split: if_splits)

lemma findMember_Some:
  "findMember (Some msgs) cs = Some m \<Longrightarrow> m \<in> set (concat msgs) \<and> matchesMember cs (MemberHostname m)"
  unfolding findMember_find by (drule find_SomeD) simp

lemma findMember_None:
  "findMember (Some msgs) cs = None \<longleftrightarrow> (\<forall>m \<in> set (concat msgs). \<not> matchesMember cs (MemberHostname m))"
  by (auto simp: findMember_find find_None_iff)

lemma etcdHealthy_iff: "etcdHealthy svcs \<longleftrightarrow>
    (\<exists>info. Some info \<in> set svcs \<and> SvcState info = etcdRunningState \<and> SvcHealthy info = Some True)"
  by (induction svcs) (auto split: option.splits)

lemma etcdNotFinished_iff: "etcdNotFinished svcs \<longleftrightarrow>
    (\<exists>info. Some info \<in> set svcs \<and> SvcState info \<noteq> ''Finished'')"
  by (induction svcs) (auto split: option.splits)

end
