(* ===== verification/Peers.thy ===== *)
theory Peers
  imports EtcdMembers "HOL-Library.Multiset" "HOL-Library.Char_ord" "HOL-Library.List_Lexorder"
    "HOL-Library.Product_Lexorder"
begin

text \<open>
  The two orders on control-plane Machines the teardown uses: \<open>sortByAge\<close> (setup.go) orders the peer
  candidates, and \<open>serializeControlPlane\<close> (reconciler.go) holds all but the oldest-deleting Machine.
  Both compare a timestamp and break ties by name; Go compares strings byte by byte, which is the
  library's lexicographic order on lists of characters. \<open>sort.Slice\<close> promises some sorted
  permutation; the model sorts by insertion, and \<open>sorted_unique\<close> says that no other result is
  possible when the keys are distinct.
\<close>

fun insert_by :: "('a \<Rightarrow> 'a \<Rightarrow> bool) \<Rightarrow> 'a \<Rightarrow> 'a list \<Rightarrow> 'a list" where
  "insert_by lt x [] = [x]"
| "insert_by lt x (y # ys) = (if lt y x then y # insert_by lt x ys else x # y # ys)"

fun sort_slice :: "('a \<Rightarrow> 'a \<Rightarrow> bool) \<Rightarrow> 'a list \<Rightarrow> 'a list" where
  "sort_slice lt [] = []"
| "sort_slice lt (x # xs) = insert_by lt x (sort_slice lt xs)"

text \<open>The contract of a comparator: it is the strict order of a key.\<close>

locale comparator =
  fixes lt :: "'a \<Rightarrow> 'a \<Rightarrow> bool" and key :: "'a \<Rightarrow> 'k :: linorder"
  assumes less_key: "lt x y \<longleftrightarrow> key x < key y"
begin

lemma mset_insert_by: "mset (insert_by lt x ys) = add_mset x (mset ys)"
  by (induction ys) auto

lemma mset_sort_slice: "mset (sort_slice lt xs) = mset xs"
  by (induction xs) (auto simp: mset_insert_by)

lemma set_sort_slice: "set (sort_slice lt xs) = set xs"
  by (metis mset_sort_slice set_mset_mset)

lemma sorted_insert_by:
  "sorted (map key ys) \<Longrightarrow> sorted (map key (insert_by lt x ys))"
proof (induction ys)
  case (Cons y ys)
  have "set (insert_by lt x ys) = insert x (set ys)"
    by (metis mset_insert_by set_mset_add_mset_insert set_mset_mset)
  with Cons less_key [of y x] show ?case by auto
qed simp

lemma sorted_sort_slice: "sorted (map key (sort_slice lt xs))"
  by (induction xs) (auto intro: sorted_insert_by)

lemma sorted_unique:
  assumes "mset ys = mset xs" and "sorted (map key ys)" and "inj_on key (set xs)"
  shows "ys = sort_slice lt xs"
proof -
  have m: "mset ys = mset (sort_slice lt xs)" using assms(1) by (simp add: mset_sort_slice)
  then have "mset (map key ys) = mset (map key (sort_slice lt xs))" by simp
  then have "map key ys = map key (sort_slice lt xs)"
    using assms(2) sorted_sort_slice by (metis properties_for_sort)
  moreover have "inj_on key (set ys \<union> set (sort_slice lt xs))"
    using assms(1,3) by (metis mset_eq_setD set_sort_slice sup.idem)
  ultimately show ?thesis by (metis inj_on_map_eq_map)
qed

text \<open>Among finitely many elements with distinct keys exactly one has nothing below it.\<close>

lemma unique_minimum:
  assumes "finite A" and "A \<noteq> {}" and "inj_on key A"
  shows "\<exists>!x. x \<in> A \<and> (\<forall>y \<in> A. \<not> lt y x)"
proof -
  obtain x where x: "x \<in> A" "\<forall>y \<in> A. key x \<le> key y"
    using assms(1,2) by (metis arg_min_if_finite(1) arg_min_least)
  show ?thesis
  proof (rule ex1I [of _ x])
    show "x \<in> A \<and> (\<forall>y \<in> A. \<not> lt y x)" using x by (auto simp: less_key not_less)
  next
    fix z assume "z \<in> A \<and> (\<forall>y \<in> A. \<not> lt y z)"
    with x have "key z = key x" "z \<in> A" by (auto simp: less_key intro!: antisym)
    with assms(3) x(1) show "z = x" by (metis inj_onD)
  qed
qed

end

section \<open>Oldest first (sortByAge)\<close>

definition age_less :: "machine \<Rightarrow> machine \<Rightarrow> bool" where
  "age_less a b = (if m_Creation a = m_Creation b then m_Name a < m_Name b
     else Before (m_Creation a) (m_Creation b))"

definition age_key :: "machine \<Rightarrow> time \<times> string" where
  "age_key m = (m_Creation m, m_Name m)"

interpretation age: comparator age_less age_key
  by unfold_locales (auto simp: age_less_def age_key_def Before_def less_prod_def)

definition sortByAge :: "machine list \<Rightarrow> machine list" where
  "sortByAge ms = sort_slice age_less ms"

lemma sorted_age:
  "sorted (map age_key ms) \<longleftrightarrow>
     sorted_wrt (\<lambda>a b. Before (m_Creation a) (m_Creation b) \<or> m_Creation a = m_Creation b \<and> m_Name a \<le> m_Name b) ms"
  unfolding sorted_map age_key_def Before_def less_eq_prod_def
  by (rule arg_cong [of _ _ "\<lambda>P. sorted_wrt P ms"]) (auto simp: fun_eq_iff)

section \<open>Peer candidates (orderPeers)\<close>

definition peer_candidate :: "machine \<Rightarrow> machine \<Rightarrow> bool" where
  "peer_candidate victim m \<longleftrightarrow> \<not> (m_Name m = m_Name victim \<or> m_Deletion m \<noteq> None)
     \<and> \<not> mhas (m_Annotations m) EtcdLeavingAnnotation"

fun partition_peers :: "machine \<Rightarrow> machine list \<Rightarrow> machine list \<times> machine list" where
  "partition_peers victim [] = ([], [])"
| "partition_peers victim (m # ms) =
     (let (withNodeRef, withoutNodeRef) = partition_peers victim ms
      in if m_Name m = m_Name victim \<or> m_Deletion m \<noteq> None then (withNodeRef, withoutNodeRef)
      else if mhas (m_Annotations m) EtcdLeavingAnnotation then (withNodeRef, withoutNodeRef)
      else if m_NodeRefName m \<noteq> [] then (m # withNodeRef, withoutNodeRef)
      else (withNodeRef, m # withoutNodeRef))"

definition orderPeers :: "machine list \<Rightarrow> machine \<Rightarrow> machine list" where
  "orderPeers machines victim =
     (let (withNodeRef, withoutNodeRef) = partition_peers victim machines
      in sortByAge withNodeRef @ sortByAge withoutNodeRef)"

lemma partition_peers_filter:
  "partition_peers victim ms =
     (filter (\<lambda>m. peer_candidate victim m \<and> m_NodeRefName m \<noteq> []) ms,
      filter (\<lambda>m. peer_candidate victim m \<and> m_NodeRefName m = []) ms)"
  by (induction ms) (auto simp: peer_candidate_def Let_def)

lemma set_orderPeers: "set (orderPeers ms victim) = {m \<in> set ms. peer_candidate victim m}"
  by (auto simp: orderPeers_def partition_peers_filter sortByAge_def age.set_sort_slice)

section \<open>One deletion at a time (serializeControlPlane)\<close>

definition deletes_before :: "machine \<Rightarrow> machine \<Rightarrow> bool" where
  "deletes_before peer machine \<longleftrightarrow> (case (m_Deletion peer, m_Deletion machine) of
     (Some p, Some d) \<Rightarrow> Before p d \<or> (p = d \<and> m_Name peer < m_Name machine)
   | _ \<Rightarrow> False)"

text \<open>The loop body of \<open>serializeControlPlane\<close>: does \<open>peer\<close> hold \<open>machine\<close>?\<close>

definition holds :: "machine \<Rightarrow> machine \<Rightarrow> bool" where
  "holds machine peer \<longleftrightarrow>
     \<not> (m_Name peer = m_Name machine \<or> m_Deletion peer = None \<or> \<not> HasHook peer)
     \<and> deletes_before peer machine"

fun held_by :: "machine \<Rightarrow> machine list \<Rightarrow> bool" where
  "held_by machine [] = False"
| "held_by machine (peer # peers) = (if holds machine peer then True else held_by machine peers)"

lemma held_by_iff: "held_by machine peers \<longleftrightarrow> (\<exists>peer \<in> set peers. holds machine peer)"
  by (induction peers) auto

definition deletion_key :: "machine \<Rightarrow> bool \<times> time \<times> string" where
  "deletion_key m = (m_Deletion m = None, case m_Deletion m of None \<Rightarrow> 0 | Some d \<Rightarrow> d, m_Name m)"

definition deletion_less :: "machine \<Rightarrow> machine \<Rightarrow> bool" where
  "deletion_less a b \<longleftrightarrow> (case (m_Deletion a, m_Deletion b) of
     (None, None) \<Rightarrow> m_Name a < m_Name b
   | (None, Some _) \<Rightarrow> False
   | (Some _, None) \<Rightarrow> True
   | (Some p, Some d) \<Rightarrow> Before p d \<or> (p = d \<and> m_Name a < m_Name b))"

interpretation deletion: comparator deletion_less deletion_key
  by unfold_locales
    (auto simp: deletion_less_def deletion_key_def Before_def less_prod_def split: option.splits)

lemma deletes_before_less:
  "m_Deletion a \<noteq> None \<Longrightarrow> m_Deletion b \<noteq> None \<Longrightarrow> deletes_before a b = deletion_less a b"
  by (auto simp: deletes_before_def deletion_less_def)

end
