(* ===== verification/TeardownEnv.thy ===== *)
theory TeardownEnv
  imports Peers
begin

text \<open>
  The outside world of the teardown controller: the API client and the CAPI patch helper, the Talos
  node clients behind \<open>Client\<close> and \<open>ClientFactory\<close> of \<open>internal/teardown/talos.go\<close>, the parser of
  talosconfig files, the clock. Every call is a field of \<open>tenv\<close> over an arbitrary world; \<open>tcall\<close> is
  the trace. A create or update names its field owner. A Talos client is a number the factory chose; per-RPC time-outs
  (\<open>context.WithTimeout\<close>) are an argument of the call. Also \<open>resolveAddress\<close> of
  \<open>internal/teardown/address.go\<close>.
\<close>

section \<open>What the calls exchange\<close>

type_synonym talos_config = string
type_synonym talos_client = nat

record reset_partition =
  PartLabel :: string
  PartWipe :: bool

record reset_request =
  Graceful :: bool
  Reboot :: bool
  SystemPartitionsToWipe :: "reset_partition list"

text \<open>The values of an unstructured object, as far as the code's type assertions tell them apart.\<close>

datatype json = JMap "(string \<times> json) list" | JString string | JOther

text \<open>The fields of the TinkerbellMachine the code reads through the unstructured helpers.\<close>

record tinkerbell_machine =
  tm_Namespace :: string
  tm_HardwareName :: string
  tm_TargetNamespace :: string
  tm_Addresses :: "json list"

record 'w tenv =
  te_GetMachine :: "object_key \<Rightarrow> 'w \<Rightarrow> (go_error + machine) \<times> 'w"
  te_GetCluster :: "object_key \<Rightarrow> 'w \<Rightarrow> (go_error + object_meta) \<times> 'w"
  te_GetTinkerbellMachine :: "object_key \<Rightarrow> 'w \<Rightarrow> (go_error + tinkerbell_machine) \<times> 'w"
  te_GetHardware :: "object_key \<Rightarrow> 'w \<Rightarrow> (go_error + hardware) \<times> 'w"
  te_GetSecret :: "object_key \<Rightarrow> 'w \<Rightarrow> (go_error + secret) \<times> 'w"
  te_ListMachines :: "string \<Rightarrow> gomap \<Rightarrow> string list \<Rightarrow> 'w \<Rightarrow> (go_error + machine list) \<times> 'w"
  te_ListSecrets :: "string \<Rightarrow> string list \<Rightarrow> 'w \<Rightarrow> (go_error + secret list) \<times> 'w"
  te_CreateSecret :: "string \<Rightarrow> secret \<Rightarrow> 'w \<Rightarrow> go_error option \<times> 'w"
  te_UpdateSecret :: "string \<Rightarrow> secret \<Rightarrow> 'w \<Rightarrow> go_error option \<times> 'w"
  te_DeleteSecret :: "secret \<Rightarrow> 'w \<Rightarrow> go_error option \<times> 'w"
  te_NewHelper :: "machine \<Rightarrow> go_error option"
  te_Patch :: "machine \<Rightarrow> machine \<Rightarrow> 'w \<Rightarrow> go_error option \<times> 'w"
  te_FromBytes :: "string \<Rightarrow> go_error + talos_config"
  te_Dial :: "talos_config \<Rightarrow> string \<Rightarrow> 'w \<Rightarrow> (go_error + talos_client) \<times> 'w"
  te_ServiceInfo :: "talos_client \<Rightarrow> duration \<Rightarrow> 'w \<Rightarrow> (go_error + service_info list) \<times> 'w"
  te_EtcdMemberList :: "talos_client \<Rightarrow> duration \<Rightarrow> 'w \<Rightarrow> (go_error + member_list_response option) \<times> 'w"
  te_EtcdForfeitLeadership :: "talos_client \<Rightarrow> duration \<Rightarrow> 'w \<Rightarrow> go_error option \<times> 'w"
  te_EtcdLeaveCluster :: "talos_client \<Rightarrow> duration \<Rightarrow> 'w \<Rightarrow> go_error option \<times> 'w"
  te_EtcdRemoveMemberByID :: "talos_client \<Rightarrow> nat \<Rightarrow> duration \<Rightarrow> 'w \<Rightarrow> go_error option \<times> 'w"
  te_ResetGeneric :: "talos_client \<Rightarrow> reset_request \<Rightarrow> duration \<Rightarrow> 'w \<Rightarrow> go_error option \<times> 'w"
  te_Close :: "talos_client \<Rightarrow> 'w \<Rightarrow> go_error option \<times> 'w"
  te_Now :: "'w \<Rightarrow> time \<times> 'w"

datatype tcall =
    TGetMachine object_key "go_error + machine"
  | TGetCluster object_key "go_error + object_meta"
  | TListMachines string gomap "string list" "go_error + machine list"
  | TGetSecret object_key "go_error + secret"
  | TGetTinkerbellMachine object_key "go_error + tinkerbell_machine"
  | TGetHardware object_key "go_error + hardware"
  | TListSecrets string "string list" "go_error + secret list"
  | TNow time
  | TPatch object_key gomap gomap "go_error option"
  | TSecretCreate secret "go_error option"
  | TSecretUpdate secret "go_error option"
  | TSecretDelete secret "go_error option"
  | TDial string "go_error + talos_client"
  | TServiceInfo talos_client duration "go_error + service_info list"
  | TMemberList talos_client duration "go_error + member_list_response option"
  | TForfeit talos_client duration "go_error option"
  | TLeave talos_client duration "go_error option"
  | TRemove talos_client nat duration "go_error option"
  | TReset talos_client reset_request duration "go_error option"
  | TClose talos_client
  | TEvent object_key string string
  | TMetric string string
  | TResetDuration duration

type_synonym ('w, 'r) tprog = "('w, tcall, 'r) prog"

section \<open>Kinds of calls\<close>

text \<open>The reads of the address and credential lookups.\<close>

fun is_lookup :: "tcall \<Rightarrow> bool" where
  "is_lookup (TGetSecret _ _) = True"
| "is_lookup (TGetTinkerbellMachine _ _) = True"
| "is_lookup (TGetHardware _ _) = True"
| "is_lookup _ = False"

text \<open>The calls that change an etcd cluster, and the one that wipes a node.\<close>

fun etcd_change :: "tcall \<Rightarrow> bool" where
  "etcd_change (TForfeit _ _ _) = True"
| "etcd_change (TLeave _ _ _) = True"
| "etcd_change (TRemove _ _ _ _) = True"
| "etcd_change _ = False"

fun is_reset :: "tcall \<Rightarrow> bool" where
  "is_reset (TReset _ _ _ _) = True"
| "is_reset _ = False"

fun is_patch :: "tcall \<Rightarrow> bool" where
  "is_patch (TPatch _ _ _ _) = True"
| "is_patch _ = False"

text \<open>Dialled clients and closed ones, counted per client.\<close>

fun opens :: "talos_client \<Rightarrow> tcall \<Rightarrow> int" where
  "opens c (TDial _ (Inr c')) = (if c' = c then 1 else 0)"
| "opens c (TClose c') = (if c' = c then -1 else 0)"
| "opens c _ = 0"

definition open_count :: "talos_client \<Rightarrow> tcall list \<Rightarrow> int" where
  "open_count c xs = sum_list (map (opens c) xs)"

lemma open_count_simps [simp]:
  "open_count c [] = 0" "open_count c (x # xs) = opens c x + open_count c xs"
  "open_count c (xs @ ys) = open_count c xs + open_count c ys"
  by (simp_all add: open_count_def)

definition balanced :: "tcall list \<Rightarrow> bool" where
  "balanced xs \<longleftrightarrow> (\<forall>c. open_count c xs = 0)"

lemma balanced_append [simp]: "balanced xs \<Longrightarrow> balanced (xs @ ys) \<longleftrightarrow> balanced ys"
  by (simp add: balanced_def)

lemma balanced_Nil [simp]: "balanced []"
  by (simp add: balanced_def)

lemma balanced_Cons [simp]: "(\<And>c. opens c x = 0) \<Longrightarrow> balanced (x # xs) \<longleftrightarrow> balanced xs"
  by (simp add: balanced_def)

definition lookups :: "tcall list \<Rightarrow> bool" where
  "lookups xs \<longleftrightarrow> (\<forall>x \<in> set xs. is_lookup x)"

lemma lookups_simps [simp]:
  "lookups []" "lookups (x # xs) \<longleftrightarrow> is_lookup x \<and> lookups xs"
  "lookups (xs @ ys) \<longleftrightarrow> lookups xs \<and> lookups ys"
  by (auto simp: lookups_def)

lemma lookups_balanced: "lookups xs \<Longrightarrow> balanced xs"
  by (induction xs) (auto elim: is_lookup.elims)

lemma lookups_member: "lookups xs \<Longrightarrow> x \<in> set xs \<Longrightarrow> is_lookup x"
  by (auto simp: lookups_def)

section \<open>Addresses (address.go)\<close>

fun first_ip :: "(address_type \<times> string) list \<Rightarrow> string option" where
  "first_ip [] = None"
| "first_ip ((t, a) # rest) = (if t = MachineInternalIP \<or> t = MachineExternalIP then Some a else first_ip rest)"

definition json_string :: "json option \<Rightarrow> string" where
  "json_string v = (case v of Some (JString s) \<Rightarrow> s | _ \<Rightarrow> [])"

fun first_unstructured_ip :: "json list \<Rightarrow> string option" where
  "first_unstructured_ip [] = None"
| "first_unstructured_ip (entry # rest) = (case entry of
     JMap addr \<Rightarrow>
       (let addrType = json_string (map_of addr ''type'')
        in if addrType = ''InternalIP'' \<or> addrType = ''ExternalIP''
           then (let value = json_string (map_of addr ''address'')
                 in if value \<noteq> [] then Some value else first_unstructured_ip rest)
           else first_unstructured_ip rest)
   | _ \<Rightarrow> first_unstructured_ip rest)"

definition hardware_ip :: "hardware \<Rightarrow> string" where
  "hardware_ip hw = (case Interfaces (hw_Spec hw) of
     [] \<Rightarrow> []
   | i # _ \<Rightarrow> (case DHCP i of
       None \<Rightarrow> []
     | Some d \<Rightarrow> (case DHCPAddress d of None \<Rightarrow> [] | Some a \<Rightarrow> a)))"

definition hardwareAddress :: "'w tenv \<Rightarrow> tinkerbell_machine \<Rightarrow> ('w, go_error + string) tprog" where
  "hardwareAddress env tm =
     (if tm_HardwareName tm = [] then State_Monad.return (Inr [])
      else let namespace = (if tm_TargetNamespace tm = [] then tm_Namespace tm else tm_TargetNamespace tm);
               key = \<lparr>key_namespace = namespace, key_name = tm_HardwareName tm\<rparr>
      in do {
        r \<leftarrow> extcall (TGetHardware key) (te_GetHardware env key);
        case r of
          Inl err \<Rightarrow> State_Monad.return
            (if IsNotFound err then Inr [] else Inl (Wrap ''getting Hardware'' err))
        | Inr hw \<Rightarrow> State_Monad.return (Inr (hardware_ip hw))
      })"

definition resolveAddress :: "'w tenv \<Rightarrow> machine \<Rightarrow> ('w, go_error + string) tprog" where
  "resolveAddress env m = (case first_ip (m_Addresses m) of
     Some a \<Rightarrow> State_Monad.return (Inr a)
   | None \<Rightarrow>
       if m_InfraName m = [] then State_Monad.return (Inr [])
       else let key = \<lparr>key_namespace = m_Namespace m, key_name = m_InfraName m\<rparr>
       in do {
         r \<leftarrow> extcall (TGetTinkerbellMachine key) (te_GetTinkerbellMachine env key);
         case r of
           Inl err \<Rightarrow> State_Monad.return
             (if IsNotFound err then Inr [] else Inl (Wrap ''getting TinkerbellMachine'' err))
         | Inr tm \<Rightarrow> (case first_unstructured_ip (tm_Addresses tm) of
             Some value \<Rightarrow> State_Monad.return (Inr value)
           | None \<Rightarrow> hardwareAddress env tm)
       })"

lemma resolveAddress_lookups [contract]: "yields (resolveAddress env m) (\<lambda>_ xs. lookups xs)"
  unfolding resolveAddress_def hardwareAddress_def Let_def
  by (intro yields_branch yields_bind_extcall yields_return) auto

end
