(* ===== verification/Credentials.thy ===== *)
theory Credentials
  imports TeardownEnv
begin

text \<open>
  \<open>internal/teardown/credentials.go\<close>: the component-owned copies of the clusters' talosconfig
  secrets. \<open>Ensure\<close> refreshes a copy, \<open>Config\<close> reads the live secret or else the copy, \<open>GC\<close> deletes
  the copies of clusters that are gone. The cache's own namespace is the argument \<open>ns\<close>.
\<close>

definition talosconfigKey :: string where "talosconfigKey = ''talosconfig''"
definition sourceVersionAnnotation :: string where
  "sourceVersionAnnotation = ''teardown.tinkerbell.org/source-resource-version''"

definition sourceSecretName :: "object_key \<Rightarrow> object_key" where
  "sourceSecretName cluster = \<lparr>key_namespace = key_namespace cluster,
     key_name = key_name cluster @ ''-talosconfig''\<rparr>"

definition cachedSecretName :: "object_key \<Rightarrow> string" where
  "cachedSecretName cluster = ''talosconfig-'' @ key_namespace cluster @ ''-'' @ key_name cluster"

definition cached_key :: "string \<Rightarrow> object_key \<Rightarrow> object_key" where
  "cached_key ns cluster = \<lparr>key_namespace = ns, key_name = cachedSecretName cluster\<rparr>"

text \<open>The copy \<open>Ensure\<close> writes for a source secret.\<close>

definition cached_copy :: "string \<Rightarrow> object_key \<Rightarrow> secret \<Rightarrow> secret" where
  "cached_copy ns cluster source = \<lparr>
     sec_Meta = (new_meta (cachedSecretName cluster) ns)\<lparr>
       om_Labels := [(ClusterNameLabel, key_name cluster), (ClusterNamespaceLabel, key_namespace cluster)],
       om_Annotations := [(sourceVersionAnnotation, om_ResourceVersion (sec_Meta source))]\<rparr>,
     sec_Data = [(talosconfigKey, mget (sec_Data source) talosconfigKey)]\<rparr>"

definition Ensure :: "'w tenv \<Rightarrow> string \<Rightarrow> object_key \<Rightarrow> ('w, bool \<times> go_error option) tprog" where
  "Ensure env ns cluster = do {
     r \<leftarrow> extcall (TGetSecret (sourceSecretName cluster)) (te_GetSecret env (sourceSecretName cluster));
     case r of
       Inl err \<Rightarrow> State_Monad.return (if IsNotFound err then (False, None) else (False, Some err))
     | Inr source \<Rightarrow> (let cached = cached_copy ns cluster source
         in do {
           r2 \<leftarrow> extcall (TGetSecret (meta_key (sec_Meta cached))) (te_GetSecret env (meta_key (sec_Meta cached)));
           case r2 of
             Inl err \<Rightarrow>
               if IsNotFound err then do {
                 e \<leftarrow> extcall (TSecretCreate cached) (te_CreateSecret env Name cached);
                 State_Monad.return (True, e)
               } else State_Monad.return (False, Some err)
           | Inr existing \<Rightarrow>
               if mget (om_Annotations (sec_Meta existing)) sourceVersionAnnotation = om_ResourceVersion (sec_Meta source)
               then State_Monad.return (False, None)
               else if mget (sec_Data existing) talosconfigKey = mget (sec_Data source) talosconfigKey
               then State_Monad.return (False, None)
               else (let cached' = cached\<lparr>sec_Meta := (sec_Meta cached)\<lparr>om_ResourceVersion :=
                         om_ResourceVersion (sec_Meta existing)\<rparr>\<rparr>
                 in do {
                   e \<leftarrow> extcall (TSecretUpdate cached') (te_UpdateSecret env Name cached');
                   State_Monad.return (False, e)
                 })
         })
   }"

definition Config :: "'w tenv \<Rightarrow> string \<Rightarrow> object_key \<Rightarrow> ('w, go_error + talos_config) tprog" where
  "Config env ns cluster = do {
     r \<leftarrow> extcall (TGetSecret (sourceSecretName cluster)) (te_GetSecret env (sourceSecretName cluster));
     r \<leftarrow> (case r of
        Inl err \<Rightarrow>
          if IsNotFound err
          then extcall (TGetSecret (cached_key ns cluster)) (te_GetSecret env (cached_key ns cluster))
          else State_Monad.return (Inl err)
      | Inr secret \<Rightarrow> State_Monad.return (Inr secret));
     case r of
       Inl err \<Rightarrow> State_Monad.return (Inl err)
     | Inr secret \<Rightarrow> (case te_FromBytes env (mget (sec_Data secret) talosconfigKey) of
         Inl err \<Rightarrow> State_Monad.return (Inl (Wrap ''parsing talosconfig'' err))
       | Inr cfg \<Rightarrow> State_Monad.return (Inr cfg))
   }"

definition clusterGone :: "'w tenv \<Rightarrow> object_key \<Rightarrow> ('w, go_error + bool) tprog" where
  "clusterGone env cluster = do {
     r \<leftarrow> extcall (TGetCluster cluster) (te_GetCluster env cluster);
     case r of
       Inr _ \<Rightarrow> State_Monad.return (Inr False)
     | Inl err \<Rightarrow>
         if \<not> IsNotFound err then State_Monad.return (Inl err)
         else do {
           l \<leftarrow> extcall (TListMachines (key_namespace cluster) [(CapiClusterNameLabel, key_name cluster)] [])
             (te_ListMachines env (key_namespace cluster) [(CapiClusterNameLabel, key_name cluster)] []);
           State_Monad.return (case l of Inl err \<Rightarrow> Inl err | Inr machines \<Rightarrow> Inr (\<not> list_ex Qualifies machines))
         }
   }"

fun gc_loop :: "'w tenv \<Rightarrow> secret list \<Rightarrow> ('w, go_error option) tprog" where
  "gc_loop env [] = State_Monad.return None"
| "gc_loop env (secret # rest) =
     (let cluster = \<lparr>key_namespace = mget (om_Labels (sec_Meta secret)) ClusterNamespaceLabel,
                     key_name = mget (om_Labels (sec_Meta secret)) ClusterNameLabel\<rparr>
      in do {
        g \<leftarrow> clusterGone env cluster;
        case g of
          Inl err \<Rightarrow> State_Monad.return (Some err)
        | Inr stale \<Rightarrow>
            if \<not> stale then gc_loop env rest
            else do {
              e \<leftarrow> extcall (TSecretDelete secret) (te_DeleteSecret env secret);
              case e of
                Some err \<Rightarrow> if \<not> IsNotFound err then State_Monad.return (Some err) else gc_loop env rest
              | None \<Rightarrow> gc_loop env rest
            }
      })"

definition GC :: "'w tenv \<Rightarrow> string \<Rightarrow> ('w, go_error option) tprog" where
  "GC env ns = do {
     l \<leftarrow> extcall (TListSecrets ns [ClusterNameLabel]) (te_ListSecrets env ns [ClusterNameLabel]);
     case l of
       Inl err \<Rightarrow> State_Monad.return (Some err)
     | Inr secrets \<Rightarrow> gc_loop env secrets
   }"

section \<open>Contracts\<close>

lemma Config_lookups [contract]: "yields (Config env ns cluster) (\<lambda>_ xs. lookups xs)"
proof -
  have second: "yields (case r of
        Inl err \<Rightarrow>
          if IsNotFound err
          then extcall (TGetSecret (cached_key ns cluster)) (te_GetSecret env (cached_key ns cluster))
          else State_Monad.return (Inl err)
      | Inr secret \<Rightarrow> State_Monad.return (Inr secret)) (\<lambda>_ xs. lookups xs)" for r
    by (intro yields_branch yields_return yields_weaken [OF yields_extcall]) auto
  show ?thesis
    unfolding Config_def
    by (rule yields_bind_extcall, rule yields_bind [OF second])
      (intro yields_branch yields_return, auto)
qed

text \<open>\<open>Ensure\<close> reads, then writes at most one secret, the copy; it reports a creation only when it
  tried one, and an error is the last call's.\<close>

definition ensure_calls :: "string \<Rightarrow> object_key \<Rightarrow> bool \<times> go_error option \<Rightarrow> tcall list \<Rightarrow> bool" where
  "ensure_calls ns cluster r xs \<longleftrightarrow> (\<exists>gets ws. xs = gets @ ws \<and> lookups gets \<and>
     (ws = [] \<and> \<not> fst r
      \<or> (\<exists>source. ws = [TSecretCreate (cached_copy ns cluster source) (snd r)] \<and> fst r)
      \<or> (\<exists>source c. ws = [TSecretUpdate c (snd r)] \<and> \<not> fst r
           \<and> meta_key (sec_Meta c) = cached_key ns cluster
           \<and> sec_Data c = sec_Data (cached_copy ns cluster source)
           \<and> om_Labels (sec_Meta c) = om_Labels (sec_Meta (cached_copy ns cluster source)))))"

lemma cached_copy_key [simp]: "meta_key (sec_Meta (cached_copy ns cluster source)) = cached_key ns cluster"
  by (simp add: cached_copy_def cached_key_def meta_key_def new_meta_def)

lemma ensure_calls_gets: "lookups xs \<Longrightarrow> \<not> fst r \<Longrightarrow> ensure_calls ns cluster r xs"
  unfolding ensure_calls_def by (rule exI [of _ xs], rule exI [of _ "[]"]) simp

lemma ensure_calls_create:
  "is_lookup a \<Longrightarrow> is_lookup b \<Longrightarrow> fst r \<Longrightarrow>
     ensure_calls ns cluster r [a, b, TSecretCreate (cached_copy ns cluster source) (snd r)]"
  unfolding ensure_calls_def by (rule exI [of _ "[a, b]"]) auto

lemma ensure_calls_update:
  assumes "is_lookup a" "is_lookup b" "\<not> fst r"
    and c: "c = (cached_copy ns cluster source)\<lparr>sec_Meta :=
       (sec_Meta (cached_copy ns cluster source))\<lparr>om_ResourceVersion := v\<rparr>\<rparr>"
  shows "ensure_calls ns cluster r [a, b, TSecretUpdate c (snd r)]"
proof -
  have "meta_key (sec_Meta c) = cached_key ns cluster"
    using cached_copy_key [of ns cluster source] by (simp add: c meta_key_def)
  moreover have "sec_Data c = sec_Data (cached_copy ns cluster source)"
    "om_Labels (sec_Meta c) = om_Labels (sec_Meta (cached_copy ns cluster source))" by (simp_all add: c)
  moreover have "[a, b, TSecretUpdate c (snd r)] = [a, b] @ [TSecretUpdate c (snd r)]" by simp
  ultimately show ?thesis
    unfolding ensure_calls_def using assms(1-3)
    by (intro exI [of _ "[a, b]"] exI [of _ "[TSecretUpdate c (snd r)]"]) auto
qed

lemma ensure_calls_refresh:
  "is_lookup a \<Longrightarrow> is_lookup b \<Longrightarrow> ensure_calls ns cluster (False, e) [a, b,
     TSecretUpdate ((cached_copy ns cluster source)\<lparr>sec_Meta :=
       (sec_Meta (cached_copy ns cluster source))\<lparr>om_ResourceVersion := v\<rparr>\<rparr>) e]"
  using ensure_calls_update [of a b "(False, e)"] by simp

lemma Ensure_calls [contract]: "yields (Ensure env ns cluster) (ensure_calls ns cluster)"
  unfolding Ensure_def Let_def
  by (intro yields_branch yields_bind_extcall yields_return)
    (auto intro!: ensure_calls_gets ensure_calls_create [where r = "(True, e)" for e, simplified]
      ensure_calls_refresh)

end
