(* ===== verification/Teardown.thy ===== *)
theory Teardown
  imports Credentials
begin

text \<open>
  \<open>internal/teardown/reconciler.go\<close>: the pre-terminate state machine. The Machine object in memory is
  threaded through the operations, because each patch changes it: an operation that patches returns
  the Machine beside its result. A \<open>ctrl.Result\<close> is its RequeueAfter, zero being the zero result; the
  code returns the zero result with every error, so an operation returns an error or a duration. The
  text of an event is not modelled, its type and reason are. \<open>defer client.Close()\<close> is the call of
  Close at every exit of the function.
\<close>

section \<open>Configuration and small operations\<close>

record teardown_config =
  EtcdTimeout :: duration
  ResetTimeout :: duration
  EtcdCallTimeout :: duration
  ResetCallTimeout :: duration
  CacheNamespace :: string

definition hookWaitRequeue :: duration where
  "hookWaitRequeue = 15 * Second"

definition EventHookStamped :: string where "EventHookStamped = ''TeardownHookStamped''"
definition EventEtcdMemberLeft :: string where "EventEtcdMemberLeft = ''EtcdMemberLeft''"
definition EventEtcdMemberRemoved :: string where "EventEtcdMemberRemoved = ''EtcdMemberRemoved''"
definition EventEtcdMemberOrphaned :: string where "EventEtcdMemberOrphaned = ''EtcdMemberOrphaned''"
definition EventEtcdSkippedClusterDelete :: string where
  "EventEtcdSkippedClusterDelete = ''EtcdSkippedClusterDelete''"
definition EventResetSucceeded :: string where "EventResetSucceeded = ''TalosResetSucceeded''"
definition EventResetSkipped :: string where "EventResetSkipped = ''TalosResetSkipped''"
definition EventTeardownComplete :: string where "EventTeardownComplete = ''TeardownComplete''"
definition EventCredentialsCached :: string where "EventCredentialsCached = ''TeardownCredentialsCached''"
definition EventCredentialsMissing :: string where "EventCredentialsMissing = ''TeardownCredentialsMissing''"

text \<open>\<open>now\<close> and \<open>event\<close>.\<close>

definition now_call :: "'w tenv \<Rightarrow> ('w, time) tprog" where
  "now_call env = extcall TNow (te_Now env)"

definition event :: "machine \<Rightarrow> string \<Rightarrow> string \<Rightarrow> ('w, unit) tprog" where
  "event m eventtype reason = emit (TEvent (m_key m) eventtype reason)"

definition clusterKeyFor :: "machine \<Rightarrow> object_key" where
  "clusterKeyFor m =
     (let name = (if m_ClusterName m = [] then mget (m_Labels m) CapiClusterNameLabel else m_ClusterName m)
      in \<lparr>key_namespace = m_Namespace m, key_name = name\<rparr>)"

text \<open>
  \<open>patchAnnotations\<close>: the \<open>mutate\<close> closure maps the annotations to the new ones, \<^const>\<open>None\<close> where it
  returns false. The patch helper keeps the Machine it was made for and sends the difference.
\<close>

definition patchAnnotations ::
    "'w tenv \<Rightarrow> machine \<Rightarrow> (gomap \<Rightarrow> gomap option) \<Rightarrow> ('w, machine \<times> go_error option) tprog" where
  "patchAnnotations env m mutate = (case te_NewHelper env m of
     Some err \<Rightarrow> State_Monad.return (m, Some err)
   | None \<Rightarrow> (case mutate (m_Annotations m) of
       None \<Rightarrow> State_Monad.return (m, None)
     | Some a \<Rightarrow> do {
         e \<leftarrow> extcall (TPatch (m_key m) (m_Annotations m) a) (te_Patch env m (SetAnnotations a m));
         State_Monad.return (SetAnnotations a m, e)
       }))"

definition stampPhase :: "'w tenv \<Rightarrow> machine \<Rightarrow> string \<Rightarrow> string \<Rightarrow> ('w, machine \<times> go_error option) tprog" where
  "stampPhase env m key v = patchAnnotations env m
     (\<lambda>ann. if mget ann key = v then None else Some (mput key v ann))"

text \<open>The two closures over the hook keys. \<open>legacyHookKeys(machine)\<close> reads the map under mutation.\<close>

definition hook_stamp :: "gomap \<Rightarrow> gomap option" where
  "hook_stamp ann = Some (stamp_annotations ann)"

definition hook_release :: "gomap \<Rightarrow> gomap option" where
  "hook_release ann = Some (release_annotations ann)"

definition ensureHook :: "'w tenv \<Rightarrow> machine \<Rightarrow> ('w, machine \<times> go_error option) tprog" where
  "ensureHook env m = (if HasHook m \<or> \<not> StampAllowed m then State_Monad.return (m, None)
     else do {
       (m, e) \<leftarrow> patchAnnotations env m hook_stamp;
       case e of
         Some err \<Rightarrow> State_Monad.return (m, Some err)
       | None \<Rightarrow> do {
           event m ''Normal'' EventHookStamped;
           State_Monad.return (m, None)
         }
     })"

definition ensureCredentials :: "'w tenv \<Rightarrow> teardown_config \<Rightarrow> machine \<Rightarrow> ('w, go_error option) tprog" where
  "ensureCredentials env cfg m = do {
     (wrote, e) \<leftarrow> Ensure env (CacheNamespace cfg) (clusterKeyFor m);
     case e of
       Some err \<Rightarrow> State_Monad.return (Some err)
     | None \<Rightarrow>
         if wrote then do {
           event m ''Normal'' EventCredentialsCached;
           State_Monad.return None
         } else State_Monad.return None
   }"

definition reconcileNormal :: "'w tenv \<Rightarrow> teardown_config \<Rightarrow> machine \<Rightarrow> ('w, go_error option) tprog" where
  "reconcileNormal env cfg m = do {
     (m, e) \<leftarrow> ensureHook env m;
     case e of
       Some err \<Rightarrow> State_Monad.return (Some err)
     | None \<Rightarrow> ensureCredentials env cfg m
   }"

text \<open>\<open>time.Parse\<close> failing is \<^const>\<open>None\<close>; the fall-through re-stamps.\<close>

definition ensureObservedAt :: "'w tenv \<Rightarrow> machine \<Rightarrow> ('w, machine \<times> (go_error + time)) tprog" where
  "ensureObservedAt env m =
     (let restamp = do {
        t \<leftarrow> now_call env;
        let observedAt = TruncateSecond t;
        (m, e) \<leftarrow> patchAnnotations env m (\<lambda>ann. Some (mput ObservedAtAnnotation (FormatRFC3339 observedAt) ann));
        State_Monad.return (m, case e of Some err \<Rightarrow> Inl err | None \<Rightarrow> Inr observedAt)
      }
      in case map_of (m_Annotations m) ObservedAtAnnotation of
        Some v \<Rightarrow> (case ParseRFC3339 v of
          Some observedAt \<Rightarrow> State_Monad.return (m, Inr observedAt)
        | None \<Rightarrow> restamp)
      | None \<Rightarrow> restamp)"

definition clusterDeleting :: "'w tenv \<Rightarrow> machine \<Rightarrow> ('w, go_error + bool) tprog" where
  "clusterDeleting env m = do {
     r \<leftarrow> extcall (TGetCluster (clusterKeyFor m)) (te_GetCluster env (clusterKeyFor m));
     State_Monad.return (case r of
       Inl err \<Rightarrow> if IsNotFound err then Inr True else Inl err
     | Inr cluster \<Rightarrow> Inr (om_DeletionTimestamp cluster \<noteq> None))
   }"

definition release :: "'w tenv \<Rightarrow> machine \<Rightarrow> ('w, machine \<times> go_error option) tprog" where
  "release env m = (if \<not> HasHook m then State_Monad.return (m, None)
     else do {
       (m, e) \<leftarrow> patchAnnotations env m hook_release;
       case e of
         Some err \<Rightarrow> State_Monad.return (m, Some err)
       | None \<Rightarrow> do {
           event m ''Normal'' EventTeardownComplete;
           emit (TMetric ''teardown_machines_total'' []);
           State_Monad.return (m, None)
         }
     })"

section \<open>The etcd phase\<close>

text \<open>The list of the control-plane Machines of the Machine's cluster, with its two selectors.\<close>

abbreviation TListPeers :: "machine \<Rightarrow> go_error + machine list \<Rightarrow> tcall" where
  "TListPeers m \<equiv> TListMachines (m_Namespace m) [(CapiClusterNameLabel, key_name (clusterKeyFor m))] [MachineControlPlaneLabel]"

definition listControlPlaneMachines :: "'w tenv \<Rightarrow> machine \<Rightarrow> ('w, go_error + machine list) tprog" where
  "listControlPlaneMachines env m = extcall (TListPeers m)
     (te_ListMachines env (m_Namespace m) [(CapiClusterNameLabel, key_name (clusterKeyFor m))]
        [MachineControlPlaneLabel])"

definition serializeControlPlane :: "'w tenv \<Rightarrow> machine \<Rightarrow> ('w, go_error + duration) tprog" where
  "serializeControlPlane env m = do {
     r \<leftarrow> listControlPlaneMachines env m;
     State_Monad.return (case r of
       Inl err \<Rightarrow> Inl err
     | Inr peers \<Rightarrow> Inr (if held_by m peers then hookWaitRequeue else 0))
   }"

definition callServiceInfo :: "'w tenv \<Rightarrow> teardown_config \<Rightarrow> talos_client \<Rightarrow> ('w, go_error + service_info list) tprog" where
  "callServiceInfo env cfg c = extcall (TServiceInfo c (EtcdCallTimeout cfg)) (te_ServiceInfo env c (EtcdCallTimeout cfg))"

definition close_call :: "'w tenv \<Rightarrow> talos_client \<Rightarrow> ('w, go_error option) tprog" where
  "close_call env c = extcall (\<lambda>_. TClose c) (te_Close env c)"

definition probePeer ::
    "'w tenv \<Rightarrow> teardown_config \<Rightarrow> talos_config \<Rightarrow> machine
       \<Rightarrow> ('w, (talos_client \<times> member_list_response option) option) tprog" where
  "probePeer env cfg tc peer = do {
     a \<leftarrow> resolveAddress env peer;
     case a of
       Inl err \<Rightarrow> State_Monad.return None
     | Inr address \<Rightarrow>
         if address = [] then State_Monad.return None
         else do {
           d \<leftarrow> extcall (TDial address) (te_Dial env tc address);
           case d of
             Inl err \<Rightarrow> State_Monad.return None
           | Inr c \<Rightarrow> do {
               s \<leftarrow> callServiceInfo env cfg c;
               if (case s of Inl err \<Rightarrow> True | Inr svcs \<Rightarrow> \<not> etcdHealthy svcs) then do {
                 close_call env c;
                 State_Monad.return None
               } else do {
                 l \<leftarrow> extcall (TMemberList c (EtcdCallTimeout cfg)) (te_EtcdMemberList env c (EtcdCallTimeout cfg));
                 case l of
                   Inl err \<Rightarrow> do {
                     close_call env c;
                     State_Monad.return None
                   }
                 | Inr resp \<Rightarrow> State_Monad.return (Some (c, resp))
               }
             }
         }
   }"

fun probe_peers ::
    "'w tenv \<Rightarrow> teardown_config \<Rightarrow> talos_config \<Rightarrow> machine list
       \<Rightarrow> ('w, go_error + talos_client \<times> member_list_response option) tprog" where
  "probe_peers env cfg tc [] = State_Monad.return (Inl (OtherError ''no healthy etcd peer reachable''))"
| "probe_peers env cfg tc (peer # peers) = do {
     r \<leftarrow> probePeer env cfg tc peer;
     case r of
       Some found \<Rightarrow> State_Monad.return (Inr found)
     | None \<Rightarrow> probe_peers env cfg tc peers
   }"

definition findHealthyPeer ::
    "'w tenv \<Rightarrow> teardown_config \<Rightarrow> machine \<Rightarrow> talos_config
       \<Rightarrow> ('w, go_error + talos_client \<times> member_list_response option) tprog" where
  "findHealthyPeer env cfg m tc = do {
     r \<leftarrow> listControlPlaneMachines env m;
     case r of
       Inl err \<Rightarrow> State_Monad.return (Inl err)
     | Inr peers \<Rightarrow> probe_peers env cfg tc (orderPeers peers m)
   }"

text \<open>The dialog with the victim, between the dial and the deferred Close.\<close>

definition leave_dialog :: "'w tenv \<Rightarrow> teardown_config \<Rightarrow> machine \<Rightarrow> talos_client \<Rightarrow> ('w, bool) tprog" where
  "leave_dialog env cfg m c = do {
     s \<leftarrow> callServiceInfo env cfg c;
     if (case s of Inl err \<Rightarrow> True | Inr svcs \<Rightarrow> \<not> etcdNotFinished svcs) then State_Monad.return False
     else do {
       (if \<not> mhas (m_Annotations m) EtcdLeavingAnnotation then do {
          e \<leftarrow> extcall (TForfeit c (EtcdCallTimeout cfg)) (te_EtcdForfeitLeadership env c (EtcdCallTimeout cfg));
          State_Monad.return ()
        } else State_Monad.return ());
       e \<leftarrow> extcall (TLeave c (EtcdCallTimeout cfg)) (te_EtcdLeaveCluster env c (EtcdCallTimeout cfg));
       State_Monad.return (e = None)
     }
   }"

definition leaveViaVictim :: "'w tenv \<Rightarrow> teardown_config \<Rightarrow> machine \<Rightarrow> talos_config \<Rightarrow> ('w, bool) tprog" where
  "leaveViaVictim env cfg m tc = do {
     a \<leftarrow> resolveAddress env m;
     case a of
       Inl err \<Rightarrow> State_Monad.return False
     | Inr address \<Rightarrow>
         if address = [] then State_Monad.return False
         else do {
           d \<leftarrow> extcall (TDial address) (te_Dial env tc address);
           case d of
             Inl err \<Rightarrow> State_Monad.return False
           | Inr c \<Rightarrow> do {
               left \<leftarrow> leave_dialog env cfg m c;
               close_call env c;
               State_Monad.return left
             }
         }
   }"

text \<open>What \<open>tryEtcdRemoval\<close> does with the healthy peer, before its deferred Close.\<close>

definition verify_then_act ::
    "'w tenv \<Rightarrow> teardown_config \<Rightarrow> machine \<Rightarrow> talos_config \<Rightarrow> talos_client \<Rightarrow> member_list_response option
       \<Rightarrow> ('w, go_error + string) tprog" where
  "verify_then_act env cfg m tc c resp = (case findMember resp (hostnameCandidates m) of
     None \<Rightarrow> State_Monad.return (Inr EtcdNotMember)
   | Some member \<Rightarrow> do {
       left \<leftarrow> leaveViaVictim env cfg m tc;
       if left then State_Monad.return (Inr EtcdLeft)
       else do {
         e \<leftarrow> extcall (TRemove c (MemberId member) (EtcdCallTimeout cfg))
           (te_EtcdRemoveMemberByID env c (MemberId member) (EtcdCallTimeout cfg));
         State_Monad.return (case e of
           Some err \<Rightarrow> Inl (Wrap ''removing etcd member via peer'' err)
         | None \<Rightarrow> Inr EtcdRemoved)
       }
     })"

definition tryEtcdRemoval :: "'w tenv \<Rightarrow> teardown_config \<Rightarrow> machine \<Rightarrow> ('w, go_error + string) tprog" where
  "tryEtcdRemoval env cfg m = do {
     r \<leftarrow> Config env (CacheNamespace cfg) (clusterKeyFor m);
     case r of
       Inl err \<Rightarrow> do {
         event m ''Warning'' EventCredentialsMissing;
         State_Monad.return (Inl (Wrap ''loading talosconfig'' err))
       }
     | Inr tc \<Rightarrow> do {
         p \<leftarrow> findHealthyPeer env cfg m tc;
         case p of
           Inl err \<Rightarrow> State_Monad.return (Inl err)
         | Inr found \<Rightarrow> do {
             outcome \<leftarrow> verify_then_act env cfg m tc (fst found) (snd found);
             close_call env (fst found);
             State_Monad.return outcome
           }
       }
   }"

definition recordEtcdOutcome :: "machine \<Rightarrow> string \<Rightarrow> ('w, unit) tprog" where
  "recordEtcdOutcome m outcome = do {
     emit (TMetric ''teardown_etcd_total'' outcome);
     (if outcome = EtcdLeft then event m ''Normal'' EventEtcdMemberLeft
      else if outcome = EtcdRemoved then event m ''Normal'' EventEtcdMemberRemoved
      else State_Monad.return ())
   }"

definition conclude_etcd :: "'w tenv \<Rightarrow> machine \<Rightarrow> string \<Rightarrow> ('w, machine \<times> (go_error + duration)) tprog" where
  "conclude_etcd env m outcome = do {
     (m, e) \<leftarrow> stampPhase env m EtcdAnnotation outcome;
     case e of
       Some err \<Rightarrow> State_Monad.return (m, Inl err)
     | None \<Rightarrow> do {
         recordEtcdOutcome m outcome;
         State_Monad.return (m, Inr 0)
       }
   }"

definition ensureEtcdRemoved ::
    "'w tenv \<Rightarrow> teardown_config \<Rightarrow> machine \<Rightarrow> time \<Rightarrow> ('w, machine \<times> (go_error + duration)) tprog" where
  "ensureEtcdRemoved env cfg m observedAt =
     (let deadline = Add observedAt (EtcdTimeout cfg)
      in do {
        r \<leftarrow> tryEtcdRemoval env cfg m;
        case r of
          Inr outcome \<Rightarrow> conclude_etcd env m outcome
        | Inl err \<Rightarrow> do {
            t \<leftarrow> now_call env;
            if After t deadline then do {
              event m ''Warning'' EventEtcdMemberOrphaned;
              conclude_etcd env m EtcdOrphaned
            } else State_Monad.return (m, Inl (Transient err))
          }
      })"

definition etcdPhase ::
    "'w tenv \<Rightarrow> teardown_config \<Rightarrow> machine \<Rightarrow> time \<Rightarrow> bool \<Rightarrow> ('w, machine \<times> (go_error + duration)) tprog" where
  "etcdPhase env cfg m observedAt deleting =
     (if mhas (m_Annotations m) EtcdAnnotation then State_Monad.return (m, Inr 0)
      else if deleting then do {
        (m, e) \<leftarrow> stampPhase env m EtcdAnnotation EtcdSkippedClusterDelete;
        case e of
          Some err \<Rightarrow> State_Monad.return (m, Inl err)
        | None \<Rightarrow> do {
            event m ''Normal'' EventEtcdSkippedClusterDelete;
            emit (TMetric ''teardown_etcd_total'' EtcdSkippedClusterDelete);
            State_Monad.return (m, Inr 0)
          }
      }
      else if \<not> IsControlPlane m then State_Monad.return (m, Inr 0)
      else do {
        r \<leftarrow> serializeControlPlane env m;
        if r = Inr 0 then ensureEtcdRemoved env cfg m observedAt
        else State_Monad.return (m, r)
      })"

section \<open>The reset phase\<close>

definition reset_request_sent :: reset_request where
  "reset_request_sent = \<lparr>Graceful = False, Reboot = False,
     SystemPartitionsToWipe = [\<lparr>PartLabel = ''STATE'', PartWipe = True\<rparr>, \<lparr>PartLabel = ''EPHEMERAL'', PartWipe = True\<rparr>]\<rparr>"

definition reset_dialog :: "'w tenv \<Rightarrow> teardown_config \<Rightarrow> talos_client \<Rightarrow> ('w, go_error + string) tprog" where
  "reset_dialog env cfg c = do {
     started \<leftarrow> now_call env;
     e \<leftarrow> extcall (TReset c reset_request_sent (ResetCallTimeout cfg))
       (te_ResetGeneric env c reset_request_sent (ResetCallTimeout cfg));
     case e of
       Some err \<Rightarrow> State_Monad.return (Inl (Wrap ''resetting node'' err))
     | None \<Rightarrow> do {
         t \<leftarrow> now_call env;
         emit (TResetDuration (t - started));
         State_Monad.return (Inr ResetDone)
       }
   }"

definition tryReset :: "'w tenv \<Rightarrow> teardown_config \<Rightarrow> machine \<Rightarrow> ('w, go_error + string) tprog" where
  "tryReset env cfg m = do {
     a \<leftarrow> resolveAddress env m;
     case a of
       Inl err \<Rightarrow> State_Monad.return (Inl err)
     | Inr address \<Rightarrow>
         if address = [] then State_Monad.return (Inr ResetSkippedNoAddress)
         else do {
           r \<leftarrow> Config env (CacheNamespace cfg) (clusterKeyFor m);
           case r of
             Inl err \<Rightarrow> do {
               event m ''Warning'' EventCredentialsMissing;
               State_Monad.return (Inl (Wrap ''loading talosconfig'' err))
             }
           | Inr tc \<Rightarrow> do {
               d \<leftarrow> extcall (TDial address) (te_Dial env tc address);
               case d of
                 Inl err \<Rightarrow> State_Monad.return (Inl err)
               | Inr c \<Rightarrow> do {
                   outcome \<leftarrow> reset_dialog env cfg c;
                   close_call env c;
                   State_Monad.return outcome
                 }
             }
         }
   }"

definition conclude_reset :: "'w tenv \<Rightarrow> machine \<Rightarrow> string \<Rightarrow> ('w, machine \<times> go_error option) tprog" where
  "conclude_reset env m outcome = do {
     (m, e) \<leftarrow> stampPhase env m ResetAnnotation outcome;
     case e of
       Some err \<Rightarrow> State_Monad.return (m, Some err)
     | None \<Rightarrow> do {
         emit (TMetric ''teardown_reset_total'' outcome);
         (if outcome = ResetSkippedNoAddress then event m ''Normal'' EventResetSkipped else State_Monad.return ());
         (if outcome = ResetDone then event m ''Normal'' EventResetSucceeded else State_Monad.return ());
         State_Monad.return (m, None)
       }
   }"

definition resetPhase ::
    "'w tenv \<Rightarrow> teardown_config \<Rightarrow> machine \<Rightarrow> time \<Rightarrow> ('w, machine \<times> go_error option) tprog" where
  "resetPhase env cfg m observedAt =
     (if mhas (m_Annotations m) ResetAnnotation then State_Monad.return (m, None)
      else let deadline = Add observedAt (ResetTimeout cfg)
      in do {
        r \<leftarrow> tryReset env cfg m;
        case r of
          Inr outcome \<Rightarrow> conclude_reset env m outcome
        | Inl err \<Rightarrow> do {
            t \<leftarrow> now_call env;
            if \<not> After t deadline then State_Monad.return (m, Some (Transient err))
            else do {
              event m ''Warning'' EventResetSkipped;
              conclude_reset env m ResetSkippedTimeout
            }
          }
      })"

section \<open>The handler\<close>

text \<open>From the pre-terminate wait on.\<close>

definition preTerminate :: "'w tenv \<Rightarrow> teardown_config \<Rightarrow> machine \<Rightarrow> ('w, machine \<times> (go_error + duration)) tprog" where
  "preTerminate env cfg m =
     (if \<not> AtPreTerminate m then State_Monad.return (m, Inr 0)
      else if HasOtherPreTerminateHooks m then State_Monad.return (m, Inr hookWaitRequeue)
      else do {
        (m, o1) \<leftarrow> ensureObservedAt env m;
        case o1 of
          Inl err \<Rightarrow> State_Monad.return (m, Inl err)
        | Inr observedAt \<Rightarrow> do {
            d \<leftarrow> clusterDeleting env m;
            case d of
              Inl err \<Rightarrow> State_Monad.return (m, Inl err)
            | Inr deleting \<Rightarrow> do {
                (m, r) \<leftarrow> etcdPhase env cfg m observedAt deleting;
                if r \<noteq> Inr 0 then State_Monad.return (m, r)
                else do {
                  (m, e) \<leftarrow> resetPhase env cfg m observedAt;
                  case e of
                    Some err \<Rightarrow> State_Monad.return (m, Inl err)
                  | None \<Rightarrow> do {
                      (m, e) \<leftarrow> release env m;
                      State_Monad.return (m, case e of Some err \<Rightarrow> Inl err | None \<Rightarrow> Inr 0)
                    }
                }
              }
          }
      })"

definition reconcileDeleting :: "'w tenv \<Rightarrow> teardown_config \<Rightarrow> machine \<Rightarrow> ('w, machine \<times> (go_error + duration)) tprog" where
  "reconcileDeleting env cfg m =
     (if \<not> HasHook m then
        (if mhas (m_Annotations m) ResetAnnotation then State_Monad.return (m, Inr 0)
         else if \<not> StampAllowed m then State_Monad.return (m, Inr 0)
         else do {
           (m, e) \<leftarrow> ensureHook env m;
           case e of
             Some err \<Rightarrow> State_Monad.return (m, Inl err)
           | None \<Rightarrow> do {
               e \<leftarrow> ensureCredentials env cfg m;
               case e of
                 Some err \<Rightarrow> State_Monad.return (m, Inl err)
               | None \<Rightarrow> preTerminate env cfg m
             }
         })
      else preTerminate env cfg m)"

definition ReconcileMachine :: "'w tenv \<Rightarrow> teardown_config \<Rightarrow> object_key \<Rightarrow> ('w, go_error + duration) tprog" where
  "ReconcileMachine env cfg req = do {
     r \<leftarrow> extcall (TGetMachine req) (te_GetMachine env req);
     case r of
       Inl err \<Rightarrow> State_Monad.return (case IgnoreNotFound err of Some e \<Rightarrow> Inl e | None \<Rightarrow> Inr 0)
     | Inr m \<Rightarrow>
         if \<not> Qualifies m \<and> \<not> HasHook m then State_Monad.return (Inr 0)
         else if m_Deletion m = None then do {
           e \<leftarrow> reconcileNormal env cfg m;
           State_Monad.return (case e of Some err \<Rightarrow> Inl err | None \<Rightarrow> Inr 0)
         }
         else do {
           (m, result) \<leftarrow> reconcileDeleting env cfg m;
           State_Monad.return result
         }
   }"

end
