(* ===== verification/NodeAddresses.thy ===== *)
theory NodeAddresses
  imports TeardownEnv
begin

text \<open>
  A reference for the address chain of \<open>internal/teardown/address.go\<close>: the candidates of each of the
  three sources as a list, and what the reads of a trace say about the address of a Machine. The
  protocols of the teardown use it as their evidence that an address was looked up for a Machine.
\<close>

section \<open>The candidates of the sources\<close>

definition is_ip_type :: "address_type \<Rightarrow> bool" where
  "is_ip_type t \<longleftrightarrow> t \<in> {MachineInternalIP, MachineExternalIP}"

definition status_addresses :: "machine \<Rightarrow> string list" where
  "status_addresses m = map snd (filter (\<lambda>(t, _). is_ip_type t) (m_Addresses m))"

fun unstructured_ip :: "json \<Rightarrow> string list" where
  "unstructured_ip (JMap addr) =
     (if json_string (map_of addr ''type'') \<in> {''InternalIP'', ''ExternalIP''}
      then filter (\<lambda>v. v \<noteq> []) [json_string (map_of addr ''address'')] else [])"
| "unstructured_ip _ = []"

definition infrastructure_addresses :: "tinkerbell_machine \<Rightarrow> string list" where
  "infrastructure_addresses tm = concat (map unstructured_ip (tm_Addresses tm))"

definition dhcp_addresses :: "hardware \<Rightarrow> string list" where
  "dhcp_addresses hw = List.map_filter id (map (\<lambda>i. Option.bind (DHCP i) DHCPAddress) (take 1 (Interfaces (hw_Spec hw))))"

definition infra_key :: "machine \<Rightarrow> object_key" where
  "infra_key m = \<lparr>key_namespace = m_Namespace m, key_name = m_InfraName m\<rparr>"

definition hardware_key :: "tinkerbell_machine \<Rightarrow> object_key" where
  "hardware_key tm = \<lparr>key_namespace = if tm_TargetNamespace tm = [] then tm_Namespace tm else tm_TargetNamespace tm,
     key_name = tm_HardwareName tm\<rparr>"

section \<open>What the reads say\<close>

text \<open>The candidates of the Hardware and of the TinkerbellMachine as the calls \<open>us\<close> read them: a source
  that is not referred to or was not found has none.\<close>

definition read_hardware :: "tcall list \<Rightarrow> tinkerbell_machine \<Rightarrow> string list \<Rightarrow> bool" where
  "read_hardware us tm as \<longleftrightarrow> tm_HardwareName tm = [] \<and> as = []
     \<or> tm_HardwareName tm \<noteq> [] \<and> (\<exists>r. TGetHardware (hardware_key tm) r \<in> set us
          \<and> (case r of Inl err \<Rightarrow> IsNotFound err \<and> as = [] | Inr hw \<Rightarrow> as = dhcp_addresses hw))"

definition read_infrastructure :: "tcall list \<Rightarrow> machine \<Rightarrow> string list \<Rightarrow> bool" where
  "read_infrastructure us m as \<longleftrightarrow> m_InfraName m = [] \<and> as = []
     \<or> m_InfraName m \<noteq> [] \<and> (\<exists>r. TGetTinkerbellMachine (infra_key m) r \<in> set us
          \<and> (case r of Inl err \<Rightarrow> IsNotFound err \<and> as = []
             | Inr tm \<Rightarrow> infrastructure_addresses tm \<noteq> [] \<and> as = infrastructure_addresses tm
                 \<or> infrastructure_addresses tm = [] \<and> read_hardware us tm as))"

text \<open>By the reads of \<open>us\<close>, \<open>a\<close> is the first candidate of the chain, and empty when there is none.\<close>

definition resolves :: "tcall list \<Rightarrow> machine \<Rightarrow> string \<Rightarrow> bool" where
  "resolves us m a \<longleftrightarrow> status_addresses m \<noteq> [] \<and> a = hd (status_addresses m)
     \<or> status_addresses m = [] \<and> (\<exists>as. read_infrastructure us m as \<and> a = (case as of [] \<Rightarrow> [] | x # _ \<Rightarrow> x))"

lemma resolves_mono:
  assumes "resolves us m a" and "set us \<subseteq> set vs"
  shows "resolves vs m a"
proof -
  have hw: "read_hardware us tm as \<Longrightarrow> read_hardware vs tm as" for tm as
    using assms(2) unfolding read_hardware_def by (elim disjE) (simp, blast)
  have "read_infrastructure us m as \<Longrightarrow> read_infrastructure vs m as" for as
    unfolding read_infrastructure_def
  proof (elim disjE conjE exE)
    fix r
    assume "TGetTinkerbellMachine (infra_key m) r \<in> set us" "m_InfraName m \<noteq> []" and
      "case r of Inl err \<Rightarrow> IsNotFound err \<and> as = [] | Inr tm \<Rightarrow> infrastructure_addresses tm \<noteq> [] \<and> as = infrastructure_addresses tm
         \<or> infrastructure_addresses tm = [] \<and> read_hardware us tm as"
    with assms(2) hw show "m_InfraName m = [] \<and> as = [] \<or> m_InfraName m \<noteq> [] \<and> (\<exists>r. TGetTinkerbellMachine (infra_key m) r \<in> set vs
          \<and> (case r of Inl err \<Rightarrow> IsNotFound err \<and> as = []
             | Inr tm \<Rightarrow> infrastructure_addresses tm \<noteq> [] \<and> as = infrastructure_addresses tm
                 \<or> infrastructure_addresses tm = [] \<and> read_hardware vs tm as))"
      by (intro disjI2 conjI exI [of _ r]) (auto split: sum.splits)
  qed simp
  with assms(1) show ?thesis unfolding resolves_def by blast
qed

lemma resolves_grows [intro]: "resolves us m a \<Longrightarrow> resolves (us @ xs) m a" "resolves xs m a \<Longrightarrow> resolves (us @ xs) m a"
  by (auto elim: resolves_mono)

lemma resolves_annotations [simp]: "resolves us (SetAnnotations a m) x = resolves us m x"
  by (simp add: resolves_def status_addresses_def read_infrastructure_def infra_key_def)

section \<open>The code finds what the reads say\<close>

lemma first_ip_spec: "first_ip as = (case filter (\<lambda>(t, _). is_ip_type t) as of [] \<Rightarrow> None | x # _ \<Rightarrow> Some (snd x))"
  by (induction as rule: first_ip.induct) (auto simp: is_ip_type_def)

lemma first_ip_status:
  "first_ip (m_Addresses m) = (case status_addresses m of [] \<Rightarrow> None | a # _ \<Rightarrow> Some a)"
  by (simp add: first_ip_spec status_addresses_def split: list.split)

lemma first_unstructured_ip_spec:
  "first_unstructured_ip (tm_Addresses tm) = (case infrastructure_addresses tm of [] \<Rightarrow> None | a # _ \<Rightarrow> Some a)"
proof -
  have "first_unstructured_ip es = (case concat (map unstructured_ip es) of [] \<Rightarrow> None | a # _ \<Rightarrow> Some a)" for es
    by (induction es) (auto simp: Let_def split: json.split list.split)
  then show ?thesis by (simp add: infrastructure_addresses_def)
qed

lemma infrastructure_addresses_nonempty: "[] \<notin> set (infrastructure_addresses tm)"
proof -
  have "[] \<notin> set (unstructured_ip e)" for e by (cases e) auto
  then show ?thesis by (auto simp: infrastructure_addresses_def)
qed

lemma hardware_ip_spec: "hardware_ip hw = (case dhcp_addresses hw of [] \<Rightarrow> [] | a # _ \<Rightarrow> a)"
  by (auto simp: hardware_ip_def dhcp_addresses_def map_filter_def split: list.split option.split)

text \<open>The calls of \<open>resolveAddress\<close> and its result: no read when the status has a candidate; otherwise the
  TinkerbellMachine, and the Hardware only when that has none. A read that fails for another reason
  than NotFound is the error, and the last call.\<close>

definition address_calls :: "machine \<Rightarrow> go_error + string \<Rightarrow> tcall list \<Rightarrow> bool" where
  "address_calls m r xs \<longleftrightarrow>
     (case r of
        Inr a \<Rightarrow> resolves xs m a
      | Inl e \<Rightarrow> \<exists>err. \<not> IsNotFound err
          \<and> (e = Wrap ''getting TinkerbellMachine'' err \<and> xs = [TGetTinkerbellMachine (infra_key m) (Inl err)]
             \<or> (\<exists>tm. e = Wrap ''getting Hardware'' err
                  \<and> xs = [TGetTinkerbellMachine (infra_key m) (Inr tm), TGetHardware (hardware_key tm) (Inl err)])))
     \<and> (xs = []
        \<or> status_addresses m = [] \<and> m_InfraName m \<noteq> [] \<and> (\<exists>t. xs = [TGetTinkerbellMachine (infra_key m) t])
        \<or> status_addresses m = [] \<and> m_InfraName m \<noteq> [] \<and> (\<exists>tm h. infrastructure_addresses tm = []
             \<and> tm_HardwareName tm \<noteq> []
             \<and> xs = [TGetTinkerbellMachine (infra_key m) (Inr tm), TGetHardware (hardware_key tm) h]))"

lemma resolveAddress_calls [contract]: "yields (resolveAddress env m) (address_calls m)"
  unfolding resolveAddress_def hardwareAddress_def Let_def first_ip_status first_unstructured_ip_spec
    infra_key_def [symmetric] hardware_key_def [symmetric]
  by (intro yields_branch yields_bind_extcall yields_return)
    (auto simp: address_calls_def resolves_def read_infrastructure_def read_hardware_def hardware_ip_spec
       split: list.splits sum.splits)

lemma resolveAddress_resolves:
  "yields (resolveAddress env m) (\<lambda>r xs. lookups xs \<and> (\<forall>a. r = Inr a \<longrightarrow> resolves xs m a))"
  by (rule yields_weaken [OF resolveAddress_calls]) (auto simp: address_calls_def)

end
