(* ===== verification/TeardownCalls.thy ===== *)
theory TeardownCalls
  imports Teardown NodeAddresses
begin

text \<open>
  Contracts of the dialogs with Talos nodes: which calls \<open>probePeer\<close>, \<open>leaveViaVictim\<close>,
  \<open>tryEtcdRemoval\<close> and \<open>tryReset\<close> make, that every client they dial is closed again, and what their
  outcome says about the calls made.
\<close>

text \<open>Calls that change neither the Machine, nor an etcd cluster, nor a node, nor a secret.\<close>

fun calm :: "tcall \<Rightarrow> bool" where
  "calm (TGetMachine _ _) = False"
| "calm (TPatch _ _ _ _) = False"
| "calm (TSecretCreate _ _) = False"
| "calm (TSecretUpdate _ _) = False"
| "calm (TSecretDelete _ _) = False"
| "calm (TForfeit _ _ _) = False"
| "calm (TLeave _ _ _) = False"
| "calm (TRemove _ _ _ _) = False"
| "calm (TReset _ _ _ _) = False"
| "calm _ = True"

definition calm_all :: "tcall list \<Rightarrow> bool" where
  "calm_all xs \<longleftrightarrow> (\<forall>x \<in> set xs. calm x)"

lemma calm_all_simps [simp]:
  "calm_all []" "calm_all (x # xs) \<longleftrightarrow> calm x \<and> calm_all xs"
  "calm_all (xs @ ys) \<longleftrightarrow> calm_all xs \<and> calm_all ys"
  by (auto simp: calm_all_def)

definition opened :: "talos_client \<Rightarrow> tcall list \<Rightarrow> bool" where
  "opened c xs \<longleftrightarrow> (\<forall>c'. open_count c' xs = (if c' = c then 1 else 0))"

text \<open>The calls \<open>mid\<close> were made in a row, after calls of which \<open>P\<close> holds.\<close>

definition in_a_row :: "(tcall list \<Rightarrow> bool) \<Rightarrow> tcall list \<Rightarrow> tcall list \<Rightarrow> bool" where
  "in_a_row P mid xs \<longleftrightarrow> (\<exists>vs ws. P vs \<and> xs = vs @ mid @ ws)"

text \<open>A probe that succeeded: a non-empty address looked up for the Machine \<open>p\<close> was dialled, and the node
  there reported a healthy etcd and then its member list, each within the per-call time-out.\<close>

definition probed :: "duration \<Rightarrow> machine \<Rightarrow> talos_client \<Rightarrow> member_list_response option \<Rightarrow> tcall list \<Rightarrow> bool" where
  "probed d p c resp xs \<longleftrightarrow> (\<exists>a svcs. a \<noteq> [] \<and> etcdHealthy svcs
     \<and> in_a_row (\<lambda>vs. resolves vs p a)
         [TDial a (Inr c), TServiceInfo c d (Inr svcs), TMemberList c d (Inr resp)] xs)"

text \<open>A healthy peer of \<open>m\<close>: another control-plane Machine of its cluster, neither deleting nor
  leaving etcd, that was probed.\<close>

definition healthy_peer :: "duration \<Rightarrow> machine \<Rightarrow> talos_client \<Rightarrow> member_list_response option \<Rightarrow> tcall list \<Rightarrow> bool" where
  "healthy_peer d m c resp xs \<longleftrightarrow> (\<exists>peers p. TListPeers m (Inr peers) \<in> set xs \<and> p \<in> set peers
     \<and> m_Name p \<noteq> m_Name m \<and> m_Deletion p = None \<and> \<not> mhas (m_Annotations p) EtcdLeavingAnnotation
     \<and> probed d p c resp xs)"

text \<open>The node of \<open>m\<close> left its etcd cluster: at an address looked up for \<open>m\<close>, a leave was
  acknowledged, perhaps after a forfeit.\<close>

definition node_left :: "duration \<Rightarrow> machine \<Rightarrow> tcall list \<Rightarrow> bool" where
  "node_left d m xs \<longleftrightarrow> (\<exists>a c svcs fs. a \<noteq> [] \<and> etcdNotFinished svcs \<and> (fs = [] \<or> (\<exists>e. fs = [TForfeit c d e]))
     \<and> in_a_row (\<lambda>vs. resolves vs m a) ([TDial a (Inr c), TServiceInfo c d (Inr svcs)] @ fs @ [TLeave c d None]) xs)"

text \<open>The node of \<open>m\<close> was wiped: at an address looked up for \<open>m\<close>, the reset was acknowledged.\<close>

definition node_reset :: "duration \<Rightarrow> machine \<Rightarrow> tcall list \<Rightarrow> bool" where
  "node_reset d m xs \<longleftrightarrow> (\<exists>a c t. a \<noteq> []
     \<and> in_a_row (\<lambda>vs. resolves vs m a) [TDial a (Inr c), TNow t, TReset c reset_request_sent d None] xs)"

lemma in_a_row_grows:
  assumes "in_a_row P mid xs" and "\<And>vs. P vs \<Longrightarrow> P (us @ vs)"
  shows "in_a_row P mid (us @ xs @ zs)"
proof -
  from assms obtain vs ws where "P (us @ vs)" "us @ xs @ zs = (us @ vs) @ mid @ (ws @ zs)" by (auto simp: in_a_row_def)
  then show ?thesis unfolding in_a_row_def by blast
qed

lemma probed_grows: "probed d p c resp xs \<Longrightarrow> probed d p c resp (us @ xs @ vs)"
  unfolding probed_def by (blast intro: in_a_row_grows)

lemma healthy_peer_grows: "healthy_peer d m c resp xs \<Longrightarrow> healthy_peer d m c resp (us @ xs @ vs)"
  unfolding healthy_peer_def by (auto intro: probed_grows)

lemma node_left_grows: "node_left d m xs \<Longrightarrow> node_left d m (us @ xs @ vs)"
  unfolding node_left_def by (blast intro: in_a_row_grows)

lemma node_reset_grows: "node_reset d m xs \<Longrightarrow> node_reset d m (us @ xs @ vs)"
  unfolding node_reset_def by (blast intro: in_a_row_grows)

lemmas evidence_grows = probed_grows healthy_peer_grows node_left_grows node_reset_grows
lemmas evidence_after = evidence_grows [where us = "[]", unfolded append_Nil]
lemmas evidence_before = evidence_grows [where vs = "[]", unfolded append_Nil2]

fun is_leave :: "duration \<Rightarrow> tcall \<Rightarrow> bool" where
  "is_leave d (TForfeit _ d' _) = (d' = d)"
| "is_leave d (TLeave _ d' _) = (d' = d)"
| "is_leave d _ = False"

lemma opened_balanced: "balanced xs \<Longrightarrow> opened c ys \<Longrightarrow> opened c (xs @ ys)"
  by (simp add: opened_def balanced_def)

lemma opened_closed: "opened c xs \<Longrightarrow> balanced ys \<Longrightarrow> balanced (xs @ ys @ [TClose c])"
  by (simp add: opened_def balanced_def)

lemma lookups_calm: "lookups xs \<Longrightarrow> calm_all xs"
  by (induction xs) (auto elim: is_lookup.elims)

section \<open>Probing peers\<close>

definition probe_result ::
    "duration \<Rightarrow> machine set \<Rightarrow> (talos_client \<times> member_list_response option) option \<Rightarrow> tcall list \<Rightarrow> bool" where
  "probe_result d P r xs \<longleftrightarrow> calm_all xs \<and> (case r of
     None \<Rightarrow> balanced xs
   | Some found \<Rightarrow> opened (fst found) xs \<and> (\<exists>p \<in> P. probed d p (fst found) (snd found) xs))"

lemma probePeer_calls [contract]: "yields (probePeer env cfg tc peer) (probe_result (EtcdCallTimeout cfg) {peer})"
  unfolding probePeer_def callServiceInfo_def close_call_def
proof (rule yields_bind [OF resolveAddress_resolves])
  fix r :: "go_error + string" and xs
  assume r: "lookups xs \<and> (\<forall>a. r = Inr a \<longrightarrow> resolves xs peer a)"
  then have xs: "calm_all xs" "balanced xs" by (simp_all add: lookups_calm lookups_balanced)
  have found: "probed d peer c resp (xs @ TDial a (Inr c) # TServiceInfo c d (Inr svcs) # [TMemberList c d (Inr resp)])"
    if "r = Inr a" "a \<noteq> []" "etcdHealthy svcs" for d a c svcs resp
  proof -
    have "in_a_row (\<lambda>vs. resolves vs peer a) [TDial a (Inr c), TServiceInfo c d (Inr svcs), TMemberList c d (Inr resp)]
        (xs @ [TDial a (Inr c), TServiceInfo c d (Inr svcs), TMemberList c d (Inr resp)])"
      unfolding in_a_row_def using r that(1) by (intro exI [of _ xs] exI [of _ "[]"]) simp
    with that show ?thesis unfolding probed_def by auto
  qed
  show "yields (case r of
     Inl err \<Rightarrow> State_Monad.return None
   | Inr address \<Rightarrow>
       if address = [] then State_Monad.return None
       else do {
         d \<leftarrow> extcall (TDial address) (te_Dial env tc address);
         case d of
           Inl err \<Rightarrow> State_Monad.return None
         | Inr c \<Rightarrow> do {
             s \<leftarrow> extcall (TServiceInfo c (EtcdCallTimeout cfg)) (te_ServiceInfo env c (EtcdCallTimeout cfg));
             if (case s of Inl err \<Rightarrow> True | Inr svcs \<Rightarrow> \<not> etcdHealthy svcs) then do {
               extcall (\<lambda>_. TClose c) (te_Close env c);
               State_Monad.return None
             } else do {
               l \<leftarrow> extcall (TMemberList c (EtcdCallTimeout cfg)) (te_EtcdMemberList env c (EtcdCallTimeout cfg));
               case l of
                 Inl err \<Rightarrow> do {
                   extcall (\<lambda>_. TClose c) (te_Close env c);
                   State_Monad.return None
                 }
               | Inr resp \<Rightarrow> State_Monad.return (Some (c, resp))
             }
           }
       }) (\<lambda>r ys. probe_result (EtcdCallTimeout cfg) {peer} r (xs @ ys))"
    by (intro yields_branch yields_bind_extcall yields_return)
      (use xs found in \<open>auto simp: probe_result_def opened_def balanced_def split: sum.splits\<close>)
qed

lemma probe_peers_calls [contract]:
  "yields (probe_peers env cfg tc peers) (\<lambda>r xs. probe_result (EtcdCallTimeout cfg) (set peers)
     (case r of Inl _ \<Rightarrow> None | Inr found \<Rightarrow> Some found) xs)"
proof (induction peers)
  case Nil
  show ?case by (simp, rule yields_return) (simp add: probe_result_def)
next
  case (Cons peer peers)
  show ?case
    unfolding probe_peers.simps
  proof (rule yields_bind [OF probePeer_calls])
    fix r xs
    assume r: "probe_result (EtcdCallTimeout cfg) {peer} r xs"
    show "yields (case r of None \<Rightarrow> probe_peers env cfg tc peers | Some found \<Rightarrow> State_Monad.return (Inr found))
        (\<lambda>r' ys. probe_result (EtcdCallTimeout cfg) (set (peer # peers)) (case r' of Inl _ \<Rightarrow> None | Inr found \<Rightarrow> Some found) (xs @ ys))"
    proof (cases r)
      case None
      have "probe_result (EtcdCallTimeout cfg) (set (peer # peers)) r' (xs @ ys)"
        if "probe_result (EtcdCallTimeout cfg) (set peers) r' ys" for r' ys
        using r None that by (cases r') (auto simp: probe_result_def opened_balanced dest: evidence_before(1) [where us = xs])
      then show ?thesis unfolding None option.case by (rule yields_weaken [OF Cons.IH])
    qed (use r in \<open>auto simp: probe_result_def intro: yields_return\<close>)
  qed
qed

definition peer_result ::
    "duration \<Rightarrow> machine \<Rightarrow> go_error + talos_client \<times> member_list_response option \<Rightarrow> tcall list \<Rightarrow> bool" where
  "peer_result d m r xs \<longleftrightarrow> calm_all xs \<and> (case r of
     Inl _ \<Rightarrow> balanced xs
   | Inr found \<Rightarrow> opened (fst found) xs \<and> healthy_peer d m (fst found) (snd found) xs)"

lemma findHealthyPeer_calls [contract]: "yields (findHealthyPeer env cfg m tc) (peer_result (EtcdCallTimeout cfg) m)"
  unfolding findHealthyPeer_def listControlPlaneMachines_def
proof (intro yields_bind_extcall yields_case_sum yields_return)
  fix w peers
  let ?l = "fst (te_ListMachines env (m_Namespace m) [(CapiClusterNameLabel, key_name (clusterKeyFor m))] [MachineControlPlaneLabel] w)"
  assume l: "?l = Inr peers"
  have found: "peer_result d m r (TListPeers m (Inr peers) # xs)"
    if "probe_result d (set (orderPeers peers m)) (case r of Inl _ \<Rightarrow> None | Inr found \<Rightarrow> Some found) xs" for d r xs
  proof (cases r)
    case (Inl e)
    with that show ?thesis by (simp add: probe_result_def peer_result_def)
  next
    case (Inr found)
    with that obtain p where p: "p \<in> set peers" "peer_candidate m p" "probed d p (fst found) (snd found) xs"
      "calm_all xs" "opened (fst found) xs" by (auto simp: probe_result_def set_orderPeers)
    from evidence_before(1) [OF p(3), of "[TListPeers m (Inr peers)]"] p(1,2)
    have "healthy_peer d m (fst found) (snd found) (TListPeers m (Inr peers) # xs)"
      by (auto simp: healthy_peer_def peer_candidate_def)
    with Inr p(4,5) show ?thesis by (simp add: peer_result_def opened_def)
  qed
  show "yields (probe_peers env cfg tc (orderPeers peers m)) (\<lambda>r ys. peer_result (EtcdCallTimeout cfg) m r (TListPeers m ?l # ys))"
    unfolding l by (rule yields_weaken [OF probe_peers_calls]) (rule found)
qed (simp add: peer_result_def)

section \<open>Leaving and removing\<close>

text \<open>What \<open>leaveViaVictim\<close> does: it leaves nothing open, tries at most the forfeit and the leave, and
  answers true exactly when a leave was acknowledged.\<close>

definition leave_result :: "duration \<Rightarrow> machine \<Rightarrow> bool \<Rightarrow> tcall list \<Rightarrow> bool" where
  "leave_result d m left xs \<longleftrightarrow> balanced xs \<and> (\<forall>x \<in> set xs. calm x \<or> is_leave d x)
     \<and> (left \<longleftrightarrow> (\<exists>c. TLeave c d None \<in> set xs)) \<and> (left \<longrightarrow> node_left d m xs)"

definition dialog_result :: "duration \<Rightarrow> talos_client \<Rightarrow> bool \<Rightarrow> tcall list \<Rightarrow> bool" where
  "dialog_result d c left xs \<longleftrightarrow> (\<forall>c'. open_count c' xs = 0) \<and> (\<forall>x \<in> set xs. calm x \<or> is_leave d x)
     \<and> (left \<longleftrightarrow> (\<exists>c. TLeave c d None \<in> set xs))
     \<and> (left \<longrightarrow> (\<exists>svcs fs. etcdNotFinished svcs \<and> (fs = [] \<or> (\<exists>e. fs = [TForfeit c d e]))
          \<and> xs = TServiceInfo c d (Inr svcs) # fs @ [TLeave c d None]))"

lemma leave_dialog_calls: "yields (leave_dialog env cfg m c) (dialog_result (EtcdCallTimeout cfg) c)"
proof -
  have "yields (if \<not> mhas (m_Annotations m) EtcdLeavingAnnotation then do {
          e \<leftarrow> extcall (TForfeit c d) (te_EtcdForfeitLeadership env c d);
          State_Monad.return ()
        } else State_Monad.return ())
      (\<lambda>_ xs. xs = [] \<or> (\<exists>e. xs = [TForfeit c d e]))" for d
    by (intro yields_branch yields_bind_extcall yields_return) auto
  note forfeit = this
  show ?thesis
    unfolding leave_dialog_def callServiceInfo_def
    by (intro yields_branch yields_bind_extcall yields_bind [OF forfeit] yields_return)
      (auto simp: dialog_result_def split: sum.splits)
qed

lemma leaveViaVictim_calls [contract]:
  "yields (leaveViaVictim env cfg m tc) (leave_result (EtcdCallTimeout cfg) m)"
  unfolding leaveViaVictim_def close_call_def
proof (rule yields_bind [OF resolveAddress_resolves])
  fix r :: "go_error + string" and xs
  assume r: "lookups xs \<and> (\<forall>a. r = Inr a \<longrightarrow> resolves xs m a)"
  then have xs: "calm_all xs" "balanced xs" by (simp_all add: lookups_calm lookups_balanced)
  have quiet: "leave_result d m False (xs @ ys)" if "calm_all ys" "balanced ys" for d ys
    using xs that unfolding leave_result_def calm_all_def by fastforce
  have left: "leave_result d m b (xs @ TDial a (Inr c) # ys @ [TClose c])"
    if a: "r = Inr a" "a \<noteq> []" and y: "dialog_result d c b ys" for d a c b ys
  proof -
    have "node_left d m (xs @ TDial a (Inr c) # ys @ [TClose c])" if b
    proof -
      from y that obtain svcs fs where f: "etcdNotFinished svcs" "fs = [] \<or> (\<exists>e. fs = [TForfeit c d e])"
        "ys = TServiceInfo c d (Inr svcs) # fs @ [TLeave c d None]" by (auto simp: dialog_result_def)
      have "in_a_row (\<lambda>vs. resolves vs m a) ([TDial a (Inr c), TServiceInfo c d (Inr svcs)] @ fs @ [TLeave c d None])
          (xs @ TDial a (Inr c) # ys @ [TClose c])"
        unfolding in_a_row_def using r a(1) by (intro exI [of _ xs] exI [of _ "[TClose c]"]) (simp add: f(3))
      with f a(2) show ?thesis unfolding node_left_def by blast
    qed
    moreover have "\<forall>x \<in> set xs. calm x" "\<forall>c. TLeave c d None \<notin> set xs"
      using xs(1) by (auto simp: calm_all_def)
    ultimately show ?thesis
      using xs y unfolding leave_result_def dialog_result_def by (auto simp: balanced_def)
  qed
  show "yields (case r of
     Inl err \<Rightarrow> State_Monad.return False
   | Inr address \<Rightarrow>
       if address = [] then State_Monad.return False
       else do {
         d \<leftarrow> extcall (TDial address) (te_Dial env tc address);
         case d of
           Inl err \<Rightarrow> State_Monad.return False
         | Inr c \<Rightarrow> do {
             left \<leftarrow> leave_dialog env cfg m c;
             extcall (\<lambda>_. TClose c) (te_Close env c);
             State_Monad.return left
           }
       }) (\<lambda>r ys. leave_result (EtcdCallTimeout cfg) m r (xs @ ys))"
    by (intro yields_branch yields_bind_extcall yields_bind [OF leave_dialog_calls] yields_return)
      (use quiet [of "[]"] quiet left in \<open>auto simp: balanced_def\<close>)
qed

text \<open>An outcome of the removal and the calls that justify it.\<close>

definition removal_outcome :: "duration \<Rightarrow> machine \<Rightarrow> string \<Rightarrow> tcall list \<Rightarrow> bool" where
  "removal_outcome d m v xs \<longleftrightarrow>
     v = EtcdNotMember \<and> (\<exists>c resp. healthy_peer d m c resp xs \<and> findMember resp (hostnameCandidates m) = None)
     \<or> v = EtcdLeft \<and> node_left d m xs
     \<or> v = EtcdRemoved \<and> (\<exists>c resp member. healthy_peer d m c resp xs
          \<and> findMember resp (hostnameCandidates m) = Some member \<and> TRemove c (MemberId member) d None \<in> set xs)"

text \<open>A change of the etcd cluster that a healthy peer's member list justifies: the list the peer \<open>c\<close>
  answered names the victim, and a removal goes to that peer with the identifier it gave.\<close>

definition justified :: "duration \<Rightarrow> machine \<Rightarrow> tcall \<Rightarrow> talos_client \<Rightarrow> member_list_response option \<Rightarrow> bool" where
  "justified d m x c resp \<longleftrightarrow> (\<exists>member. findMember resp (hostnameCandidates m) = Some member
     \<and> (is_leave d x \<or> (\<exists>e. x = TRemove c (MemberId member) d e)))"

definition act_result ::
    "duration \<Rightarrow> machine \<Rightarrow> talos_client \<Rightarrow> member_list_response option \<Rightarrow> go_error + string \<Rightarrow> tcall list \<Rightarrow> bool" where
  "act_result d m c resp r xs \<longleftrightarrow> balanced xs \<and> (\<forall>x \<in> set xs. calm x \<or> justified d m x c resp)
     \<and> (\<forall>v. r = Inr v \<longrightarrow> v = EtcdNotMember \<and> findMember resp (hostnameCandidates m) = None
          \<or> v = EtcdLeft \<and> node_left d m xs
          \<or> v = EtcdRemoved \<and> (\<exists>member. findMember resp (hostnameCandidates m) = Some member
               \<and> TRemove c (MemberId member) d None \<in> set xs))"

lemma verify_then_act_calls:
  "yields (verify_then_act env cfg m tc c resp) (act_result (EtcdCallTimeout cfg) m c resp)"
proof (cases "findMember resp (hostnameCandidates m)")
  case None
  then show ?thesis by (auto simp: verify_then_act_def act_result_def intro: yields_return)
next
  case (Some member)
  show ?thesis
    unfolding verify_then_act_def Some option.case
    by (intro yields_bind [OF leaveViaVictim_calls] yields_branch yields_bind_extcall yields_return)
      (auto simp: act_result_def leave_result_def justified_def Some split: option.splits)
qed

text \<open>The whole attempt: probing first, then only justified changes.\<close>

definition removal_result :: "duration \<Rightarrow> machine \<Rightarrow> go_error + string \<Rightarrow> tcall list \<Rightarrow> bool" where
  "removal_result d m r xs \<longleftrightarrow> balanced xs \<and> (\<exists>ps qs. xs = ps @ qs \<and> calm_all ps
     \<and> (\<forall>x \<in> set qs. calm x \<or> (\<exists>c resp. healthy_peer d m c resp ps \<and> justified d m x c resp)))
     \<and> (\<forall>v. r = Inr v \<longrightarrow> removal_outcome d m v xs)"

lemma removal_result_calm: "calm_all xs \<Longrightarrow> balanced xs \<Longrightarrow> removal_result d m (Inl err) xs"
  unfolding removal_result_def by (intro conjI exI [of _ xs] exI [of _ "[]"]) simp_all

lemma removal_result_found:
  assumes "calm_all ps" and "opened c ps" and "healthy_peer d m c resp ps" and "act_result d m c resp r qs"
  shows "removal_result d m r (ps @ qs @ [TClose c])"
  unfolding removal_result_def
proof (intro conjI)
  show "balanced (ps @ qs @ [TClose c])"
    using assms(2,4) by (intro opened_closed) (auto simp: act_result_def)
  show "\<exists>ps' qs'. ps @ qs @ [TClose c] = ps' @ qs' \<and> calm_all ps' \<and>
      (\<forall>x \<in> set qs'. calm x \<or> (\<exists>c resp. healthy_peer d m c resp ps' \<and> justified d m x c resp))"
    using assms by (intro exI [of _ ps] exI [of _ "qs @ [TClose c]"]) (auto simp: act_result_def)
  have a: "healthy_peer d m c resp (ps @ qs @ [TClose c])" by (rule evidence_after(2) [OF assms(3)])
  have "removal_outcome d m v (ps @ qs @ [TClose c])" if "r = Inr v" for v
  proof -
    from assms(4) that consider "v = EtcdNotMember" "findMember resp (hostnameCandidates m) = None"
      | "v = EtcdLeft" "node_left d m qs"
      | member where "v = EtcdRemoved" "findMember resp (hostnameCandidates m) = Some member"
          "TRemove c (MemberId member) d None \<in> set qs" by (auto simp: act_result_def)
    then show ?thesis
      by cases (use a node_left_grows [of d m qs ps "[TClose c]"] in \<open>auto simp: removal_outcome_def\<close>)
  qed
  then show "\<forall>v. r = Inr v \<longrightarrow> removal_outcome d m v (ps @ qs @ [TClose c])" by blast
qed

lemma removal_outcome_append: "removal_outcome d m v xs \<Longrightarrow> removal_outcome d m v (us @ xs)"
  unfolding removal_outcome_def by (auto dest: evidence_before(2,3) [where us = us])

lemma removal_result_prefix:
  assumes "lookups us" and "removal_result d m r xs"
  shows "removal_result d m r (us @ xs)"
proof -
  from assms(2) obtain ps qs where pq: "xs = ps @ qs" "calm_all ps"
    "\<forall>x \<in> set qs. calm x \<or> (\<exists>c resp. healthy_peer d m c resp ps \<and> justified d m x c resp)"
    by (auto simp: removal_result_def)
  have "\<exists>ps qs. us @ xs = ps @ qs \<and> calm_all ps
     \<and> (\<forall>x \<in> set qs. calm x \<or> (\<exists>c resp. healthy_peer d m c resp ps \<and> justified d m x c resp))"
    using pq assms(1) by (intro exI [of _ "us @ ps"] exI [of _ qs]) (auto simp: lookups_calm intro: evidence_before)
  then show ?thesis
    using assms lookups_balanced removal_outcome_append unfolding removal_result_def by simp
qed

lemma tryEtcdRemoval_calls [contract]:
  "yields (tryEtcdRemoval env cfg m) (removal_result (EtcdCallTimeout cfg) m)"
  unfolding tryEtcdRemoval_def close_call_def event_def
proof (rule yields_bind_prefix [where Q' = "removal_result (EtcdCallTimeout cfg) m", OF Config_lookups], goal_cases)
  case (2 a xs r ys)
  then show ?case by (rule removal_result_prefix)
next
  case (1 a)
  show ?case
  proof (cases a)
    case (Inl e)
    then show ?thesis
      by simp (intro yields_bind_emit yields_return removal_result_calm, simp_all)
  next
    case (Inr tc)
    show ?thesis
      unfolding Inr sum.case
    proof (rule yields_bind [OF findHealthyPeer_calls])
      fix p :: "go_error + talos_client \<times> member_list_response option" and xs
      assume p: "peer_result (EtcdCallTimeout cfg) m p xs"
      show "yields (case p of Inl err \<Rightarrow> State_Monad.return (Inl err)
          | Inr found \<Rightarrow> do {
             outcome \<leftarrow> verify_then_act env cfg m tc (fst found) (snd found);
             extcall (\<lambda>_. TClose (fst found)) (te_Close env (fst found));
             State_Monad.return outcome
           }) (\<lambda>r ys. removal_result (EtcdCallTimeout cfg) m r (xs @ ys))"
      proof (cases p)
        case (Inl e)
        with p show ?thesis by (auto intro!: yields_return removal_result_calm simp: peer_result_def)
      next
        case (Inr found)
        with p have p': "calm_all xs" "opened (fst found) xs"
          "healthy_peer (EtcdCallTimeout cfg) m (fst found) (snd found) xs" by (auto simp: peer_result_def)
        show ?thesis
          unfolding Inr sum.case
          by (intro yields_bind [OF verify_then_act_calls] yields_bind_extcall yields_return)
            (simp add: removal_result_found [OF p'])
      qed
    qed
  qed
qed

section \<open>Resetting\<close>

text \<open>One reset at most, the last thing said to the node; an outcome is backed by it, or by a lookup
  that found no address.\<close>

definition reset_result :: "duration \<Rightarrow> machine \<Rightarrow> go_error + string \<Rightarrow> tcall list \<Rightarrow> bool" where
  "reset_result d m r xs \<longleftrightarrow> balanced xs
     \<and> (\<exists>ps qs. xs = ps @ qs \<and> calm_all ps
        \<and> (calm_all qs \<and> r \<noteq> Inr ResetDone
           \<or> (\<exists>c e rest. qs = TReset c reset_request_sent d e # rest \<and> calm_all rest \<and> (r = Inr ResetDone \<longleftrightarrow> e = None))))
     \<and> (\<forall>v. r = Inr v \<longrightarrow> v = ResetDone \<and> node_reset d m xs
          \<or> v = ResetSkippedNoAddress \<and> calm_all xs \<and> resolves xs m [])"

lemma reset_result_calm:
  "calm_all xs \<Longrightarrow> balanced xs \<Longrightarrow> reset_result d m (Inl err) xs"
  "calm_all xs \<Longrightarrow> balanced xs \<Longrightarrow> resolves xs m [] \<Longrightarrow> reset_result d m (Inr ResetSkippedNoAddress) xs"
  unfolding reset_result_def by (intro conjI exI [of _ xs] exI [of _ "[]"]; simp add: conclusion_defs)+

lemma conclusions_distinct [simp]:
  "ResetSkippedNoAddress \<noteq> ResetDone" "ResetSkippedTimeout \<noteq> ResetDone"
  "ResetDone \<noteq> ResetSkippedNoAddress" "ResetDone \<noteq> ResetSkippedTimeout"
  "ResetSkippedTimeout \<noteq> ResetSkippedNoAddress" "ResetSkippedNoAddress \<noteq> ResetSkippedTimeout"
  by (simp_all add: conclusion_defs)

definition reset_dialog_result :: "duration \<Rightarrow> talos_client \<Rightarrow> go_error + string \<Rightarrow> tcall list \<Rightarrow> bool" where
  "reset_dialog_result d c r xs \<longleftrightarrow> (\<exists>t e rest. xs = TNow t # TReset c reset_request_sent d e # rest
     \<and> calm_all rest \<and> balanced rest \<and> (r = Inr ResetDone \<longleftrightarrow> e = None) \<and> (\<forall>v. r = Inr v \<longrightarrow> v = ResetDone))"

lemma reset_dialog_calls: "yields (reset_dialog env cfg c) (reset_dialog_result (ResetCallTimeout cfg) c)"
  unfolding reset_dialog_def now_call_def
  by (intro yields_branch yields_bind_extcall yields_bind_emit yields_return)
    (auto simp: reset_dialog_result_def)

lemma reset_result_dialog:
  assumes "reset_dialog_result d c r xs" and "calm_all ys" and "balanced ys" and "resolves ys m a" and "a \<noteq> []"
  shows "reset_result d m r (ys @ TDial a (Inr c) # xs @ [TClose c])"
proof -
  from assms(1) obtain t e rest where x: "xs = TNow t # TReset c reset_request_sent d e # rest"
    "calm_all rest" "balanced rest" "r = Inr ResetDone \<longleftrightarrow> e = None" "\<forall>v. r = Inr v \<longrightarrow> v = ResetDone"
    by (auto simp: reset_dialog_result_def)
  have "ys @ TDial a (Inr c) # xs @ [TClose c]
      = (ys @ [TDial a (Inr c), TNow t]) @ TReset c reset_request_sent d e # (rest @ [TClose c])"
    by (simp add: x(1))
  moreover have "calm_all (ys @ [TDial a (Inr c), TNow t])" "calm_all (rest @ [TClose c])"
    using assms(2) x(2) by simp_all
  moreover have "balanced (ys @ TDial a (Inr c) # xs @ [TClose c])"
    using assms(3) x(1,3) by (simp add: balanced_def)
  moreover have "node_reset d m (ys @ TDial a (Inr c) # xs @ [TClose c])" if "r = Inr v" for v
  proof -
    have "e = None" using that x(4,5) by blast
    then have "in_a_row (\<lambda>vs. resolves vs m a) [TDial a (Inr c), TNow t, TReset c reset_request_sent d None]
        (ys @ TDial a (Inr c) # xs @ [TClose c])"
      unfolding in_a_row_def x(1) using assms(4) by (intro exI [of _ ys] exI [of _ "rest @ [TClose c]"]) simp
    with assms(5) show ?thesis unfolding node_reset_def by blast
  qed
  ultimately show ?thesis using x(4,5) unfolding reset_result_def by metis
qed

lemma tryReset_calls [contract]: "yields (tryReset env cfg m) (reset_result (ResetCallTimeout cfg) m)"
  unfolding tryReset_def close_call_def event_def
proof (rule yields_bind [OF resolveAddress_resolves])
  fix r :: "go_error + string" and xs
  assume r: "lookups xs \<and> (\<forall>a. r = Inr a \<longrightarrow> resolves xs m a)"
  then have xs: "calm_all xs" "balanced xs" by (simp_all add: lookups_calm lookups_balanced)
  have err: "reset_result d m (Inl e) (xs @ ys)" if "calm_all ys" "balanced ys" for d e ys
    using xs that by (intro reset_result_calm) simp_all
  have dial: "reset_result d m v (xs @ gs @ TDial a (Inr c) # ys @ [TClose c])"
    if "r = Inr a" "a \<noteq> []" "lookups gs" "reset_dialog_result d c v ys" for d v gs a c ys
    using reset_result_dialog [OF that(4), of "xs @ gs" m a] that xs r
    by (auto simp: lookups_calm lookups_balanced)
  show "yields (case r of
       Inl err \<Rightarrow> State_Monad.return (Inl err)
     | Inr address \<Rightarrow>
         if address = [] then State_Monad.return (Inr ResetSkippedNoAddress)
         else do {
           r \<leftarrow> Config env (CacheNamespace cfg) (clusterKeyFor m);
           case r of
             Inl err \<Rightarrow> do {
               emit (TEvent (m_key m) ''Warning'' EventCredentialsMissing);
               State_Monad.return (Inl (Wrap ''loading talosconfig'' err))
             }
           | Inr tc \<Rightarrow> do {
               d \<leftarrow> extcall (TDial address) (te_Dial env tc address);
               case d of
                 Inl err \<Rightarrow> State_Monad.return (Inl err)
               | Inr c \<Rightarrow> do {
                   outcome \<leftarrow> reset_dialog env cfg c;
                   extcall (\<lambda>_. TClose c) (te_Close env c);
                   State_Monad.return outcome
                 }
             }
         }) (\<lambda>v ys. reset_result (ResetCallTimeout cfg) m v (xs @ ys))"
    by (intro yields_branch yields_bind_extcall yields_bind_emit yields_bind [OF Config_lookups]
        yields_bind [OF reset_dialog_calls] yields_return)
      (use err [of "[]"] err dial r xs in \<open>auto intro!: reset_result_calm simp: lookups_calm lookups_balanced\<close>)
qed

end
