(* ===== verification/TeardownProtocol.thy ===== *)
theory TeardownProtocol
  imports TeardownCalls
begin

text \<open>
  The abstract specification of the teardown: a protocol that says, from the calls of one reconcile so
  far, which call may come next. \<open>memory\<close> is the Machine the handler holds: the object it read, with
  the annotations its own patches gave it. The last lemma is the refinement: every call
  \<open>ReconcileMachine\<close> makes is permitted by the protocol, and every Talos client it dials is closed.
\<close>

section \<open>What the history says\<close>

fun memory_step :: "machine option \<Rightarrow> tcall \<Rightarrow> machine option" where
  "memory_step mem (TGetMachine _ (Inr m)) = Some m"
| "memory_step mem (TPatch _ _ after _) = map_option (SetAnnotations after) mem"
| "memory_step mem _ = mem"

definition memory :: "tcall list \<Rightarrow> machine option" where
  "memory us = foldl memory_step None us"

definition failed_patch :: "tcall list \<Rightarrow> bool" where
  "failed_patch us \<longleftrightarrow> (\<exists>k b a e. TPatch k b a (Some e) \<in> set us)"

definition released :: "tcall list \<Rightarrow> bool" where
  "released us \<longleftrightarrow> (\<exists>k b a e. TPatch k b a e \<in> set us \<and> mhas b HookAnnotation \<and> \<not> mhas a HookAnnotation)"

definition was_reset :: "tcall list \<Rightarrow> bool" where
  "was_reset us \<longleftrightarrow> (\<exists>x \<in> set us. is_reset x)"

text \<open>The controller's turn: its hook is the one the deletion waits for.\<close>

definition in_turn :: "machine \<Rightarrow> bool" where
  "in_turn m \<longleftrightarrow> HasHook m \<and> m_Deletion m \<noteq> None \<and> AtPreTerminate m \<and> \<not> HasOtherPreTerminateHooks m"

definition etcd_concluded :: "machine \<Rightarrow> bool" where
  "etcd_concluded m \<longleftrightarrow> mhas (m_Annotations m) EtcdAnnotation \<or> \<not> IsControlPlane m"

text \<open>A phase is still to be concluded.\<close>

definition unfinished :: "machine \<Rightarrow> bool" where
  "unfinished m \<longleftrightarrow> \<not> etcd_concluded m \<or> \<not> mhas (m_Annotations m) ResetAnnotation"

definition cluster_ending :: "tcall list \<Rightarrow> machine \<Rightarrow> bool" where
  "cluster_ending us m \<longleftrightarrow> (\<exists>r. TGetCluster (clusterKeyFor m) r \<in> set us \<and>
     (case r of Inl err \<Rightarrow> IsNotFound err | Inr cluster \<Rightarrow> om_DeletionTimestamp cluster \<noteq> None))"

definition cluster_alive :: "tcall list \<Rightarrow> machine \<Rightarrow> bool" where
  "cluster_alive us m \<longleftrightarrow> (\<exists>cluster. TGetCluster (clusterKeyFor m) (Inr cluster) \<in> set us
     \<and> om_DeletionTimestamp cluster = None)"

definition not_held :: "tcall list \<Rightarrow> machine \<Rightarrow> bool" where
  "not_held us m \<longleftrightarrow> (\<exists>peers. TListPeers m (Inr peers) \<in> set us \<and> \<not> held_by m peers)"

text \<open>The start of the phase clocks: what the observed-at annotation says, or the clock reading just
  written into it.\<close>

definition observed_at :: "tcall list \<Rightarrow> machine \<Rightarrow> time \<Rightarrow> bool" where
  "observed_at us m t \<longleftrightarrow> ParseRFC3339 (mget (m_Annotations m) ObservedAtAnnotation) = Some t
     \<or> (\<exists>t0. TNow t0 \<in> set us \<and> t = TruncateSecond t0
          \<and> mget (m_Annotations m) ObservedAtAnnotation = FormatRFC3339 t)"

definition expired :: "tcall list \<Rightarrow> machine \<Rightarrow> duration \<Rightarrow> bool" where
  "expired us m timeout \<longleftrightarrow> (\<exists>now start. TNow now \<in> set us \<and> observed_at us m start
     \<and> After now (Add start timeout))"

section \<open>The permitted calls\<close>

text \<open>What must have happened for a conclusion of the etcd phase, and for one of the reset phase.\<close>

definition etcd_outcome :: "teardown_config \<Rightarrow> tcall list \<Rightarrow> machine \<Rightarrow> string \<Rightarrow> bool" where
  "etcd_outcome cfg us m v \<longleftrightarrow>
     v = EtcdSkippedClusterDelete \<and> cluster_ending us m
     \<or> IsControlPlane m \<and> cluster_alive us m \<and> not_held us m
        \<and> (removal_outcome (EtcdCallTimeout cfg) m v us \<or> v = EtcdOrphaned \<and> expired us m (EtcdTimeout cfg))"

definition reset_outcome :: "teardown_config \<Rightarrow> tcall list \<Rightarrow> machine \<Rightarrow> string \<Rightarrow> bool" where
  "reset_outcome cfg us m v \<longleftrightarrow>
     v = ResetDone \<and> node_reset (ResetCallTimeout cfg) m us
     \<or> v = ResetSkippedNoAddress \<and> \<not> was_reset us \<and> resolves us m []
     \<or> v = ResetSkippedTimeout \<and> expired us m (ResetTimeout cfg)"

definition patch_permitted :: "teardown_config \<Rightarrow> tcall list \<Rightarrow> machine \<Rightarrow> gomap \<Rightarrow> bool" where
  "patch_permitted cfg us m after \<longleftrightarrow>
     after = stamp_annotations (m_Annotations m) \<and> \<not> HasHook m \<and> StampAllowed m
        \<and> (m_Deletion m = None \<or> \<not> mhas (m_Annotations m) ResetAnnotation)
     \<or> in_turn m \<and>
       ((\<exists>t. TNow t \<in> set us \<and> after = mput ObservedAtAnnotation (FormatRFC3339 (TruncateSecond t)) (m_Annotations m)
           \<and> (\<forall>v. map_of (m_Annotations m) ObservedAtAnnotation = Some v \<longrightarrow> ParseRFC3339 v = None))
        \<or> (\<exists>v. after = mput EtcdAnnotation v (m_Annotations m)
             \<and> \<not> mhas (m_Annotations m) EtcdAnnotation \<and> \<not> was_reset us \<and> etcd_outcome cfg us m v)
        \<or> etcd_concluded m \<and>
          ((\<exists>v. after = mput ResetAnnotation v (m_Annotations m)
              \<and> \<not> mhas (m_Annotations m) ResetAnnotation \<and> reset_outcome cfg us m v)
           \<or> after = release_annotations (m_Annotations m) \<and> mhas (m_Annotations m) ResetAnnotation))"

text \<open>The Machine is read once, all its patches were accepted and its hook is not released yet.\<close>

definition going :: "tcall list \<Rightarrow> machine \<Rightarrow> bool" where
  "going us m \<longleftrightarrow> memory us = Some m \<and> \<not> failed_patch us \<and> \<not> released us"

definition etcd_change_permitted :: "teardown_config \<Rightarrow> tcall list \<Rightarrow> tcall \<Rightarrow> bool" where
  "etcd_change_permitted cfg us x \<longleftrightarrow> (\<exists>m. going us m \<and> in_turn m \<and> IsControlPlane m
     \<and> \<not> mhas (m_Annotations m) EtcdAnnotation \<and> cluster_alive us m \<and> not_held us m \<and> \<not> was_reset us
     \<and> (\<exists>c resp. healthy_peer (EtcdCallTimeout cfg) m c resp us \<and> justified (EtcdCallTimeout cfg) m x c resp))"

fun permitted :: "teardown_config \<Rightarrow> tcall list \<Rightarrow> tcall \<Rightarrow> bool" where
  "permitted cfg us (TGetMachine _ _) = (us = [])"
| "permitted cfg us (TPatch k before after _) = (\<exists>m. going us m \<and> k = m_key m \<and> before = m_Annotations m
     \<and> patch_permitted cfg us m after)"
| "permitted cfg us (TDial _ _) = (\<exists>m. going us m \<and> in_turn m \<and> unfinished m)"
| "permitted cfg us (TReset _ req d _) = (\<exists>m. going us m \<and> in_turn m \<and> etcd_concluded m
     \<and> \<not> mhas (m_Annotations m) ResetAnnotation \<and> \<not> was_reset us
     \<and> req = reset_request_sent \<and> d = ResetCallTimeout cfg)"
| "permitted cfg us (TSecretCreate c _) = (\<exists>m. going us m
     \<and> meta_key (sec_Meta c) = cached_key (CacheNamespace cfg) (clusterKeyFor m))"
| "permitted cfg us (TSecretUpdate c _) = (\<exists>m. going us m
     \<and> meta_key (sec_Meta c) = cached_key (CacheNamespace cfg) (clusterKeyFor m))"
| "permitted cfg us (TSecretDelete _ _) = False"
| "permitted cfg us (TForfeit c d e) = etcd_change_permitted cfg us (TForfeit c d e)"
| "permitted cfg us (TLeave c d e) = etcd_change_permitted cfg us (TLeave c d e)"
| "permitted cfg us (TRemove c i d e) = etcd_change_permitted cfg us (TRemove c i d e)"
| "permitted cfg us _ = True"

section \<open>How the history grows\<close>

lemma memory_snoc [simp]: "memory (us @ [x]) = memory_step (memory us) x"
  by (simp add: memory_def)

text \<open>Calls that leave the Machine in memory as it is.\<close>

fun steady :: "tcall \<Rightarrow> bool" where
  "steady (TGetMachine _ _) = False"
| "steady (TPatch _ _ _ _) = False"
| "steady _ = True"

lemma calm_steady: "calm x \<Longrightarrow> steady x"
  by (cases x) auto

lemma leave_steady: "is_leave d x \<Longrightarrow> steady x"
  by (cases x) auto

lemma justified_steady: "justified d m x c resp \<Longrightarrow> steady x"
  by (auto simp: justified_def leave_steady)

lemma going_steady: "going us m \<Longrightarrow> steady x \<Longrightarrow> going (us @ [x]) m"
  by (cases x) (auto simp: going_def failed_patch_def released_def)

lemma going_steady_all: "going us m \<Longrightarrow> \<forall>x \<in> set xs. steady x \<Longrightarrow> going (us @ xs) m"
proof (induction xs arbitrary: us)
  case (Cons x xs)
  then have "going ((us @ [x]) @ xs) m" by (intro Cons.IH going_steady) auto
  then show ?case by simp
qed simp

lemma patch_history [simp]:
  "failed_patch (us @ [TPatch k b a e]) \<longleftrightarrow> failed_patch us \<or> e \<noteq> None"
  "released (us @ [TPatch k b a e]) \<longleftrightarrow> released us \<or> mhas b HookAnnotation \<and> \<not> mhas a HookAnnotation"
  by (auto simp: failed_patch_def released_def)

lemma going_patch:
  assumes "going us m" and "\<not> (HasHook m \<and> \<not> mhas a HookAnnotation)"
  shows "going (us @ [TPatch (m_key m) (m_Annotations m) a None]) (SetAnnotations a m)"
  using assms by (simp add: going_def HasHook_def)

lemma was_reset_append [simp]: "was_reset (us @ xs) \<longleftrightarrow> was_reset us \<or> was_reset xs"
  by (auto simp: was_reset_def)

lemma was_reset_calm: "calm_all xs \<Longrightarrow> \<not> was_reset xs"
  unfolding was_reset_def calm_all_def by (metis calm.simps(9) is_reset.elims(2))

lemma was_reset_simps [simp]: "\<not> was_reset []" "was_reset (x # xs) \<longleftrightarrow> is_reset x \<or> was_reset xs"
  by (auto simp: was_reset_def)

lemma history_grows [intro]:
  "cluster_ending us m \<Longrightarrow> cluster_ending (us @ xs) m"
  "cluster_alive us m \<Longrightarrow> cluster_alive (us @ xs) m"
  "not_held us m \<Longrightarrow> not_held (us @ xs) m"
  "observed_at us m t \<Longrightarrow> observed_at (us @ xs) m t"
  by (auto simp: cluster_ending_def cluster_alive_def not_held_def observed_at_def)

text \<open>Patches of a phase annotation keep the turn.\<close>

lemma in_turn_phase:
  assumes "in_turn m" and "\<not> HasPrefix k PreTerminatePrefix"
  shows "in_turn (SetAnnotations (mput k v (m_Annotations m)) m)"
proof -
  have "k \<noteq> HookAnnotation" using assms(2) by auto
  with assms other_hooks_mput [of k v "m_Annotations m"] show ?thesis
    by (simp add: in_turn_def HasHook_def HasOtherPreTerminateHooks_def)
qed

lemma same_machine [simp]:
  "clusterKeyFor (SetAnnotations a m) = clusterKeyFor m"
  "hostnameCandidates (SetAnnotations a m) = hostnameCandidates m"
  "cluster_ending us (SetAnnotations a m) = cluster_ending us m"
  "cluster_alive us (SetAnnotations a m) = cluster_alive us m"
  by (simp_all add: clusterKeyFor_def hostnameCandidates_def cluster_ending_def cluster_alive_def)

section \<open>Segments of calls that keep to the protocol\<close>

lemma guarded_calm:
  "going us m \<Longrightarrow> in_turn m \<Longrightarrow> unfinished m \<Longrightarrow> calm_all xs \<Longrightarrow> guarded (permitted cfg) us xs"
proof (induction xs arbitrary: us)
  case (Cons x xs)
  have "permitted cfg us x" using Cons.prems by (cases x) auto
  moreover have "guarded (permitted cfg) (us @ [x]) xs"
    using Cons.prems by (intro Cons.IH going_steady calm_steady) auto
  ultimately show ?case by simp
qed simp

text \<open>Events, metrics and clock readings need no permission.\<close>

fun is_note :: "tcall \<Rightarrow> bool" where
  "is_note (TEvent _ _ _) = True"
| "is_note (TMetric _ _) = True"
| "is_note _ = False"

definition all_notes :: "tcall list \<Rightarrow> bool" where
  "all_notes xs \<longleftrightarrow> (\<forall>x \<in> set xs. is_note x)"

lemma all_notes_simps [simp]: "all_notes []" "all_notes (x # xs) \<longleftrightarrow> is_note x \<and> all_notes xs"
  by (auto simp: all_notes_def)

lemma guarded_notes: "all_notes xs \<Longrightarrow> guarded (permitted cfg) us xs"
  by (induction xs arbitrary: us) (auto elim: is_note.elims)

lemma notes_steady: "all_notes xs \<Longrightarrow> \<forall>x \<in> set xs. steady x"
  by (induction xs) (auto elim: is_note.elims)

lemma notes_balanced: "all_notes xs \<Longrightarrow> balanced xs"
  by (induction xs) (auto elim: is_note.elims)

text \<open>The situation in which \<open>ensureEtcdRemoved\<close> runs, and the one in which \<open>resetPhase\<close> runs.\<close>

definition removal_due :: "tcall list \<Rightarrow> machine \<Rightarrow> bool" where
  "removal_due us m \<longleftrightarrow> going us m \<and> in_turn m \<and> IsControlPlane m
     \<and> \<not> mhas (m_Annotations m) EtcdAnnotation \<and> cluster_alive us m \<and> not_held us m \<and> \<not> was_reset us"

lemma removal_due_unfinished: "removal_due us m \<Longrightarrow> unfinished m"
  by (auto simp: removal_due_def unfinished_def etcd_concluded_def)

lemma removal_due_steady:
  "removal_due us m \<Longrightarrow> steady x \<Longrightarrow> \<not> is_reset x \<Longrightarrow> removal_due (us @ [x]) m"
  by (auto simp: removal_due_def going_steady)

lemma removal_due_steady_all:
  "removal_due us m \<Longrightarrow> \<forall>x \<in> set xs. steady x \<and> \<not> is_reset x \<Longrightarrow> removal_due (us @ xs) m"
proof (induction xs arbitrary: us)
  case (Cons x xs)
  then have "removal_due ((us @ [x]) @ xs) m" by (intro Cons.IH removal_due_steady) auto
  then show ?case by simp
qed simp

lemma justified_change: "justified d m x c resp \<Longrightarrow> steady x \<and> \<not> is_reset x
    \<and> permitted cfg us x = etcd_change_permitted cfg us x"
  by (cases x) (auto simp: justified_def)

lemma guarded_justified:
  assumes "removal_due us m" and "\<forall>x \<in> set xs. calm x
     \<or> (\<exists>c resp. healthy_peer (EtcdCallTimeout cfg) m c resp us \<and> justified (EtcdCallTimeout cfg) m x c resp)"
  shows "guarded (permitted cfg) us xs"
  using assms
proof (induction xs arbitrary: us)
  case (Cons x xs)
  have x: "permitted cfg us x \<and> steady x \<and> \<not> is_reset x"
  proof (cases "calm x")
    case True
    with guarded_calm [of us m "[x]" cfg] Cons.prems(1) removal_due_unfinished [OF Cons.prems(1)] show ?thesis
      by (cases x) (auto simp: removal_due_def)
  next
    case False
    with Cons.prems(2) obtain c resp where cr: "healthy_peer (EtcdCallTimeout cfg) m c resp us"
      "justified (EtcdCallTimeout cfg) m x c resp" by auto
    with Cons.prems(1) have "etcd_change_permitted cfg us x"
      unfolding etcd_change_permitted_def removal_due_def by blast
    with justified_change [OF cr(2)] show ?thesis by simp
  qed
  moreover have "guarded (permitted cfg) (us @ [x]) xs"
    using Cons.prems x by (intro Cons.IH removal_due_steady) (auto dest: evidence_after(2) [where vs = "[x]"])
  ultimately show ?case by simp
qed simp

lemma calm_not_reset: "calm x \<Longrightarrow> steady x \<and> \<not> is_reset x"
  by (cases x) auto

lemma removal_result_guarded:
  assumes "removal_due us m" and "removal_result (EtcdCallTimeout cfg) m r xs"
  shows "guarded (permitted cfg) us xs \<and> removal_due (us @ xs) m"
proof -
  from assms(2) obtain ps qs where pq: "xs = ps @ qs" "calm_all ps"
    "\<forall>x \<in> set qs. calm x \<or> (\<exists>c resp. healthy_peer (EtcdCallTimeout cfg) m c resp ps \<and> justified (EtcdCallTimeout cfg) m x c resp)"
    by (auto simp: removal_result_def)
  have us: "removal_due (us @ ps) m"
    using assms(1) pq(2) by (intro removal_due_steady_all) (auto simp: calm_all_def calm_not_reset)
  have "guarded (permitted cfg) (us @ ps) qs"
    using pq(3) by (intro guarded_justified [OF us]) (auto intro: evidence_before)
  moreover have "removal_due ((us @ ps) @ qs) m"
    using pq(3) justified_change [where us = us] by (intro removal_due_steady_all [OF us]) (blast dest: calm_not_reset)
  moreover have "guarded (permitted cfg) us ps"
    using assms(1) pq(2) guarded_calm removal_due_unfinished [OF assms(1)] by (auto simp: removal_due_def)
  ultimately show ?thesis by (simp add: pq(1))
qed

definition reset_due :: "tcall list \<Rightarrow> machine \<Rightarrow> bool" where
  "reset_due us m \<longleftrightarrow> going us m \<and> in_turn m \<and> etcd_concluded m"

lemma reset_due_steady_all: "reset_due us m \<Longrightarrow> \<forall>x \<in> set xs. steady x \<Longrightarrow> reset_due (us @ xs) m"
  by (auto simp: reset_due_def going_steady_all)

lemma reset_result_guarded:
  assumes due: "reset_due us m" and new: "\<not> mhas (m_Annotations m) ResetAnnotation" "\<not> was_reset us"
    and r: "reset_result (ResetCallTimeout cfg) m r xs"
  shows "guarded (permitted cfg) us xs \<and> reset_due (us @ xs) m"
proof -
  from r obtain ps qs where pq: "xs = ps @ qs" "calm_all ps"
    "calm_all qs \<or> (\<exists>c e rest. qs = TReset c reset_request_sent (ResetCallTimeout cfg) e # rest \<and> calm_all rest)"
    by (auto simp: reset_result_def)
  have st: "\<forall>x \<in> set xs. steady x" if "calm_all xs" for xs
    using that by (auto simp: calm_all_def calm_steady)
  have us: "reset_due (us @ ps) m" by (rule reset_due_steady_all [OF due st [OF pq(2)]])
  have un: "unfinished m" using new(1) by (simp add: unfinished_def)
  have ps: "guarded (permitted cfg) us ps"
    using due pq(2) guarded_calm un by (auto simp: reset_due_def)
  from pq(3) show ?thesis
  proof
    assume "calm_all qs"
    with us reset_due_steady_all [OF us st] guarded_calm [of "us @ ps" m qs cfg] un ps pq(1) show ?thesis
      by (auto simp: reset_due_def)
  next
    assume "\<exists>c e rest. qs = TReset c reset_request_sent (ResetCallTimeout cfg) e # rest \<and> calm_all rest"
    then obtain c e rest where q: "qs = TReset c reset_request_sent (ResetCallTimeout cfg) e # rest" "calm_all rest"
      by blast
    let ?x = "TReset c reset_request_sent (ResetCallTimeout cfg) e"
    have x: "permitted cfg (us @ ps) ?x"
      using us new was_reset_calm [OF pq(2)] by (auto simp: reset_due_def)
    have us': "reset_due ((us @ ps) @ [?x]) m" using reset_due_steady_all [OF us, of "[?x]"] by simp
    then have "guarded (permitted cfg) ((us @ ps) @ [?x]) rest"
      using q(2) guarded_calm un by (auto simp: reset_due_def)
    moreover have "reset_due (((us @ ps) @ [?x]) @ rest) m" by (rule reset_due_steady_all [OF us' st [OF q(2)]])
    ultimately show ?thesis using ps x by (simp add: pq(1) q(1))
  qed
qed

end
