(* ===== verification/TeardownRefinement.thy ===== *)
theory TeardownRefinement
  imports TeardownProtocol
begin

text \<open>
  The refinement: the operations of \<open>Teardown\<close>, one after the other, keep to the protocol of
  \<open>TeardownProtocol\<close>. Each lemma gives the situation an operation needs and the one it leaves.
\<close>

section \<open>Patches\<close>

lemma patchAnnotations_follows:
  assumes "going us m" and "mutate (m_Annotations m) = Some a" and "patch_permitted cfg us m a" and "balanced us"
  shows "follows (permitted cfg) us (patchAnnotations env m mutate) (\<lambda>r vs. balanced vs \<and>
    (snd r = None \<longrightarrow> fst r = SetAnnotations a m \<and> vs = us @ [TPatch (m_key m) (m_Annotations m) a None]))"
proof -
  have p: "permitted cfg us (TPatch (m_key m) (m_Annotations m) a e)" for e
    using assms(1,3) by auto
  show ?thesis
    unfolding patchAnnotations_def assms(2) option.case
    by (intro follows_branch follows_return follows_bind_extcall p) (auto simp: assms(4))
qed

lemma stampPhase_follows:
  assumes "going us m" and "\<not> mhas (m_Annotations m) k" and "v \<noteq> []"
    and "patch_permitted cfg us m (mput k v (m_Annotations m))" and "balanced us"
  shows "follows (permitted cfg) us (stampPhase env m k v) (\<lambda>r vs. balanced vs \<and>
    (snd r = None \<longrightarrow> fst r = SetAnnotations (mput k v (m_Annotations m)) m
       \<and> vs = us @ [TPatch (m_key m) (m_Annotations m) (mput k v (m_Annotations m)) None]))"
  unfolding stampPhase_def
  by (rule patchAnnotations_follows) (use assms in \<open>auto simp: mget_absent\<close>)

text \<open>What a patch of a phase annotation leaves.\<close>

lemma phase_patch:
  assumes "going us m" and "in_turn m" and "\<not> HasPrefix k PreTerminatePrefix"
  shows "going (us @ [TPatch (m_key m) (m_Annotations m) (mput k v (m_Annotations m)) None])
      (SetAnnotations (mput k v (m_Annotations m)) m)"
    and "in_turn (SetAnnotations (mput k v (m_Annotations m)) m)"
  using assms in_turn_phase [OF assms(2,3)] by (auto intro!: going_patch simp: HasHook_def)

lemma observed_at_other:
  "k \<noteq> ObservedAtAnnotation \<Longrightarrow>
     observed_at us (SetAnnotations (mput k v (m_Annotations m)) m) t = observed_at us m t"
  by (simp add: observed_at_def)

section \<open>Stamping the hook and caching the credentials\<close>

lemma ensureHook_follows:
  assumes "going us m" and "balanced us" and "\<not> was_reset us"
    and "HasHook m \<or> m_Deletion m = None \<or> \<not> mhas (m_Annotations m) ResetAnnotation"
  shows "follows (permitted cfg) us (ensureHook env m) (\<lambda>r vs. balanced vs \<and>
    (snd r = None \<longrightarrow> going vs (fst r) \<and> \<not> was_reset vs \<and> m_Deletion (fst r) = m_Deletion m
       \<and> (StampAllowed m \<longrightarrow> HasHook (fst r))))"
proof (cases "HasHook m \<or> \<not> StampAllowed m")
  case True
  then show ?thesis
    unfolding ensureHook_def using assms by (auto intro!: follows_return)
next
  case False
  have ok: "patch_permitted cfg us m (stamp_annotations (m_Annotations m))"
    using False assms(4) by (auto simp: patch_permitted_def)
  have "(HasHook m \<or> \<not> StampAllowed m) = False" using False by simp
  then show ?thesis
    unfolding ensureHook_def event_def if_False
    by (intro follows_bind [OF patchAnnotations_follows [OF assms(1) _ ok assms(2)]]
        follows_case_prod follows_branch follows_bind_emit follows_return)
      (use assms in \<open>auto simp: hook_stamp_def balanced_def HasHook_def
         intro!: going_steady [OF going_patch, simplified]\<close>)
qed

lemma lookups_steady: "lookups xs \<Longrightarrow> x \<in> set xs \<Longrightarrow> steady x \<and> \<not> is_reset x"
  using lookups_member by (cases x) fastforce+

lemma lookups_guarded: "lookups xs \<Longrightarrow> guarded (permitted cfg) us xs"
  by (induction xs arbitrary: us) (auto elim: is_lookup.elims)

lemma ensure_calls_guarded:
  assumes "going us m" and "ensure_calls (CacheNamespace cfg) (clusterKeyFor m) r xs"
  shows "guarded (permitted cfg) us xs \<and> (\<forall>x \<in> set xs. steady x \<and> \<not> is_reset x) \<and> balanced xs"
proof -
  from assms(2) obtain gets ws where x: "xs = gets @ ws" "lookups gets" and
    ws: "ws = [] \<or> (\<exists>source. ws = [TSecretCreate (cached_copy (CacheNamespace cfg) (clusterKeyFor m) source) (snd r)])
      \<or> (\<exists>c. ws = [TSecretUpdate c (snd r)] \<and> meta_key (sec_Meta c) = cached_key (CacheNamespace cfg) (clusterKeyFor m))"
    unfolding ensure_calls_def by auto
  have "going (us @ gets) m"
    using lookups_steady [OF x(2)] by (intro going_steady_all [OF assms(1)]) auto
  then have "guarded (permitted cfg) (us @ gets) ws" using ws by auto
  moreover have "\<forall>x \<in> set ws. steady x \<and> \<not> is_reset x" "balanced ws" using ws by auto
  ultimately show ?thesis
    using x lookups_steady [OF x(2)] lookups_guarded lookups_balanced by auto
qed

lemma ensureCredentials_follows:
  assumes "going us m" and "balanced us" and "\<not> was_reset us"
  shows "follows (permitted cfg) us (ensureCredentials env cfg m) (\<lambda>_ vs. balanced vs \<and> going vs m \<and> \<not> was_reset vs)"
  unfolding ensureCredentials_def event_def
proof (rule follows_bind_yields [OF Ensure_calls], goal_cases)
  case (1 r xs)
  with ensure_calls_guarded [OF assms(1)] show ?case by blast
next
  case (2 r xs)
  note e = ensure_calls_guarded [OF assms(1) 2]
  have st: "balanced (us @ xs) \<and> going (us @ xs) m \<and> \<not> was_reset (us @ xs)"
    using assms e by (auto simp: was_reset_def intro: going_steady_all)
  then have st': "balanced ((us @ xs) @ [TEvent k a b]) \<and> going ((us @ xs) @ [TEvent k a b]) m
      \<and> \<not> was_reset ((us @ xs) @ [TEvent k a b])" for k a b
    using going_steady [of "us @ xs" m "TEvent k a b"] by (auto simp: balanced_def)
  show ?case
    by (intro follows_case_prod follows_branch follows_bind_emit follows_return st st') simp_all
qed

lemma reconcileNormal_follows:
  assumes "going us m" and "balanced us" and "\<not> was_reset us" and "m_Deletion m = None"
  shows "follows (permitted cfg) us (reconcileNormal env cfg m) (\<lambda>_ vs. balanced vs)"
  unfolding reconcileNormal_def
  by (intro follows_bind [OF ensureHook_follows [OF assms(1-3)]] follows_case_prod follows_branch follows_return
      follows_weaken [OF ensureCredentials_follows]) (use assms(4) in auto)

section \<open>Entering the phases\<close>

definition entered :: "tcall list \<Rightarrow> machine \<Rightarrow> time \<Rightarrow> bool" where
  "entered us m t \<longleftrightarrow> balanced us \<and> going us m \<and> in_turn m \<and> \<not> was_reset us \<and> observed_at us m t"

lemma entered_calm: "entered us m t \<Longrightarrow> calm x \<Longrightarrow> (\<And>c. opens c x = 0) \<Longrightarrow> entered (us @ [x]) m t"
  by (cases x) (auto simp: entered_def balanced_def going_steady observed_at_def)

lemma entered_balanced: "entered us m t \<Longrightarrow> balanced us"
  by (simp add: entered_def)

lemma ensureObservedAt_follows:
  assumes g: "going us m" and b: "balanced us" and r: "\<not> was_reset us" and t: "in_turn m"
  shows "follows (permitted cfg) us (ensureObservedAt env m)
    (\<lambda>r vs. balanced vs \<and> (\<forall>ot. snd r = Inr ot \<longrightarrow> entered vs (fst r) ot))"
proof -
  have restamp: "follows (permitted cfg) us (do {
        t \<leftarrow> now_call env;
        let observedAt = TruncateSecond t;
        (m, e) \<leftarrow> patchAnnotations env m (\<lambda>ann. Some (mput ObservedAtAnnotation (FormatRFC3339 observedAt) ann));
        State_Monad.return (m, case e of Some err \<Rightarrow> Inl err | None \<Rightarrow> Inr observedAt)
      }) (\<lambda>r vs. balanced vs \<and> (\<forall>ot. snd r = Inr ot \<longrightarrow> entered vs (fst r) ot))"
    if un: "\<forall>v. map_of (m_Annotations m) ObservedAtAnnotation = Some v \<longrightarrow> ParseRFC3339 v = None"
    unfolding now_call_def Let_def
  proof (rule follows_bind_extcall)
    show "permitted cfg us (TNow r)" for r by simp
    fix now
    let ?us = "us @ [TNow now]" and ?a = "mput ObservedAtAnnotation (FormatRFC3339 (TruncateSecond now)) (m_Annotations m)"
    have g': "going ?us m" and b': "balanced ?us" using going_steady [OF g, of "TNow now"] b by auto
    have p: "patch_permitted cfg ?us m ?a" using t un by (auto simp: patch_permitted_def)
    have e: "entered (?us @ [TPatch (m_key m) (m_Annotations m) ?a None]) (SetAnnotations ?a m) (TruncateSecond now)"
      using phase_patch [OF g' t, of ObservedAtAnnotation] b' r
      by (auto simp: entered_def balanced_def observed_at_def)
    show "follows (permitted cfg) ?us (do {
        (m, e) \<leftarrow> patchAnnotations env m (\<lambda>ann. Some (mput ObservedAtAnnotation (FormatRFC3339 (TruncateSecond now)) ann));
        State_Monad.return (m, case e of Some err \<Rightarrow> Inl err | None \<Rightarrow> Inr (TruncateSecond now))
      }) (\<lambda>r vs. balanced vs \<and> (\<forall>ot. snd r = Inr ot \<longrightarrow> entered vs (fst r) ot))"
      by (intro follows_bind [OF patchAnnotations_follows [OF g' _ p b']] follows_case_prod follows_return)
        (use e in \<open>auto split: option.splits\<close>)
  qed
  have old: "entered us m ot" if "map_of (m_Annotations m) ObservedAtAnnotation = Some v" "ParseRFC3339 v = Some ot" for v ot
    using that assms by (simp add: entered_def observed_at_def mget_def)
  show ?thesis
    unfolding ensureObservedAt_def Let_def
    by (intro follows_branch follows_return restamp [unfolded Let_def]) (use old b in auto)
qed

lemma clusterDeleting_follows:
  assumes "entered us m t"
  shows "follows (permitted cfg) us (clusterDeleting env m) (\<lambda>r vs. entered vs m t \<and>
    (r = Inr True \<longrightarrow> cluster_ending vs m) \<and> (r = Inr False \<longrightarrow> cluster_alive vs m))"
  unfolding clusterDeleting_def
  by (intro follows_bind_extcall follows_return)
    (use assms in \<open>auto simp: entered_calm cluster_ending_def cluster_alive_def split: sum.splits if_splits\<close>)

section \<open>The etcd phase\<close>

text \<open>A zero result means that the phase is concluded and the reset may begin.\<close>

definition etcd_done :: "time \<Rightarrow> machine \<times> (go_error + duration) \<Rightarrow> tcall list \<Rightarrow> bool" where
  "etcd_done t r vs \<longleftrightarrow> balanced vs \<and> (snd r = Inr 0 \<longrightarrow> entered vs (fst r) t \<and> etcd_concluded (fst r))"

lemma etcd_outcome_permitted:
  assumes "entered us m t" and "\<not> mhas (m_Annotations m) EtcdAnnotation" and "etcd_outcome cfg us m v"
  shows "patch_permitted cfg us m (mput EtcdAnnotation v (m_Annotations m))"
  using assms by (auto simp: patch_permitted_def entered_def)

lemma etcd_stamped:
  assumes "entered us m t"
  shows "entered (us @ [TPatch (m_key m) (m_Annotations m) (mput EtcdAnnotation v (m_Annotations m)) None])
      (SetAnnotations (mput EtcdAnnotation v (m_Annotations m)) m) t"
    and "etcd_concluded (SetAnnotations (mput EtcdAnnotation v (m_Annotations m)) m)"
  using assms phase_patch [of us m EtcdAnnotation v]
  by (auto simp: entered_def balanced_def etcd_concluded_def observed_at_def)

lemma etcd_conclusions_nonempty [simp]:
  "EtcdSkippedClusterDelete \<noteq> []" "EtcdOrphaned \<noteq> []" "EtcdNotMember \<noteq> []" "EtcdLeft \<noteq> []" "EtcdRemoved \<noteq> []"
  by (simp_all add: conclusion_defs)

lemma recordEtcdOutcome_follows:
  assumes "entered us m' t" and "etcd_concluded m'"
  shows "follows (permitted cfg) us (do { recordEtcdOutcome m v; State_Monad.return (m', Inr 0) }) (etcd_done t)"
proof -
  have e1: "entered (us @ [TMetric a b]) m' t" for a b
    by (rule entered_calm [OF assms(1)]) simp_all
  have e2: "entered ((us @ [TMetric a b]) @ [TEvent k c d]) m' t" for a b k c d
    by (rule entered_calm [OF e1]) simp_all
  have *: "follows (permitted cfg) us (recordEtcdOutcome m v) (\<lambda>_ vs. entered vs m' t)"
    unfolding recordEtcdOutcome_def event_def
    by (intro follows_bind_emit follows_branch follows_return)
      (use e1 e2 in \<open>auto simp: follows_def intro!: yields_weaken [OF yields_emit]\<close>)
  show ?thesis
    by (rule follows_bind [OF *], rule follows_return)
      (use assms(2) in \<open>auto simp: etcd_done_def entered_def\<close>)
qed

lemma conclude_etcd_follows:
  assumes e: "entered us m t" and "\<not> mhas (m_Annotations m) EtcdAnnotation" and "etcd_outcome cfg us m v" and "v \<noteq> []"
  shows "follows (permitted cfg) us (conclude_etcd env m v) (etcd_done t)"
proof -
  have p: "going us m" "balanced us" using e by (auto simp: entered_def)
  note st = stampPhase_follows [OF p(1) assms(2,4) etcd_outcome_permitted [OF assms(1-3)] p(2), of env]
  show ?thesis
    unfolding conclude_etcd_def
  proof (rule follows_bind [OF st], goal_cases)
    case (1 r vs)
    then show ?case
      by (intro follows_case_prod follows_branch recordEtcdOutcome_follows follows_return)
        (use etcd_stamped [OF e, of v] in \<open>auto simp: etcd_done_def\<close>)
  qed
qed

lemma serializeControlPlane_follows:
  assumes "entered us m t"
  shows "follows (permitted cfg) us (serializeControlPlane env m) (\<lambda>r vs. entered vs m t
    \<and> (cluster_alive us m \<longrightarrow> cluster_alive vs m) \<and> (r = Inr 0 \<longrightarrow> not_held vs m))"
  unfolding serializeControlPlane_def listControlPlaneMachines_def
  by (intro follows_bind_extcall follows_return)
    (use assms in \<open>auto simp: entered_calm not_held_def hookWaitRequeue_def Second_def
       split: sum.splits if_splits\<close>)

lemma ensureEtcdRemoved_follows:
  assumes e: "entered us m t" and cp: "IsControlPlane m" and a: "\<not> mhas (m_Annotations m) EtcdAnnotation"
    and c: "cluster_alive us m" and h: "not_held us m"
  shows "follows (permitted cfg) us (ensureEtcdRemoved env cfg m t) (etcd_done t)"
proof -
  have due: "removal_due us m" using assms by (auto simp: removal_due_def entered_def)
  show ?thesis
    unfolding ensureEtcdRemoved_def Let_def
  proof (rule follows_bind_yields [OF tryEtcdRemoval_calls], goal_cases)
    case (1 r xs)
    with removal_result_guarded [OF due] show ?case by blast
  next
    case (2 r xs)
    note g = removal_result_guarded [OF due 2]
    have e': "entered (us @ xs) m t"
      using e g 2 by (auto simp: entered_def removal_due_def removal_result_def)
    have ch: "cluster_alive (us @ xs) m" "not_held (us @ xs) m" using c h by auto
    show ?case
    proof (cases r)
      case (Inr v)
      with 2 have o: "removal_outcome (EtcdCallTimeout cfg) m v xs" by (simp add: removal_result_def)
      then have "etcd_outcome cfg (us @ xs) m v"
        using cp ch removal_outcome_append [OF o] by (simp add: etcd_outcome_def)
      moreover have "v \<noteq> []" using o by (auto simp: removal_outcome_def dest: sym)
      ultimately
      show ?thesis using conclude_etcd_follows [OF e' a] by (simp add: Inr)
    next
      case (Inl err)
      have e1: "entered ((us @ xs) @ [TNow now]) m t" for now by (rule entered_calm [OF e']) simp_all
      have e2: "entered (((us @ xs) @ [TNow now]) @ [TEvent k p q]) m t" for now k p q
        by (rule entered_calm [OF e1]) simp_all
      have o: "etcd_outcome cfg (((us @ xs) @ [TNow now]) @ [TEvent k p q]) m EtcdOrphaned"
        if "After now (Add t (EtcdTimeout cfg))" for now k p q
        using that cp ch e2 [of now k p q] unfolding etcd_outcome_def expired_def entered_def by fastforce
      show ?thesis
        unfolding Inl sum.case now_call_def event_def
        by (intro follows_bind_extcall follows_branch follows_bind_emit follows_return
            conclude_etcd_follows [OF e2 a o]) (use e1 in \<open>auto simp: etcd_done_def entered_def\<close>)
    qed
  qed
qed

lemma etcdPhase_follows:
  assumes e: "entered us m t" and d: "deleting \<longrightarrow> cluster_ending us m" "\<not> deleting \<longrightarrow> cluster_alive us m"
  shows "follows (permitted cfg) us (etcdPhase env cfg m t deleting) (etcd_done t)"
proof (cases "mhas (m_Annotations m) EtcdAnnotation")
  case True
  with e show ?thesis
    by (auto simp: etcdPhase_def etcd_done_def entered_def etcd_concluded_def intro: follows_return)
next
  case a: False
  have p: "going us m" "balanced us" using e by (auto simp: entered_def)
  consider (del) deleting | (worker) "\<not> deleting" "\<not> IsControlPlane m" | (cp) "\<not> deleting" "IsControlPlane m"
    by blast
  then show ?thesis
  proof cases
    case del
    have pp: "patch_permitted cfg us m (mput EtcdAnnotation EtcdSkippedClusterDelete (m_Annotations m))"
      by (rule etcd_outcome_permitted [OF e a]) (use d del in \<open>auto simp: etcd_outcome_def\<close>)
    note st = stampPhase_follows [OF p(1) a _ pp p(2), of env]
    have e1: "entered (vs @ [TEvent k x y]) m' t" if "entered vs m' t" for vs m' k x y
      by (rule entered_calm [OF that]) simp_all
    have e2: "entered ((vs @ [TEvent k x y]) @ [TMetric x' y']) m' t" if "entered vs m' t" for vs m' k x y x' y'
      by (rule entered_calm [OF e1 [OF that]]) simp_all
    note st' = etcd_stamped [OF e, of EtcdSkippedClusterDelete]
    have *: "etcdPhase env cfg m t deleting = do {
        (m, e) \<leftarrow> stampPhase env m EtcdAnnotation EtcdSkippedClusterDelete;
        case e of
          Some err \<Rightarrow> State_Monad.return (m, Inl err)
        | None \<Rightarrow> do {
            event m ''Normal'' EventEtcdSkippedClusterDelete;
            emit (TMetric ''teardown_etcd_total'' EtcdSkippedClusterDelete);
            State_Monad.return (m, Inr 0)
          }
      }" using a del by (simp add: etcdPhase_def)
    show ?thesis
      unfolding * event_def
    proof (rule follows_bind [OF st], goal_cases)
      case 1 show ?case by simp
    next
      case (2 r vs)
      then show ?case
        by (intro follows_case_prod follows_branch follows_bind_emit follows_return)
          (use st' e2 [OF st'(1)] entered_balanced [OF e2 [OF st'(1)]] in \<open>auto simp: etcd_done_def\<close>)
    qed
  next
    case worker
    with a e show ?thesis
      by (auto simp: etcdPhase_def etcd_done_def entered_def etcd_concluded_def intro: follows_return)
  next
    case cp
    have al: "cluster_alive us m" using cp d by blast
    have *: "etcdPhase env cfg m t deleting = do {
        r \<leftarrow> serializeControlPlane env m;
        if r = Inr 0 then ensureEtcdRemoved env cfg m t
        else State_Monad.return (m, r)
      }" using a cp by (simp add: etcdPhase_def)
    show ?thesis
      unfolding *
      by (intro follows_bind [OF serializeControlPlane_follows [OF e]] follows_branch
          ensureEtcdRemoved_follows follows_return)
        (use a al cp in \<open>auto simp: etcd_done_def entered_def\<close>)
  qed
qed

section \<open>The reset phase and the release\<close>

definition reset_done :: "machine \<times> go_error option \<Rightarrow> tcall list \<Rightarrow> bool" where
  "reset_done r vs \<longleftrightarrow> balanced vs \<and> (snd r = None \<longrightarrow> reset_due vs (fst r)
     \<and> mhas (m_Annotations (fst r)) ResetAnnotation)"

lemma reset_due_calm: "reset_due us m \<Longrightarrow> calm x \<Longrightarrow> reset_due (us @ [x]) m"
  using reset_due_steady_all [of us m "[x]"] by (simp add: calm_steady)

lemma conclude_reset_follows:
  assumes due: "reset_due us m" and b: "balanced us" and a: "\<not> mhas (m_Annotations m) ResetAnnotation"
    and o1: "reset_outcome cfg us m v"
  shows "follows (permitted cfg) us (conclude_reset env m v) reset_done"
proof -
  have g: "going us m" "in_turn m" using due by (auto simp: reset_due_def)
  have v: "v \<noteq> []" using o1 by (auto simp: reset_outcome_def conclusion_defs)
  let ?a = "mput ResetAnnotation v (m_Annotations m)"
  have pp: "patch_permitted cfg us m ?a" using due a o1 by (auto simp: patch_permitted_def reset_due_def)
  note st = stampPhase_follows [OF g(1) a v pp b, of env]
  have due': "reset_due (us @ [TPatch (m_key m) (m_Annotations m) ?a None]) (SetAnnotations ?a m)"
    using phase_patch [OF g, of ResetAnnotation v] due by (auto simp: reset_due_def etcd_concluded_def)
  have tail: "reset_due ((us @ [TPatch (m_key m) (m_Annotations m) ?a None]) @ xs) (SetAnnotations ?a m)"
    if "all_notes xs" for xs
    using reset_due_steady_all [OF due'] notes_steady [OF that] by simp
  show ?thesis
    unfolding conclude_reset_def event_def
  proof (rule follows_bind [OF st], goal_cases)
    case (1 r vs)
    show ?case
    proof (rule follows_case_prod)
      fix m' e
      assume r: "r = (m', e)"
      show "follows (permitted cfg) vs (case e of
          Some err \<Rightarrow> State_Monad.return (m', Some err)
        | None \<Rightarrow> do {
            emit (TMetric ''teardown_reset_total'' v);
            (if v = ResetSkippedNoAddress then emit (TEvent (m_key m') ''Normal'' EventResetSkipped) else State_Monad.return ());
            (if v = ResetDone then emit (TEvent (m_key m') ''Normal'' EventResetSucceeded) else State_Monad.return ());
            State_Monad.return (m', None)
          }) reset_done"
      proof (cases e)
        case None
        with 1 r have m': "m' = SetAnnotations ?a m" "vs = us @ [TPatch (m_key m) (m_Annotations m) ?a None]"
          "balanced vs" by auto
        have q: "yields (do {
            emit (TMetric ''teardown_reset_total'' v);
            (if v = ResetSkippedNoAddress then emit (TEvent (m_key m') ''Normal'' EventResetSkipped) else State_Monad.return ());
            (if v = ResetDone then emit (TEvent (m_key m') ''Normal'' EventResetSucceeded) else State_Monad.return ());
            State_Monad.return (m', None)
          }) (\<lambda>r xs. r = (m', None) \<and> all_notes xs)"
          by (cases "v = ResetSkippedNoAddress"; cases "v = ResetDone"; simp)
            (intro yields_bind_emit yields_return yields_bind [OF yields_return]; auto)+
        have bal: "balanced (us @ TPatch (m_key m) (m_Annotations m) ?a None # xs)" if "all_notes xs" for xs
          using b notes_balanced [OF that] by (simp add: balanced_def)
        show ?thesis
          unfolding None option.case
          by (rule follows_weaken [OF follows_yields [OF q]])
            (use m' tail guarded_notes bal in \<open>auto simp: reset_done_def\<close>)
      qed (use 1 r in \<open>auto simp: reset_done_def intro: follows_return\<close>)
    qed
  qed
qed

lemma resetPhase_follows:
  assumes e: "entered us m t" and c: "etcd_concluded m"
  shows "follows (permitted cfg) us (resetPhase env cfg m t) reset_done"
proof (cases "mhas (m_Annotations m) ResetAnnotation")
  case True
  with e c show ?thesis
    by (auto simp: resetPhase_def reset_done_def reset_due_def entered_def intro: follows_return)
next
  case a: False
  have due: "reset_due us m" and nr: "\<not> was_reset us" using e c by (auto simp: reset_due_def entered_def)
  have *: "resetPhase env cfg m t = do {
        r \<leftarrow> tryReset env cfg m;
        case r of
          Inr outcome \<Rightarrow> conclude_reset env m outcome
        | Inl err \<Rightarrow> do {
            now \<leftarrow> now_call env;
            if \<not> After now (Add t (ResetTimeout cfg)) then State_Monad.return (m, Some (Transient err))
            else do {
              event m ''Warning'' EventResetSkipped;
              conclude_reset env m ResetSkippedTimeout
            }
          }
      }" using a by (simp add: resetPhase_def)
  show ?thesis
    unfolding *
  proof (rule follows_bind_yields [OF tryReset_calls], goal_cases)
    case (1 r xs)
    with reset_result_guarded [OF due a nr] show ?case by blast
  next
    case (2 r xs)
    have due': "reset_due (us @ xs) m" using reset_result_guarded [OF due a nr 2] by blast
    have b: "balanced (us @ xs)" using 2 e by (simp add: reset_result_def entered_def)
    show ?case
    proof (cases r)
      case (Inr v)
      with 2 have "v = ResetDone \<and> node_reset (ResetCallTimeout cfg) m xs
        \<or> v = ResetSkippedNoAddress \<and> calm_all xs \<and> resolves xs m []"
        by (auto simp: reset_result_def)
      then consider "v = ResetDone" "node_reset (ResetCallTimeout cfg) m xs"
        | "v = ResetSkippedNoAddress" "calm_all xs" "resolves xs m []" by blast
      then have "reset_outcome cfg (us @ xs) m v"
        using nr by cases (auto simp: reset_outcome_def dest: was_reset_calm intro: evidence_before)
      with conclude_reset_follows [OF due' b a] show ?thesis by (simp add: Inr)
    next
      case (Inl err)
      have d1: "reset_due ((us @ xs) @ [TNow now]) m" and b1: "balanced ((us @ xs) @ [TNow now])" for now
        using reset_due_calm [OF due', of "TNow now"] b by (auto simp: balanced_def)
      have d2: "reset_due (((us @ xs) @ [TNow now]) @ [TEvent k p q]) m"
        and b2: "balanced (((us @ xs) @ [TNow now]) @ [TEvent k p q])" for now k p q
        using reset_due_calm [OF d1, of "TEvent k p q"] b1 b by (auto simp: balanced_def)
      have o1: "reset_outcome cfg (((us @ xs) @ [TNow now]) @ [TEvent k p q]) m ResetSkippedTimeout"
        if "After now (Add t (ResetTimeout cfg))" for now k p q
        using that e unfolding reset_outcome_def expired_def observed_at_def entered_def by auto
      show ?thesis
        unfolding Inl sum.case now_call_def event_def
        by (intro follows_bind_extcall follows_branch follows_bind_emit follows_return
            conclude_reset_follows [OF d2 b2 a o1]) (use b1 in \<open>auto simp: reset_done_def\<close>)
    qed
  qed
qed

lemma release_follows:
  assumes due: "reset_due us m" and b: "balanced us" and a: "mhas (m_Annotations m) ResetAnnotation"
  shows "follows (permitted cfg) us (release env m) (\<lambda>_ vs. balanced vs)"
proof -
  have g: "going us m" "HasHook m" using due by (auto simp: reset_due_def in_turn_def)
  have pp: "patch_permitted cfg us m (release_annotations (m_Annotations m))"
    using due a by (auto simp: patch_permitted_def reset_due_def)
  have *: "release env m = do {
       (m, e) \<leftarrow> patchAnnotations env m hook_release;
       case e of
         Some err \<Rightarrow> State_Monad.return (m, Some err)
       | None \<Rightarrow> do {
           event m ''Normal'' EventTeardownComplete;
           emit (TMetric ''teardown_machines_total'' []);
           State_Monad.return (m, None)
         }
     }" using g by (simp add: release_def)
  show ?thesis
    unfolding * event_def
    by (intro follows_bind [OF patchAnnotations_follows [OF g(1) _ pp b]] follows_case_prod follows_branch
        follows_bind_emit follows_return) (auto simp: hook_release_def balanced_def)
qed

section \<open>The handler\<close>

lemma preTerminate_follows:
  assumes g: "going us m" and b: "balanced us" and r: "\<not> was_reset us"
    and h: "HasHook m" and d: "m_Deletion m \<noteq> None"
  shows "follows (permitted cfg) us (preTerminate env cfg m) (\<lambda>_ vs. balanced vs)"
proof (cases "AtPreTerminate m \<and> \<not> HasOtherPreTerminateHooks m")
  case False
  with b show ?thesis by (auto simp: preTerminate_def intro: follows_return)
next
  case True
  have t: "in_turn m" using True h d by (simp add: in_turn_def)
  show ?thesis
    unfolding preTerminate_def
    by (intro follows_if follows_bind [OF ensureObservedAt_follows [OF g b r t]] follows_case_prod follows_branch
        follows_bind [OF clusterDeleting_follows] follows_bind [OF etcdPhase_follows]
        follows_bind [OF resetPhase_follows] follows_bind [OF release_follows] follows_return)
      (use b in \<open>auto simp: etcd_done_def reset_done_def entered_balanced\<close>)
qed

lemma reconcileDeleting_follows:
  assumes "going us m" and "balanced us" and "\<not> was_reset us" and d: "m_Deletion m \<noteq> None"
  shows "follows (permitted cfg) us (reconcileDeleting env cfg m) (\<lambda>_ vs. balanced vs)"
proof (cases "HasHook m")
  case True
  with preTerminate_follows [OF assms(1-3) _ d] show ?thesis by (simp add: reconcileDeleting_def)
next
  case h: False
  show ?thesis
  proof (cases "mhas (m_Annotations m) ResetAnnotation \<or> \<not> StampAllowed m")
    case True
    with h assms(2) show ?thesis by (auto simp: reconcileDeleting_def intro: follows_return)
  next
    case False
    have *: "reconcileDeleting env cfg m = do {
           (m, e) \<leftarrow> ensureHook env m;
           case e of
             Some err \<Rightarrow> State_Monad.return (m, Inl err)
           | None \<Rightarrow> do {
               e \<leftarrow> ensureCredentials env cfg m;
               case e of
                 Some err \<Rightarrow> State_Monad.return (m, Inl err)
               | None \<Rightarrow> preTerminate env cfg m
             }
         }" using h False by (simp add: reconcileDeleting_def)
    show ?thesis
      unfolding *
    proof (rule follows_bind [OF ensureHook_follows [OF assms(1-3)]], goal_cases)
      case 1
      show ?case using False by simp
    next
      case (2 r vs)
      then show ?case
        by (intro follows_case_prod follows_branch follows_bind [OF ensureCredentials_follows]
            preTerminate_follows follows_return) (use False d in auto)
    qed
  qed
qed

lemma ReconcileMachine_follows:
  "follows (permitted cfg) [] (ReconcileMachine env cfg req) (\<lambda>_ vs. balanced vs)"
proof -
  have start: "going [TGetMachine req (Inr m)] m" for m
    by (simp add: going_def memory_def failed_patch_def released_def)
  show ?thesis
    unfolding ReconcileMachine_def
    by (intro follows_bind_extcall follows_branch follows_bind [OF reconcileNormal_follows]
        follows_bind [OF reconcileDeleting_follows] follows_case_prod follows_return)
      (use start in \<open>auto simp: balanced_def\<close>)
qed

text \<open>On a run from an empty trace.\<close>

lemma ReconcileMachine_trace:
  assumes "run_state (ReconcileMachine env cfg req) \<lparr>world = w, trace = []\<rparr> = (result, s')"
  shows "guarded (permitted cfg) [] (trace s') \<and> balanced (trace s')"
  using yields_run_empty [OF ReconcileMachine_follows [unfolded follows_def] assms] by simp

lemma ReconcileMachine_permitted:
  assumes "run_state (ReconcileMachine env cfg req) \<lparr>world = w, trace = []\<rparr> = (result, s')"
    and "trace s' = us @ x # vs"
  shows "permitted cfg us x"
  using ReconcileMachine_trace [OF assms(1)] assms(2) by simp

end
