(* ===== verification/TeardownSample.thy ===== *)
theory TeardownSample
  imports TeardownRefinement
begin

text \<open>
  A cluster to run the teardown on: one control-plane Machine at its pre-terminate wait, one healthy
  peer, a victim whose graceful leave times out, so that the member is removed via the peer. The
  world does not change, so it is \<open>unit\<close>. \<open>sample_run\<close> computes the whole run.
\<close>

definition sample_machine :: machine where
  "sample_machine = \<lparr>
     m_Meta = (new_meta ''cp-1'' ''default'')\<lparr>
       om_Labels := [(CapiClusterNameLabel, ''prod''), (MachineControlPlaneLabel, [])],
       om_Annotations := [(HookAnnotation, HookValue)], om_DeletionTimestamp := Some 0\<rparr>,
     m_ClusterName = ''prod'', m_BootstrapKind = ''TalosConfig'', m_BootstrapAPIGroup = ''bootstrap.cluster.x-k8s.io'',
     m_InfraKind = ''TinkerbellMachine'', m_InfraAPIGroup = ''infrastructure.cluster.x-k8s.io'', m_InfraName = ''cp-1'',
     m_NodeRefName = ''cp-1'', m_Addresses = [(MachineInternalIP, ''10.0.0.1'')],
     m_Conditions = [\<lparr>CondType = MachineDeletingCondition, CondStatus = ConditionTrue,
       CondReason = MachineDeletingWaitingForPreTerminateHookReason\<rparr>]\<rparr>"

definition sample_peer :: machine where
  "sample_peer = sample_machine\<lparr>
     m_Meta := (new_meta ''cp-2'' ''default'')\<lparr>
       om_Labels := [(CapiClusterNameLabel, ''prod''), (MachineControlPlaneLabel, [])]\<rparr>,
     m_InfraName := ''cp-2'', m_NodeRefName := ''cp-2'', m_Addresses := [(MachineInternalIP, ''10.0.0.2'')],
     m_Conditions := []\<rparr>"

definition sample_secret :: secret where
  "sample_secret = \<lparr>sec_Meta = new_meta ''prod-talosconfig'' ''default'', sec_Data = [(''talosconfig'', ''tc'')]\<rparr>"

definition sample_tenv_at :: "machine \<Rightarrow> unit tenv" where
  "sample_tenv_at stored = \<lparr>
     te_GetMachine = (\<lambda>_ w. (Inr stored, w)),
     te_GetCluster = (\<lambda>_ w. (Inr (new_meta ''prod'' ''default''), w)),
     te_GetTinkerbellMachine = (\<lambda>_ w. (Inl NotFound, w)),
     te_GetHardware = (\<lambda>_ w. (Inl NotFound, w)),
     te_GetSecret = (\<lambda>_ w. (Inr sample_secret, w)),
     te_ListMachines = (\<lambda>_ _ _ w. (Inr [sample_machine, sample_peer], w)),
     te_ListSecrets = (\<lambda>_ _ w. (Inr [], w)),
     te_CreateSecret = (\<lambda>_ _ w. (None, w)), te_UpdateSecret = (\<lambda>_ _ w. (None, w)), te_DeleteSecret = (\<lambda>_ w. (None, w)),
     te_NewHelper = (\<lambda>_. None), te_Patch = (\<lambda>_ _ w. (None, w)),
     te_FromBytes = Inr,
     te_Dial = (\<lambda>_ a w. (if a = ''10.0.0.1'' then Inr 1 else if a = ''10.0.0.2'' then Inr 2
        else Inl (OtherError ''unreachable''), w)),
     te_ServiceInfo = (\<lambda>_ _ w. (Inr [Some \<lparr>SvcState = etcdRunningState, SvcHealthy = Some True\<rparr>], w)),
     te_EtcdMemberList = (\<lambda>_ _ w. (Inr (Some [[\<lparr>MemberId = 7, MemberHostname = ''cp-1.example''\<rparr>]]), w)),
     te_EtcdForfeitLeadership = (\<lambda>_ _ w. (None, w)),
     te_EtcdLeaveCluster = (\<lambda>_ _ w. (Some (OtherError ''timeout''), w)),
     te_EtcdRemoveMemberByID = (\<lambda>_ _ _ w. (None, w)),
     te_ResetGeneric = (\<lambda>_ _ _ w. (None, w)),
     te_Close = (\<lambda>_ w. (None, w)), te_Now = (\<lambda>w. (1000000000, w))\<rparr>"
abbreviation sample_tenv :: "unit tenv" where
  "sample_tenv \<equiv> sample_tenv_at sample_machine"
definition sample_cfg :: teardown_config where
  "sample_cfg = \<lparr>EtcdTimeout = 300 * Second, ResetTimeout = 600 * Second, EtcdCallTimeout = 30 * Second,
     ResetCallTimeout = 60 * Second, CacheNamespace = ''teardown''\<rparr>"
definition sample_req :: object_key where
  "sample_req = \<lparr>key_namespace = ''default'', key_name = ''cp-1''\<rparr>"

lemma sample_tenv_sel [simp]:
  "te_GetMachine (sample_tenv_at m) = (\<lambda>_ w. (Inr m, w))"
  "te_GetCluster (sample_tenv_at m) = (\<lambda>_ w. (Inr (new_meta ''prod'' ''default''), w))"
  "te_GetSecret (sample_tenv_at m) = (\<lambda>_ w. (Inr sample_secret, w))"
  "te_ListMachines (sample_tenv_at m) = (\<lambda>_ _ _ w. (Inr [sample_machine, sample_peer], w))"
  "te_NewHelper (sample_tenv_at m) = (\<lambda>_. None)" "te_Patch (sample_tenv_at m) = (\<lambda>_ _ w. (None, w))"
  "te_FromBytes (sample_tenv_at m) = Inr" "te_Dial (sample_tenv_at m) = (\<lambda>_ a w. (if a = ''10.0.0.1'' then Inr 1 else if a = ''10.0.0.2'' then Inr 2
     else Inl (OtherError ''unreachable''), w))"
  "te_ServiceInfo (sample_tenv_at m) = (\<lambda>_ _ w. (Inr [Some \<lparr>SvcState = etcdRunningState, SvcHealthy = Some True\<rparr>], w))"
  "te_EtcdMemberList (sample_tenv_at m) = (\<lambda>_ _ w. (Inr (Some [[\<lparr>MemberId = 7, MemberHostname = ''cp-1.example''\<rparr>]]), w))"
  "te_EtcdForfeitLeadership (sample_tenv_at m) = (\<lambda>_ _ w. (None, w))"
  "te_EtcdLeaveCluster (sample_tenv_at m) = (\<lambda>_ _ w. (Some (OtherError ''timeout''), w))"
  "te_EtcdRemoveMemberByID (sample_tenv_at m) = (\<lambda>_ _ _ w. (None, w))"
  "te_ResetGeneric (sample_tenv_at m) = (\<lambda>_ _ _ w. (None, w))"
  "te_Close (sample_tenv_at m) = (\<lambda>_ w. (None, w))" "te_Now (sample_tenv_at m) = (\<lambda>w. (1000000000, w))"
  by (simp_all add: sample_tenv_at_def)

lemma resolveAddress_annotations: "resolveAddress env (SetAnnotations a m) = resolveAddress env m"
  unfolding resolveAddress_def by (simp only: SetAnnotations_sel)

lemma sample_addresses:
  "resolveAddress (sample_tenv_at m) sample_machine = State_Monad.return (Inr ''10.0.0.1'')"
  "resolveAddress (sample_tenv_at m) sample_peer = State_Monad.return (Inr ''10.0.0.2'')"
  by (simp_all add: resolveAddress_def sample_machine_def sample_peer_def)

lemma sample_annotations: "m_Annotations sample_machine = [(HookAnnotation, HookValue)]"
  by (simp add: sample_machine_def)

lemma sample_order: "orderPeers [sample_machine, sample_peer] (SetAnnotations a sample_machine) = [sample_peer]"
  by (simp add: orderPeers_def sortByAge_def mhas_def)
    (simp add: sample_machine_def sample_peer_def new_meta_def mhas_def)

lemma sample_held:
  "\<not> holds (SetAnnotations a sample_machine) sample_machine"
  "\<not> holds (SetAnnotations a sample_machine) sample_peer"
  by (simp_all add: holds_def) (simp add: sample_peer_def new_meta_def)

lemma sample_turn: "m_Deletion sample_machine = Some 0" "AtPreTerminate sample_machine" "HasHook sample_machine"
   "Qualifies sample_machine" "IsControlPlane sample_machine" "\<not> HasOtherPreTerminateHooks sample_machine"
  by (simp_all add: sample_machine_def AtPreTerminate_def deletingReason_def HasHook_def Qualifies_def
      IsControlPlane_def HasOtherPreTerminateHooks_def mhas_def)

lemma sample_member: "findMember (Some [[\<lparr>MemberId = 7, MemberHostname = ''cp-1.example''\<rparr>]]) (hostnameCandidates sample_machine)
    = Some \<lparr>MemberId = 7, MemberHostname = ''cp-1.example''\<rparr>"
  by (simp add: findMember_def hostnameCandidates_def sample_machine_def new_meta_def Let_def)

definition removal_trace :: "tcall list" where
  "removal_trace = [
     TGetSecret (sourceSecretName (clusterKeyFor sample_machine)) (Inr sample_secret),
     TListPeers sample_machine (Inr [sample_machine, sample_peer]),
     TDial ''10.0.0.2'' (Inr 2),
     TServiceInfo 2 (EtcdCallTimeout sample_cfg) (Inr [Some \<lparr>SvcState = etcdRunningState, SvcHealthy = Some True\<rparr>]),
     TMemberList 2 (EtcdCallTimeout sample_cfg) (Inr (Some [[\<lparr>MemberId = 7, MemberHostname = ''cp-1.example''\<rparr>]])),
     TDial ''10.0.0.1'' (Inr 1),
     TServiceInfo 1 (EtcdCallTimeout sample_cfg) (Inr [Some \<lparr>SvcState = etcdRunningState, SvcHealthy = Some True\<rparr>]),
     TForfeit 1 (EtcdCallTimeout sample_cfg) None,
     TLeave 1 (EtcdCallTimeout sample_cfg) (Some (OtherError ''timeout'')),
     TClose 1, TRemove 2 7 (EtcdCallTimeout sample_cfg) None, TClose 2]"

lemma sample_removal:
  assumes "\<not> mhas a EtcdLeavingAnnotation"
  shows "run_state (tryEtcdRemoval (sample_tenv_at m) sample_cfg (SetAnnotations a sample_machine)) \<lparr>world = (), trace = xs\<rparr>
    = (Inr EtcdRemoved, \<lparr>world = (), trace = xs @ removal_trace\<rparr>)"
  by (simp add: tryEtcdRemoval_def sample_addresses resolveAddress_annotations Config_def findHealthyPeer_def
      listControlPlaneMachines_def callServiceInfo_def close_call_def event_def sample_order probePeer_def
      verify_then_act_def leaveViaVictim_def leave_dialog_def sample_member assms etcdRunningState_def removal_trace_def)

definition reset_trace :: "tcall list" where
  "reset_trace = [
     TGetSecret (sourceSecretName (clusterKeyFor sample_machine)) (Inr sample_secret),
     TDial ''10.0.0.1'' (Inr 1), TNow 1000000000,
     TReset 1 reset_request_sent (ResetCallTimeout sample_cfg) None,
     TNow 1000000000, TResetDuration 0, TClose 1]"

lemma sample_reset:
  "run_state (tryReset (sample_tenv_at m) sample_cfg (SetAnnotations a sample_machine)) \<lparr>world = (), trace = xs\<rparr>
    = (Inr ResetDone, \<lparr>world = (), trace = xs @ reset_trace\<rparr>)"
  by (simp add: tryReset_def sample_addresses resolveAddress_annotations Config_def reset_dialog_def now_call_def
      close_call_def event_def reset_trace_def)

text \<open>The annotations after each of the four patches.\<close>

definition sample_a0 :: gomap where "sample_a0 = [(HookAnnotation, HookValue)]"
definition sample_a1 :: gomap where
  "sample_a1 = mput ObservedAtAnnotation (FormatRFC3339 (TruncateSecond 1000000000)) sample_a0"
definition sample_a2 :: gomap where "sample_a2 = mput EtcdAnnotation EtcdRemoved sample_a1"
definition sample_a3 :: gomap where "sample_a3 = mput ResetAnnotation ResetDone sample_a2"
definition sample_a4 :: gomap where "sample_a4 = release_annotations sample_a3"

definition sample_patch :: "gomap \<Rightarrow> gomap \<Rightarrow> tcall" where
  "sample_patch a b = TPatch (m_key sample_machine) a b None"

definition sample_trace :: "tcall list" where
  "sample_trace =
     [TGetMachine sample_req (Inr sample_machine), TNow 1000000000, sample_patch sample_a0 sample_a1,
      TGetCluster (clusterKeyFor sample_machine) (Inr (new_meta ''prod'' ''default'')),
      TListPeers sample_machine (Inr [sample_machine, sample_peer])] @ removal_trace @
     [sample_patch sample_a1 sample_a2, TMetric ''teardown_etcd_total'' EtcdRemoved,
      TEvent (m_key sample_machine) ''Normal'' EventEtcdMemberRemoved] @ reset_trace @
     [sample_patch sample_a2 sample_a3, TMetric ''teardown_reset_total'' ResetDone,
      TEvent (m_key sample_machine) ''Normal'' EventResetSucceeded,
      sample_patch sample_a3 sample_a4, TEvent (m_key sample_machine) ''Normal'' EventTeardownComplete,
      TMetric ''teardown_machines_total'' []]"

lemma sample_keys [simp]:
  "mhas sample_a0 HookAnnotation" "mhas sample_a1 HookAnnotation" "mhas sample_a2 HookAnnotation"
  "mhas sample_a3 HookAnnotation" "\<not> mhas sample_a4 HookAnnotation"
  "\<not> mhas sample_a0 EtcdLeavingAnnotation" "\<not> mhas sample_a1 EtcdLeavingAnnotation"
  "map_of sample_a0 ObservedAtAnnotation = None"
  "\<not> mhas sample_a1 EtcdAnnotation" "\<not> mhas sample_a2 ResetAnnotation"
  "mhas sample_a2 EtcdAnnotation" "mhas sample_a3 ResetAnnotation" "mhas sample_a3 EtcdAnnotation"
  by (simp_all add: sample_a0_def sample_a1_def sample_a2_def sample_a3_def sample_a4_def,
      simp_all add: mhas_def EtcdLeavingAnnotation_def HookAnnotation_def PreTerminatePrefix_def
        ObservedAtAnnotation_def EtcdAnnotation_def ResetAnnotation_def)

lemma sample_patched:
  "SetAnnotations (mput EtcdAnnotation EtcdRemoved sample_a1) sample_machine = SetAnnotations sample_a2 sample_machine"
  "SetAnnotations (mput ResetAnnotation ResetDone sample_a2) sample_machine = SetAnnotations sample_a3 sample_machine"
  by (simp_all add: sample_a2_def sample_a3_def)

lemma sample_cluster: "run_state (clusterDeleting (sample_tenv_at m) (SetAnnotations sample_a1 sample_machine)) \<lparr>world = (), trace = xs\<rparr> =
   (Inr False, \<lparr>world = (), trace = xs @ [TGetCluster (clusterKeyFor sample_machine) (Inr (new_meta ''prod'' ''default''))]\<rparr>)"
  by (simp add: clusterDeleting_def new_meta_def)

lemma sample_etcd_phase: "run_state (etcdPhase (sample_tenv_at m) sample_cfg (SetAnnotations sample_a1 sample_machine) t False) \<lparr>world = (), trace = xs\<rparr> =
   ((SetAnnotations sample_a2 sample_machine, Inr 0), \<lparr>world = (), trace = xs @
     [TListPeers sample_machine (Inr [sample_machine, sample_peer])] @ removal_trace @
     [sample_patch sample_a1 sample_a2, TMetric ''teardown_etcd_total'' EtcdRemoved,
      TEvent (m_key sample_machine) ''Normal'' EventEtcdMemberRemoved]\<rparr>)"
  by (simp add: etcdPhase_def sample_turn serializeControlPlane_def listControlPlaneMachines_def sample_held
      ensureEtcdRemoved_def sample_removal conclude_etcd_def stampPhase_def patchAnnotations_def mget_absent
      recordEtcdOutcome_def event_def sample_patched sample_patch_def)
    (simp add: sample_a2_def conclusion_defs)

lemma sample_reset_phase: "run_state (resetPhase (sample_tenv_at m) sample_cfg (SetAnnotations sample_a2 sample_machine) t) \<lparr>world = (), trace = xs\<rparr> =
   ((SetAnnotations sample_a3 sample_machine, None), \<lparr>world = (), trace = xs @ reset_trace @
     [sample_patch sample_a2 sample_a3, TMetric ''teardown_reset_total'' ResetDone,
      TEvent (m_key sample_machine) ''Normal'' EventResetSucceeded]\<rparr>)"
  by (simp add: resetPhase_def sample_reset conclude_reset_def stampPhase_def patchAnnotations_def mget_absent
      event_def sample_patched sample_patch_def)
    (simp add: sample_a3_def conclusion_defs)

lemma sample_release: "run_state (release (sample_tenv_at m) (SetAnnotations sample_a3 sample_machine)) \<lparr>world = (), trace = xs\<rparr> =
   ((SetAnnotations sample_a4 sample_machine, None), \<lparr>world = (), trace = xs @
     [sample_patch sample_a3 sample_a4, TEvent (m_key sample_machine) ''Normal'' EventTeardownComplete,
      TMetric ''teardown_machines_total'' []]\<rparr>)"
  by (simp add: release_def patchAnnotations_def hook_release_def event_def sample_patch_def sample_a4_def)

lemma sample_run:
  "run_state (ReconcileMachine sample_tenv sample_cfg sample_req) \<lparr>world = (), trace = []\<rparr>
     = (Inr 0, \<lparr>world = (), trace = sample_trace\<rparr>)"
proof -
  have 0: "m_Annotations sample_machine = sample_a0" by (simp add: sample_annotations sample_a0_def)
  have obs: "run_state (ensureObservedAt sample_tenv sample_machine) \<lparr>world = (), trace = xs\<rparr> =
     ((SetAnnotations sample_a1 sample_machine, Inr (TruncateSecond 1000000000)),
      \<lparr>world = (), trace = xs @ [TNow 1000000000, sample_patch sample_a0 sample_a1]\<rparr>)" for xs
    by (simp add: ensureObservedAt_def Let_def 0 now_call_def patchAnnotations_def sample_patch_def sample_a1_def)
  show ?thesis
    by (simp add: ReconcileMachine_def sample_turn reconcileDeleting_def preTerminate_def obs sample_cluster sample_etcd_phase
        sample_reset_phase sample_release
        sample_trace_def)
qed

end
