(* ===== verification/CredentialProperties.thy ===== *)
theory CredentialProperties
  imports TeardownSample
begin

text \<open>
  Properties of the credential cache: a copy outlives the cluster's own secret, the garbage
  collection deletes copies of vanished clusters only, and the copies' names are not unique.
\<close>

section \<open>A store of secrets\<close>

text \<open>A reference API server for secrets: a map, whose Create refuses an existing key and whose
  Update refuses a missing one or a stale resourceVersion.\<close>

type_synonym secret_store = "object_key \<Rightarrow> secret option"

definition secret_key :: "secret \<Rightarrow> object_key" where
  "secret_key s = meta_key (sec_Meta s)"

definition store_get :: "object_key \<Rightarrow> secret_store \<Rightarrow> (go_error + secret) \<times> secret_store" where
  "store_get k w = (case w k of None \<Rightarrow> Inl NotFound | Some s \<Rightarrow> Inr s, w)"

definition store_create :: "secret \<Rightarrow> secret_store \<Rightarrow> go_error option \<times> secret_store" where
  "store_create s w = (case w (secret_key s) of
     Some _ \<Rightarrow> (Some AlreadyExists, w) | None \<Rightarrow> (None, w(secret_key s \<mapsto> s)))"

definition store_update :: "secret \<Rightarrow> secret_store \<Rightarrow> go_error option \<times> secret_store" where
  "store_update s w = (case w (secret_key s) of
     None \<Rightarrow> (Some NotFound, w)
   | Some old \<Rightarrow> if om_ResourceVersion (sec_Meta s) = om_ResourceVersion (sec_Meta old)
       then (None, w(secret_key s \<mapsto> s)) else (Some Conflict, w))"

definition on_store :: "secret_store tenv \<Rightarrow> bool" where
  "on_store env \<longleftrightarrow> te_GetSecret env = store_get \<and> te_CreateSecret env = (\<lambda>_. store_create) \<and> te_UpdateSecret env = (\<lambda>_. store_update)"

definition talosconfig_of :: "secret \<Rightarrow> string" where
  "talosconfig_of s = mget (sec_Data s) talosconfigKey"

text \<open>A copy that carries the version of the source carries its material.\<close>

definition copy_current :: "secret_store \<Rightarrow> string \<Rightarrow> object_key \<Rightarrow> bool" where
  "copy_current w ns cluster \<longleftrightarrow> (\<forall>src copy. w (sourceSecretName cluster) = Some src \<longrightarrow> w (cached_key ns cluster) = Some copy
     \<longrightarrow> mget (om_Annotations (sec_Meta copy)) sourceVersionAnnotation = om_ResourceVersion (sec_Meta src)
     \<longrightarrow> talosconfig_of copy = talosconfig_of src)"

lemma cached_copy_fields [simp]:
  "secret_key (cached_copy ns cluster src) = cached_key ns cluster"
  "talosconfig_of (cached_copy ns cluster src) = talosconfig_of src"
  "secret_key ((cached_copy ns cluster src)\<lparr>sec_Meta := (sec_Meta (cached_copy ns cluster src))\<lparr>om_ResourceVersion := v\<rparr>\<rparr>)
     = cached_key ns cluster"
  "talosconfig_of ((cached_copy ns cluster src)\<lparr>sec_Meta := x\<rparr>) = talosconfig_of src"
  "mget (om_Annotations (sec_Meta (cached_copy ns cluster src))) sourceVersionAnnotation = om_ResourceVersion (sec_Meta src)"
  using cached_copy_key [of ns cluster src]
  by (simp_all add: secret_key_def meta_key_def talosconfig_of_def) (simp_all add: cached_copy_def mget_def)

lemma Ensure_store:
  assumes env: "on_store env" and src: "world s (sourceSecretName cluster) = Some src"
    and cur: "copy_current (world s) ns cluster" and ne: "sourceSecretName cluster \<noteq> cached_key ns cluster"
    and run: "run_state (Ensure env ns cluster) s = ((created, None), s')"
  shows "\<exists>copy. world s' (cached_key ns cluster) = Some copy \<and> talosconfig_of copy = talosconfig_of src
    \<and> world s' (sourceSecretName cluster) = Some src \<and> copy_current (world s') ns cluster
    \<and> (created \<longleftrightarrow> world s (cached_key ns cluster) = None)"
proof (cases "world s (cached_key ns cluster)")
  case None
  with env src run ne show ?thesis
    by (auto simp: Ensure_def Let_def on_store_def store_get_def store_create_def copy_current_def)
next
  case (Some copy)
  let ?new = "(cached_copy ns cluster src)\<lparr>sec_Meta := (sec_Meta (cached_copy ns cluster src))\<lparr>om_ResourceVersion :=
     om_ResourceVersion (sec_Meta copy)\<rparr>\<rparr>"
  show ?thesis
  proof (cases "mget (om_Annotations (sec_Meta copy)) sourceVersionAnnotation = om_ResourceVersion (sec_Meta src)
      \<or> talosconfig_of copy = talosconfig_of src")
    case True
    with cur src Some have "talosconfig_of copy = talosconfig_of src" by (auto simp: copy_current_def)
    moreover have "created = False \<and> world s' = world s"
      using True env src run Some
      by (auto simp: Ensure_def Let_def on_store_def store_get_def talosconfig_of_def split: if_splits)
    ultimately show ?thesis using Some src cur by simp
  next
    case False
    have "created = False \<and> world s' = (world s)(cached_key ns cluster \<mapsto> ?new)"
      using False env src run Some
      by (simp add: Ensure_def Let_def on_store_def store_get_def store_update_def talosconfig_of_def) auto
    with Some src ne show ?thesis by (auto simp: copy_current_def)
  qed
qed

text \<open>C19: Teardown credentials survive the deletion of their cluster. After an \<open>Ensure\<close> that succeeded
  while the cluster's talosconfig secret existed, \<open>Config\<close> returns that very talosconfig also in any later
  state in which the cluster's secret is gone and the copy still there.\<close>

theorem credentials_survive_cluster_deletion:
  assumes "on_store env" and "world s (sourceSecretName cluster) = Some src"
    and "copy_current (world s) ns cluster" and "sourceSecretName cluster \<noteq> cached_key ns cluster"
    and "run_state (Ensure env ns cluster) s = ((created, None), s')"
    and "world t (cached_key ns cluster) = world s' (cached_key ns cluster)"
    and "world t (sourceSecretName cluster) = None"
    and "te_FromBytes env (talosconfig_of src) = Inr tc"
  shows "fst (run_state (Config env ns cluster) t) = Inr tc"
proof -
  from Ensure_store [OF assms(1-5)] obtain copy where
    "world s' (cached_key ns cluster) = Some copy" "talosconfig_of copy = talosconfig_of src" by blast
  with assms(1,6-8) show ?thesis
    by (simp add: Config_def on_store_def store_get_def talosconfig_of_def)
qed

definition store_tenv :: "secret_store tenv" where
  "store_tenv = \<lparr>
     te_GetMachine = (\<lambda>_ w. (Inl NotFound, w)), te_GetCluster = (\<lambda>_ w. (Inl NotFound, w)),
     te_GetTinkerbellMachine = (\<lambda>_ w. (Inl NotFound, w)), te_GetHardware = (\<lambda>_ w. (Inl NotFound, w)),
     te_GetSecret = store_get, te_ListMachines = (\<lambda>_ _ _ w. (Inr [], w)),
     te_ListSecrets = (\<lambda>_ _ w. (Inr [], w)),
     te_CreateSecret = (\<lambda>_. store_create), te_UpdateSecret = (\<lambda>_. store_update), te_DeleteSecret = (\<lambda>_ w. (None, w)),
     te_NewHelper = (\<lambda>_. None), te_Patch = (\<lambda>_ _ w. (None, w)), te_FromBytes = Inr,
     te_Dial = (\<lambda>_ _ w. (Inl NotFound, w)), te_ServiceInfo = (\<lambda>_ _ w. (Inr [], w)),
     te_EtcdMemberList = (\<lambda>_ _ w. (Inr None, w)), te_EtcdForfeitLeadership = (\<lambda>_ _ w. (None, w)),
     te_EtcdLeaveCluster = (\<lambda>_ _ w. (None, w)), te_EtcdRemoveMemberByID = (\<lambda>_ _ _ w. (None, w)),
     te_ResetGeneric = (\<lambda>_ _ _ w. (None, w)), te_Close = (\<lambda>_ w. (None, w)), te_Now = (\<lambda>w. (0, w))\<rparr>"

definition sample_cluster :: object_key where
  "sample_cluster = \<lparr>key_namespace = ''default'', key_name = ''prod''\<rparr>"

theorem credentials_survive_cluster_deletion_witness:
  "fst (run_state (Config store_tenv ''teardown'' sample_cluster)
      \<lparr>world = [cached_key ''teardown'' sample_cluster \<mapsto> cached_copy ''teardown'' sample_cluster sample_secret],
       trace = []\<rparr>) = Inr ''tc''"
proof -
  let ?ck = "cached_key ''teardown'' sample_cluster" and ?sk = "sourceSecretName sample_cluster"
  let ?s = "\<lparr>world = [?sk \<mapsto> sample_secret], trace = []\<rparr> :: (secret_store, tcall) st"
  have ne: "?sk \<noteq> ?ck" by (simp add: sourceSecretName_def cached_key_def sample_cluster_def)
  have env: "on_store store_tenv" by (simp add: on_store_def store_tenv_def)
  have run: "run_state (Ensure store_tenv ''teardown'' sample_cluster) ?s =
    ((True, None), \<lparr>world = [?sk \<mapsto> sample_secret, ?ck \<mapsto> cached_copy ''teardown'' sample_cluster sample_secret],
      trace = [TGetSecret ?sk (Inr sample_secret), TGetSecret ?ck (Inl NotFound),
        TSecretCreate (cached_copy ''teardown'' sample_cluster sample_secret) None]\<rparr>)"
    using ne by (simp add: Ensure_def Let_def store_tenv_def store_get_def store_create_def)
  have tc: "te_FromBytes store_tenv (talosconfig_of sample_secret) = Inr ''tc''"
    by (simp add: store_tenv_def talosconfig_of_def sample_secret_def talosconfigKey_def mget_def)
  show ?thesis
    by (rule credentials_survive_cluster_deletion [OF env _ _ ne run])
      (use ne tc in \<open>auto simp: copy_current_def\<close>)
qed

section \<open>Garbage collection\<close>

definition cluster_of_copy :: "secret \<Rightarrow> object_key" where
  "cluster_of_copy s = \<lparr>key_namespace = mget (om_Labels (sec_Meta s)) ClusterNamespaceLabel,
     key_name = mget (om_Labels (sec_Meta s)) ClusterNameLabel\<rparr>"

text \<open>The evidence that a cluster is gone, in the calls made before.\<close>

definition gone_in :: "tcall list \<Rightarrow> object_key \<Rightarrow> bool" where
  "gone_in us cluster \<longleftrightarrow> (\<exists>err. TGetCluster cluster (Inl err) \<in> set us \<and> IsNotFound err)
     \<and> (\<exists>ms. TListMachines (key_namespace cluster) [(CapiClusterNameLabel, key_name cluster)] [] (Inr ms) \<in> set us \<and> (\<forall>m \<in> set ms. \<not> Qualifies m))"

definition in_use :: "tcall list \<Rightarrow> object_key \<Rightarrow> bool" where
  "in_use us cluster \<longleftrightarrow> (\<exists>c. TGetCluster cluster (Inr c) \<in> set us)
     \<or> (\<exists>ms. TListMachines (key_namespace cluster) [(CapiClusterNameLabel, key_name cluster)] [] (Inr ms) \<in> set us \<and> (\<exists>m \<in> set ms. Qualifies m))"

text \<open>The copies: the secrets of the cache namespace that carry the cluster label.\<close>

definition copies_listed :: "string \<Rightarrow> tcall list \<Rightarrow> secret set \<Rightarrow> bool" where
  "copies_listed ns us S \<longleftrightarrow> (\<exists>secrets. TListSecrets ns [ClusterNameLabel] (Inr secrets) \<in> set us \<and> S \<subseteq> set secrets)"

fun gc_permitted :: "string \<Rightarrow> tcall list \<Rightarrow> tcall \<Rightarrow> bool" where
  "gc_permitted ns us (TSecretDelete s _) = (gone_in us (cluster_of_copy s) \<and> copies_listed ns us {s})"
| "gc_permitted ns us (TGetCluster _ _) = True"
| "gc_permitted ns us (TListMachines _ _ _ _) = True"
| "gc_permitted ns us (TListSecrets _ _ _) = True"
| "gc_permitted ns us _ = False"

lemma copies_listed_grows: "copies_listed ns us S \<Longrightarrow> T \<subseteq> S \<Longrightarrow> copies_listed ns (us @ xs) T"
  by (auto simp: copies_listed_def)

definition collected :: "tcall list \<Rightarrow> secret \<Rightarrow> bool" where
  "collected us s \<longleftrightarrow> in_use us (cluster_of_copy s)
     \<or> (\<exists>e. TSecretDelete s e \<in> set us \<and> (\<forall>err. e = Some err \<longrightarrow> IsNotFound err))"

lemma clusterGone_follows:
  "follows (gc_permitted ns) us (clusterGone env cluster) (\<lambda>r vs. (\<exists>xs. vs = us @ xs)
     \<and> (r = Inr True \<longrightarrow> gone_in vs cluster) \<and> (r = Inr False \<longrightarrow> in_use vs cluster))"
proof -
  have none: "gone_in ((us @ [TGetCluster cluster (Inl e)]) @ [TListMachines (key_namespace cluster) [(CapiClusterNameLabel, key_name cluster)] [] (Inr ms)]) cluster"
    if "IsNotFound e" "\<not> list_ex Qualifies ms" for e ms
    using that by (auto simp: gone_in_def list_ex_iff)
  have some: "in_use ((us @ [TGetCluster cluster (Inl e)]) @ [TListMachines (key_namespace cluster) [(CapiClusterNameLabel, key_name cluster)] [] (Inr ms)]) cluster"
    if "list_ex Qualifies ms" for e ms
    using that by (auto simp: in_use_def list_ex_iff)
  show ?thesis
    unfolding clusterGone_def
    by (intro follows_bind_extcall follows_branch follows_return)
      (use none some in \<open>auto simp: in_use_def split: sum.splits\<close>)
qed

lemma collected_grows: "collected us s \<Longrightarrow> collected (us @ xs) s"
  by (auto simp: collected_def in_use_def)

lemma gc_loop_follows:
  "copies_listed ns us (set secrets) \<Longrightarrow> follows (gc_permitted ns) us (gc_loop env secrets) (\<lambda>r vs. (\<exists>xs. vs = us @ xs)
     \<and> (r = None \<longrightarrow> (\<forall>s \<in> set secrets. collected vs s)))"
proof (induction secrets arbitrary: us)
  case Nil
  show ?case by (auto intro: follows_return)
next
  case (Cons s secrets)
  have rest: "follows (gc_permitted ns) vs (gc_loop env secrets) (\<lambda>r zs. (\<exists>xs. zs = us @ xs)
      \<and> (r = None \<longrightarrow> (\<forall>s \<in> set (s # secrets). collected zs s)))"
    if "vs = us @ xs" "collected vs s" for vs xs
  proof -
    have "collected (us @ xs @ ys) s" for ys using collected_grows [OF that(2), of ys] that(1) by simp
    moreover have "copies_listed ns vs (set secrets)"
      unfolding that(1) by (rule copies_listed_grows [OF Cons.prems]) auto
    ultimately show ?thesis by (intro follows_weaken [OF Cons.IH]) (use that in auto)
  qed
  have del: "follows (gc_permitted ns) vs (do {
          e \<leftarrow> extcall (TSecretDelete s) (te_DeleteSecret env s);
          case e of
            Some err \<Rightarrow> if \<not> IsNotFound err then State_Monad.return (Some err) else gc_loop env secrets
          | None \<Rightarrow> gc_loop env secrets
        }) (\<lambda>r zs. (\<exists>xs. zs = us @ xs) \<and> (r = None \<longrightarrow> (\<forall>s \<in> set (s # secrets). collected zs s)))"
    if v: "vs = us @ xs" and g: "gone_in vs (cluster_of_copy s)" for vs xs
  proof (rule follows_bind_extcall)
    show "gc_permitted ns vs (TSecretDelete s r)" for r using g v copies_listed_grows [OF Cons.prems, of "{s}"] by simp
    fix e
    have c: "collected (vs @ [TSecretDelete s e]) s" if "\<forall>err. e = Some err \<longrightarrow> IsNotFound err"
      using that by (auto simp: collected_def)
    show "follows (gc_permitted ns) (vs @ [TSecretDelete s e]) (case e of
            Some err \<Rightarrow> if \<not> IsNotFound err then State_Monad.return (Some err) else gc_loop env secrets
          | None \<Rightarrow> gc_loop env secrets)
        (\<lambda>r zs. (\<exists>xs. zs = us @ xs) \<and> (r = None \<longrightarrow> (\<forall>s \<in> set (s # secrets). collected zs s)))"
      by (intro follows_branch rest follows_return) (use v c in auto)
  qed
  show ?case
    unfolding gc_loop.simps Let_def cluster_of_copy_def [symmetric]
  proof (rule follows_bind [OF clusterGone_follows], elim conjE exE)
    fix g :: "go_error + bool" and vs xs
    assume v: "vs = us @ xs" and g: "g = Inr True \<longrightarrow> gone_in vs (cluster_of_copy s)"
      "g = Inr False \<longrightarrow> in_use vs (cluster_of_copy s)"
    show "follows (gc_permitted ns) vs (case g of
          Inl err \<Rightarrow> State_Monad.return (Some err)
        | Inr stale \<Rightarrow>
            if \<not> stale then gc_loop env secrets
            else do {
              e \<leftarrow> extcall (TSecretDelete s) (te_DeleteSecret env s);
              case e of
                Some err \<Rightarrow> if \<not> IsNotFound err then State_Monad.return (Some err) else gc_loop env secrets
              | None \<Rightarrow> gc_loop env secrets
            }) (\<lambda>r zs. (\<exists>xs. zs = us @ xs) \<and> (r = None \<longrightarrow> (\<forall>s \<in> set (s # secrets). collected zs s)))"
    proof (cases g)
      case (Inl e)
      with v show ?thesis by (auto intro: follows_return)
    next
      case (Inr stale)
      show ?thesis
      proof (cases stale)
        case True
        with Inr g del [OF v] show ?thesis by simp
      next
        case False
        with Inr g rest [OF v] show ?thesis by (simp add: collected_def)
      qed
    qed
  qed
qed

text \<open>C27: Garbage collection deletes a secret only when it listed it as a cached copy, and after it has
  seen, in the same pass, that the Cluster its labels name is gone and that no Machine listed in that
  cluster's namespace under that cluster's name label still qualifies; and a pass that reports success
  has dealt with every copy: its cluster is still in use, or it is deleted.\<close>

theorem GC_deletes_only_orphans:
  assumes "run_state (GC env ns) \<lparr>world = w, trace = []\<rparr> = (result, s')"
  shows "(\<forall>us s e vs. trace s' = us @ TSecretDelete s e # vs \<longrightarrow>
      (\<exists>secrets. TListSecrets ns [ClusterNameLabel] (Inr secrets) \<in> set us \<and> s \<in> set secrets)
      \<and> (\<exists>err. TGetCluster (cluster_of_copy s) (Inl err) \<in> set us \<and> IsNotFound err)
      \<and> (\<exists>ms. TListMachines (key_namespace (cluster_of_copy s)) [(CapiClusterNameLabel, key_name (cluster_of_copy s))] [] (Inr ms) \<in> set us
            \<and> (\<forall>m \<in> set ms. \<not> Qualifies m)))
    \<and> (result = None \<longrightarrow> (\<exists>secrets. fst (te_ListSecrets env ns [ClusterNameLabel] w) = Inr secrets
         \<and> (\<forall>s \<in> set secrets. collected (trace s') s)))"
proof -
  obtain l w1 where l: "te_ListSecrets env ns [ClusterNameLabel] w = (l, w1)" by fastforce
  show ?thesis
  proof (cases l)
    case (Inl e)
    with assms l show ?thesis by (auto simp: GC_def Cons_eq_append_conv)
  next
    case (Inr secrets)
    let ?list = "TListSecrets ns [ClusterNameLabel] (Inr secrets)"
    have lst: "copies_listed ns [?list] (set secrets)" by (simp add: copies_listed_def)
    have run: "run_state (gc_loop env secrets) \<lparr>world = w1, trace = [?list]\<rparr> = (result, s')"
      using assms l Inr by (simp add: GC_def)
    from yields_run [OF gc_loop_follows [OF lst, unfolded follows_def] run] obtain xs where
      xs: "trace s' = [?list] @ xs" "guarded (gc_permitted ns) [?list] xs"
      "result = None \<longrightarrow> (\<forall>s \<in> set secrets. collected (trace s') s)" by auto
    have "guarded (gc_permitted ns) [] (trace s')" using xs(1,2) by simp
    then have "gone_in us (cluster_of_copy s) \<and> copies_listed ns us {s}" if "trace s' = us @ TSecretDelete s e # vs" for us s e vs
      using guardedD [of "gc_permitted ns", OF _ that] by simp
    with xs(3) l Inr show ?thesis by (simp add: gone_in_def copies_listed_def)
  qed
qed

definition gc_copy :: secret where
  "gc_copy = cached_copy ''teardown'' sample_cluster sample_secret"

definition gc_tenv :: "unit tenv" where
  "gc_tenv = sample_tenv\<lparr>te_ListSecrets := (\<lambda>_ _ w. (Inr [gc_copy], w)), te_GetCluster := (\<lambda>_ w. (Inl NotFound, w)),
     te_ListMachines := (\<lambda>_ _ _ w. (Inr [], w)), te_DeleteSecret := (\<lambda>_ w. (None, w))\<rparr>"

theorem GC_deletes_only_orphans_witness:
  "\<exists>us. trace (snd (run_state (GC gc_tenv ''teardown'') \<lparr>world = (), trace = []\<rparr>)) = us @ [TSecretDelete gc_copy None]
     \<and> (\<exists>err. TGetCluster (cluster_of_copy gc_copy) (Inl err) \<in> set us \<and> IsNotFound err)"
proof -
  obtain r s' where run: "run_state (GC gc_tenv ''teardown'') \<lparr>world = (), trace = []\<rparr> = (r, s')" by fastforce
  let ?us = "[TListSecrets ''teardown'' [ClusterNameLabel] (Inr [gc_copy]), TGetCluster (cluster_of_copy gc_copy) (Inl NotFound),
    TListMachines (key_namespace (cluster_of_copy gc_copy)) [(CapiClusterNameLabel, key_name (cluster_of_copy gc_copy))] [] (Inr [])]"
  have t: "trace s' = ?us @ [TSecretDelete gc_copy None]"
    using run by (auto simp: GC_def gc_tenv_def clusterGone_def Let_def cluster_of_copy_def)
  with GC_deletes_only_orphans [OF run] run show ?thesis by auto
qed

section \<open>Names of the copies\<close>

text \<open>The name of a cached copy does not determine its cluster: the namespace and the name are
  joined by a dash that both may contain, so two different clusters can share one copy, and each
  overwrites the other's credentials.\<close>

theorem cached_names_collide:
  "\<exists>a b. a \<noteq> b \<and> cachedSecretName a = cachedSecretName b \<and> (\<forall>ns. cached_key ns a = cached_key ns b)
    \<and> sourceSecretName a \<noteq> sourceSecretName b"
  by (rule exI [of _ "\<lparr>key_namespace = ''team-a'', key_name = ''prod''\<rparr>"],
      rule exI [of _ "\<lparr>key_namespace = ''team'', key_name = ''a-prod''\<rparr>"])
    (simp add: cachedSecretName_def cached_key_def sourceSecretName_def)

end
