(* ===== verification/Janitor.thy ===== *)
theory Janitor
  imports KubeTypes
begin

text \<open>
  \<open>internal/janitor\<close>: the tinkerbell-hardware-janitor. \<open>Classify\<close> is the truth table of
  classify.go, \<open>Scrub\<close> the in-place clearing of scrub.go (it returns the new object and the names
  of the fields it changed), \<open>Reconcile\<close> the handler of reconciler.go, over an environment that
  holds the client's Get and Update and the clock. Metrics and events are calls of the trace.
\<close>

section \<open>Constants (janitor.go)\<close>

text \<open>\<open>Name\<close> and \<open>FieldManager\<close> of the package.\<close>

definition JanitorName :: string where
  "JanitorName = ''tinkerbell-hardware-janitor''"
definition JanitorFieldManager :: string where
  "JanitorFieldManager = JanitorName"

definition OwnerNameLabel :: string where
  "OwnerNameLabel = ''v1alpha1.tinkerbell.org/ownerName''"
definition OwnerNamespaceLabel :: string where
  "OwnerNamespaceLabel = ''v1alpha1.tinkerbell.org/ownerNamespace''"
definition ProvisionedAnnotation :: string where
  "ProvisionedAnnotation = ''v1alpha1.tinkerbell.org/provisioned''"
definition ScrubbedAtAnnotation :: string where
  "ScrubbedAtAnnotation = ''janitor.tinkerbell.org/scrubbed-at''"
definition EventScrubbed :: string where
  "EventScrubbed = ''HardwareScrubbed''"
definition EventHalfReleased :: string where
  "EventHalfReleased = ''HardwareHalfReleased''"

lemma scrub_key_fresh [simp]:
  "ScrubbedAtAnnotation \<noteq> ProvisionedAnnotation" "ProvisionedAnnotation \<noteq> ScrubbedAtAnnotation"
  by (simp_all add: ScrubbedAtAnnotation_def ProvisionedAnnotation_def)

section \<open>The released-hardware predicate (classify.go)\<close>

datatype janitor_class =
    ClassClaimed
  | ClassNeverClaimed
  | ClassBootstrapReserved
  | ClassHalfReleased
  | ClassReleased

fun class_String :: "janitor_class \<Rightarrow> string" where
  "class_String ClassClaimed = ''Claimed''"
| "class_String ClassNeverClaimed = ''NeverClaimed''"
| "class_String ClassBootstrapReserved = ''BootstrapReserved''"
| "class_String ClassHalfReleased = ''HalfReleased''"
| "class_String ClassReleased = ''Released''"

definition hasUserData :: "hardware \<Rightarrow> bool" where
  "hasUserData hw = (case UserData (hw_Spec hw) of None \<Rightarrow> False | Some u \<Rightarrow> TrimSpace u \<noteq> [])"

definition Classify :: "hardware \<Rightarrow> janitor_class" where
  "Classify hw =
     (let hasOwnerName = mhas (om_Labels (hw_Meta hw)) OwnerNameLabel;
          hasOwnerNamespace = mhas (om_Labels (hw_Meta hw)) OwnerNamespaceLabel
      in if hasOwnerName \<or> hasOwnerNamespace then ClassClaimed
      else let provisioned = mhas (om_Annotations (hw_Meta hw)) ProvisionedAnnotation
      in if \<not> hasUserData hw \<and> \<not> provisioned then ClassNeverClaimed
      else if \<not> hasUserData hw \<and> provisioned then ClassBootstrapReserved
      else if provisioned then ClassHalfReleased
      else ClassReleased)"

text \<open>The three conjuncts of the documentation.\<close>

definition owner_absent :: "hardware \<Rightarrow> bool" where
  "owner_absent hw \<longleftrightarrow> \<not> mhas (om_Labels (hw_Meta hw)) OwnerNameLabel
     \<and> \<not> mhas (om_Labels (hw_Meta hw)) OwnerNamespaceLabel"

definition provisioned_absent :: "hardware \<Rightarrow> bool" where
  "provisioned_absent hw \<longleftrightarrow> \<not> mhas (om_Annotations (hw_Meta hw)) ProvisionedAnnotation"

lemma Classify_cases:
  "Classify hw = ClassClaimed \<longleftrightarrow> \<not> owner_absent hw"
  "Classify hw = ClassNeverClaimed \<longleftrightarrow> owner_absent hw \<and> \<not> hasUserData hw \<and> provisioned_absent hw"
  "Classify hw = ClassBootstrapReserved \<longleftrightarrow> owner_absent hw \<and> \<not> hasUserData hw \<and> \<not> provisioned_absent hw"
  "Classify hw = ClassHalfReleased \<longleftrightarrow> owner_absent hw \<and> hasUserData hw \<and> \<not> provisioned_absent hw"
  "Classify hw = ClassReleased \<longleftrightarrow> owner_absent hw \<and> hasUserData hw \<and> provisioned_absent hw"
  by (auto simp: Classify_def Let_def owner_absent_def provisioned_absent_def)

lemma class_String_inj: "class_String c = class_String d \<Longrightarrow> c = d"
  by (cases c; cases d) simp_all

section \<open>The scrub (scrub.go)\<close>

record scrub_options =
  ClearOSMetadata :: bool
  BaselineAllowPXE :: bool

text \<open>The first block of \<open>Scrub\<close>: userData.\<close>

definition scrub_userdata :: "hardware_spec \<Rightarrow> hardware_spec \<times> string list" where
  "scrub_userdata sp = (if UserData sp \<noteq> None then (sp\<lparr>UserData := None\<rparr>, [''spec.userData'']) else (sp, []))"

text \<open>The second block: the OS metadata, when asked for and when the pointers are not nil.\<close>

definition scrub_instance :: "metadata_instance \<Rightarrow> metadata_instance \<times> string list" where
  "scrub_instance i =
     (let (i1, c1) = (if OperatingSystem i \<noteq> None
        then (i\<lparr>OperatingSystem := None\<rparr>, [''metadata.instance.operating_system'']) else (i, []));
          (i2, c2) = (if InstanceState i1 \<noteq> []
        then (i1\<lparr>InstanceState := []\<rparr>, [''metadata.instance.state'']) else (i1, []))
      in (i2, c1 @ c2))"

definition scrub_metadata :: "scrub_options \<Rightarrow> hardware_spec \<Rightarrow> hardware_spec \<times> string list" where
  "scrub_metadata opts sp =
     (if \<not> ClearOSMetadata opts then (sp, [])
      else (case Metadata sp of
        None \<Rightarrow> (sp, [])
      | Some md \<Rightarrow> (case Instance md of
          None \<Rightarrow> (sp, [])
        | Some i \<Rightarrow> (case scrub_instance i of
            (i', c) \<Rightarrow> (sp\<lparr>Metadata := Some (md\<lparr>Instance := Some i'\<rparr>)\<rparr>, c)))))"

text \<open>The loop over the interfaces: its body for the interface with index \<open>i\<close>, and the loop from \<open>i\<close>.\<close>

definition park_interface :: "bool \<Rightarrow> nat \<Rightarrow> interface \<Rightarrow> interface \<times> string list" where
  "park_interface base i f = (case Netboot f of
     None \<Rightarrow> (f, [])
   | Some nb \<Rightarrow> if AllowPXE nb = None \<or> AllowPXE nb \<noteq> Some base
       then (f\<lparr>Netboot := Some (nb\<lparr>AllowPXE := Some base\<rparr>)\<rparr>,
             [''interfaces['' @ itoa_nat i @ ''].netboot.allowPXE parked''])
       else (f, []))"

fun scrub_interfaces :: "bool \<Rightarrow> nat \<Rightarrow> interface list \<Rightarrow> interface list \<times> string list" where
  "scrub_interfaces base i [] = ([], [])"
| "scrub_interfaces base i (f # fs) = (case park_interface base i f of
     (f', c) \<Rightarrow> (case scrub_interfaces base (Suc i) fs of (fs', cs) \<Rightarrow> (f' # fs', c @ cs)))"

definition scrub_spec :: "scrub_options \<Rightarrow> hardware_spec \<Rightarrow> hardware_spec \<times> string list" where
  "scrub_spec opts sp =
     (let (sp1, c1) = scrub_userdata sp;
          (sp2, c2) = scrub_metadata opts sp1;
          (fs, c3) = scrub_interfaces (BaselineAllowPXE opts) 0 (Interfaces sp2)
      in (sp2\<lparr>Interfaces := fs\<rparr>, c1 @ c2 @ c3))"

definition stamp_scrubbed :: "time \<Rightarrow> hardware \<Rightarrow> hardware" where
  "stamp_scrubbed now hw = hw\<lparr>hw_Meta := (hw_Meta hw)\<lparr>om_Annotations :=
     mput ScrubbedAtAnnotation (FormatRFC3339 now) (om_Annotations (hw_Meta hw))\<rparr>\<rparr>"

text \<open>\<open>now\<close> is what the clock would answer; it is read only when something changed.\<close>

definition Scrub :: "scrub_options \<Rightarrow> time \<Rightarrow> hardware \<Rightarrow> hardware \<times> string list" where
  "Scrub opts now hw = (case scrub_spec opts (hw_Spec hw) of
     (sp, changed) \<Rightarrow> (if changed \<noteq> [] then stamp_scrubbed now (hw\<lparr>hw_Spec := sp\<rparr>)
                       else hw\<lparr>hw_Spec := sp\<rparr>, changed))"

abbreviation scrubbed_spec :: "scrub_options \<Rightarrow> hardware \<Rightarrow> hardware_spec" where
  "scrubbed_spec opts hw \<equiv> fst (scrub_spec opts (hw_Spec hw))"

lemma Scrub_spec: "hw_Spec (fst (Scrub opts now hw)) = scrubbed_spec opts hw"
  by (simp add: Scrub_def stamp_scrubbed_def split: prod.split)

lemma Scrub_changed: "snd (Scrub opts now hw) = snd (scrub_spec opts (hw_Spec hw))"
  by (simp add: Scrub_def split: prod.split)

lemma Scrub_meta:
  "om_Labels (hw_Meta (fst (Scrub opts now hw))) = om_Labels (hw_Meta hw)"
  "om_ResourceVersion (hw_Meta (fst (Scrub opts now hw))) = om_ResourceVersion (hw_Meta hw)"
  "om_Name (hw_Meta (fst (Scrub opts now hw))) = om_Name (hw_Meta hw)"
  "om_Namespace (hw_Meta (fst (Scrub opts now hw))) = om_Namespace (hw_Meta hw)"
  "k \<noteq> ScrubbedAtAnnotation \<Longrightarrow>
     map_of (om_Annotations (hw_Meta (fst (Scrub opts now hw)))) k = map_of (om_Annotations (hw_Meta hw)) k"
  by (simp_all add: Scrub_def stamp_scrubbed_def split: prod.split)

section \<open>Facts about each block\<close>

definition parked_interface :: "bool \<Rightarrow> interface \<Rightarrow> interface" where
  "parked_interface b f = f\<lparr>Netboot := map_option (\<lambda>nb. nb\<lparr>AllowPXE := Some b\<rparr>) (Netboot f)\<rparr>"

lemma netboot_AllowPXE_same: "nb\<lparr>AllowPXE := x\<rparr> = nb \<longleftrightarrow> AllowPXE nb = x"
  by (cases nb) auto

lemma interface_Netboot_same: "f\<lparr>Netboot := x\<rparr> = f \<longleftrightarrow> Netboot f = x"
  by (cases f) auto

lemma park_interface_eq:
  "fst (park_interface b i f) = parked_interface b f"
  "snd (park_interface b i f) = [] \<longleftrightarrow> parked_interface b f = f"
proof -
  have same: "parked_interface b f = f \<longleftrightarrow> (case Netboot f of None \<Rightarrow> True | Some nb \<Rightarrow> AllowPXE nb = Some b)"
    unfolding parked_interface_def interface_Netboot_same
    by (cases "Netboot f") (simp_all, metis netboot_AllowPXE_same)
  show "fst (park_interface b i f) = parked_interface b f"
    using same by (auto simp: park_interface_def parked_interface_def split: option.splits)
  show "snd (park_interface b i f) = [] \<longleftrightarrow> parked_interface b f = f"
    unfolding same by (auto simp: park_interface_def split: option.split)
qed

lemma scrub_interfaces_Cons:
  "fst (scrub_interfaces b i (f # fs)) = fst (park_interface b i f) # fst (scrub_interfaces b (Suc i) fs)"
  "snd (scrub_interfaces b i (f # fs)) = snd (park_interface b i f) @ snd (scrub_interfaces b (Suc i) fs)"
  by (simp_all split: prod.splits)

lemma scrub_interfaces_eq: "fst (scrub_interfaces b i fs) = map (parked_interface b) fs"
  by (induction fs arbitrary: i) (simp_all add: scrub_interfaces_Cons park_interface_eq del: scrub_interfaces.simps(2))

lemma scrub_interfaces_unchanged_iff:
  "snd (scrub_interfaces b i fs) = [] \<longleftrightarrow> map (parked_interface b) fs = fs"
  by (induction fs arbitrary: i) (simp_all add: scrub_interfaces_Cons park_interface_eq del: scrub_interfaces.simps(2))

lemma scrub_instance_result:
  "fst (scrub_instance i) = i\<lparr>OperatingSystem := None, InstanceState := []\<rparr>"
  "snd (scrub_instance i) = [] \<longleftrightarrow> OperatingSystem i = None \<and> InstanceState i = []"
  by (auto simp: scrub_instance_def Let_def)

text \<open>What the scrub leaves behind, as an equation on the specification.\<close>

definition cleared_metadata :: "scrub_options \<Rightarrow> hardware_metadata option \<Rightarrow> hardware_metadata option" where
  "cleared_metadata opts md = (if ClearOSMetadata opts
     then map_option (\<lambda>m. m\<lparr>Instance :=
       map_option (\<lambda>i. i\<lparr>OperatingSystem := None, InstanceState := []\<rparr>) (Instance m)\<rparr>) md
     else md)"

lemma scrub_metadata_eq:
  "fst (scrub_metadata opts sp) = sp\<lparr>Metadata := cleared_metadata opts (Metadata sp)\<rparr>"
proof (cases "Metadata sp")
  case None
  then show ?thesis by (simp add: scrub_metadata_def cleared_metadata_def)
next
  case (Some md)
  then show ?thesis
    by (cases "Instance md")
      (auto simp: scrub_metadata_def cleared_metadata_def scrub_instance_result(1) [symmetric] split: prod.splits)
qed

lemma instance_cleared_same:
  "i\<lparr>OperatingSystem := None, InstanceState := []\<rparr> = i \<longleftrightarrow> OperatingSystem i = None \<and> InstanceState i = []"
  by (cases i) auto

lemma metadata_Instance_same: "m\<lparr>Instance := x\<rparr> = m \<longleftrightarrow> Instance m = x"
  by (cases m) auto

lemma scrub_metadata_unchanged_iff:
  "snd (scrub_metadata opts sp) = [] \<longleftrightarrow> cleared_metadata opts (Metadata sp) = Metadata sp"
proof (cases "Metadata sp")
  case None
  then show ?thesis by (simp add: scrub_metadata_def cleared_metadata_def)
next
  case (Some md)
  show ?thesis
  proof (cases "Instance md")
    case None
    with Some show ?thesis by (cases md) (simp add: scrub_metadata_def cleared_metadata_def)
  next
    case i: (Some i)
    obtain i' c where "scrub_instance i = (i', c)" by fastforce
    with scrub_instance_result(2) [of i] have "c = [] \<longleftrightarrow> OperatingSystem i = None \<and> InstanceState i = []" by simp
    with Some i \<open>scrub_instance i = (i', c)\<close> show ?thesis
      by (simp add: scrub_metadata_def cleared_metadata_def metadata_Instance_same instance_cleared_same
          eq_commute [of i])
  qed
qed

lemma scrub_spec_parts:
  "fst (scrub_spec opts sp) = sp\<lparr>UserData := None, Metadata := cleared_metadata opts (Metadata sp),
     Interfaces := map (parked_interface (BaselineAllowPXE opts)) (Interfaces sp)\<rparr>" (is ?eq)
  "snd (scrub_spec opts sp) = [] \<longleftrightarrow> UserData sp = None \<and> cleared_metadata opts (Metadata sp) = Metadata sp
     \<and> map (parked_interface (BaselineAllowPXE opts)) (Interfaces sp) = Interfaces sp" (is ?same)
proof -
  let ?u = "scrub_userdata sp"
  let ?m = "scrub_metadata opts (fst ?u)"
  let ?f = "scrub_interfaces (BaselineAllowPXE opts) 0 (Interfaces (fst ?m))"
  have r: "scrub_spec opts sp = ((fst ?m)\<lparr>Interfaces := fst ?f\<rparr>, snd ?u @ snd ?m @ snd ?f)"
    by (simp add: scrub_spec_def split: prod.split)
  have u: "fst ?u = sp\<lparr>UserData := None\<rparr>" "snd ?u = [] \<longleftrightarrow> UserData sp = None"
    by (auto simp: scrub_userdata_def)
  show ?eq unfolding r fst_conv scrub_interfaces_eq scrub_metadata_eq u(1) by simp
  show ?same unfolding r snd_conv append_is_Nil_conv u(2) scrub_metadata_unchanged_iff
      scrub_interfaces_unchanged_iff scrub_metadata_eq u(1) by simp
qed

lemma scrub_spec_changed_iff: "snd (scrub_spec opts sp) = [] \<longleftrightarrow> fst (scrub_spec opts sp) = sp"
  unfolding scrub_spec_parts by (cases sp) auto

lemma Scrub_unchanged: "snd (scrub_spec opts (hw_Spec hw)) = [] \<Longrightarrow> Scrub opts now hw = (hw, [])"
  using scrub_spec_changed_iff [of opts "hw_Spec hw"]
  by (cases "scrub_spec opts (hw_Spec hw)"; cases hw) (simp add: Scrub_def)

end
