(* ===== verification/JanitorReconciler.thy ===== *)
theory JanitorReconciler
  imports Janitor
begin

text \<open>
  \<open>internal/janitor/reconciler.go\<close>: the handler, its environment (the client's Get and Update on
  Hardware and the clock), and the properties of the janitor: what it writes, when, and that a
  claimed object is never overwritten when other clients write between its read and its write.
\<close>

record 'w janitor_env =
  je_Get :: "object_key \<Rightarrow> 'w \<Rightarrow> (go_error + hardware) \<times> 'w"
  je_Update :: "string \<Rightarrow> hardware \<Rightarrow> 'w \<Rightarrow> go_error option \<times> 'w"
  je_Now :: "'w \<Rightarrow> time \<times> 'w"

datatype janitor_call =
    JGet object_key
  | JNow
  | JUpdate hardware "go_error option"
  | JEvent object_key string string string
  | JHalfReleasedSet object_key
  | JHalfReleasedDelete object_key
  | JUpdateConflictsInc
  | JScrubbedTotalInc

fun is_update :: "janitor_call \<Rightarrow> bool" where
  "is_update (JUpdate _ _) = True"
| "is_update _ = False"

text \<open>\<open>Scrub\<close> with the clock as an outside call.\<close>

definition ScrubM :: "'w janitor_env \<Rightarrow> scrub_options \<Rightarrow> hardware \<Rightarrow> ('w, janitor_call, hardware \<times> string list) prog" where
  "ScrubM env opts hw = (case scrub_spec opts (hw_Spec hw) of (sp, changed) \<Rightarrow>
     if changed \<noteq> [] then do {
       now \<leftarrow> extcall (\<lambda>_. JNow) (je_Now env);
       State_Monad.return (stamp_scrubbed now (hw\<lparr>hw_Spec := sp\<rparr>), changed)
     } else State_Monad.return (hw\<lparr>hw_Spec := sp\<rparr>, changed))"

text \<open>\<open>Reconcile\<close>: the result is the error (the \<open>ctrl.Result\<close> is always zero).\<close>

definition Reconcile :: "'w janitor_env \<Rightarrow> scrub_options \<Rightarrow> object_key \<Rightarrow> ('w, janitor_call, go_error option) prog" where
  "Reconcile env opts req = do {
     r \<leftarrow> extcall (\<lambda>_. JGet req) (je_Get env req);
     case r of
       Inl err \<Rightarrow> do {
         (if IsNotFound err then emit (JHalfReleasedDelete req) else State_Monad.return ());
         State_Monad.return (IgnoreNotFound err)
       }
     | Inr hw \<Rightarrow> do {
         (if Classify hw \<noteq> ClassHalfReleased then emit (JHalfReleasedDelete (hw_key hw))
          else State_Monad.return ());
         case Classify hw of
           ClassHalfReleased \<Rightarrow> do {
             emit (JHalfReleasedSet (hw_key hw));
             emit (JEvent (hw_key hw) ''Warning'' EventHalfReleased []);
             State_Monad.return None
           }
         | ClassReleased \<Rightarrow> do {
             (scrubbed, cleared) \<leftarrow> ScrubM env opts hw;
             if cleared = [] then State_Monad.return None
             else do {
               u \<leftarrow> extcall (JUpdate scrubbed) (je_Update env JanitorFieldManager scrubbed);
               case u of
                 Some err \<Rightarrow> do {
                   (if IsConflict err then emit JUpdateConflictsInc else State_Monad.return ());
                   State_Monad.return (Some err)
                 }
               | None \<Rightarrow> do {
                   emit (JEvent (hw_key hw) ''Normal'' EventScrubbed
                     (''released hardware scrubbed: '' @ Join '', '' cleared));
                   emit JScrubbedTotalInc;
                   State_Monad.return None
                 }
             }
           }
         | _ \<Rightarrow> State_Monad.return None
       }
   }"

section \<open>Contracts\<close>

lemma released_scrub_changes: "Classify hw = ClassReleased \<Longrightarrow> snd (scrub_spec opts (hw_Spec hw)) \<noteq> []"
  by (auto simp: Classify_cases hasUserData_def scrub_spec_parts split: option.splits)

lemma ScrubM_run:
  "Classify hw = ClassReleased \<Longrightarrow> ScrubM env opts hw = do {
     now \<leftarrow> extcall (\<lambda>_. JNow) (je_Now env); State_Monad.return (Scrub opts now hw)}"
  using released_scrub_changes [of hw opts] by (auto simp: ScrubM_def Scrub_def split: prod.split)

text \<open>The released branch: clock, update, then either the events of success or the error.\<close>

definition released_trace :: "scrub_options \<Rightarrow> hardware \<Rightarrow> go_error option \<Rightarrow> janitor_call list \<Rightarrow> bool" where
  "released_trace opts hw result xs \<longleftrightarrow> (\<exists>now.
     xs = [JHalfReleasedDelete (hw_key hw), JNow, JUpdate (fst (Scrub opts now hw)) result] @
       (case result of
          None \<Rightarrow> [JEvent (hw_key hw) ''Normal'' EventScrubbed
             (''released hardware scrubbed: '' @ Join '', '' (snd (Scrub opts now hw))), JScrubbedTotalInc]
        | Some err \<Rightarrow> if IsConflict err then [JUpdateConflictsInc] else []))"

definition reconcile_trace :: "scrub_options \<Rightarrow> object_key \<Rightarrow> (go_error + hardware) \<Rightarrow> go_error option \<Rightarrow> janitor_call list \<Rightarrow> bool" where
  "reconcile_trace opts req got result xs \<longleftrightarrow> (case got of
     Inl err \<Rightarrow> result = IgnoreNotFound err
       \<and> xs = [JGet req] @ (if IsNotFound err then [JHalfReleasedDelete req] else [])
   | Inr hw \<Rightarrow> (case Classify hw of
       ClassReleased \<Rightarrow> (\<exists>ys. xs = JGet req # ys \<and> released_trace opts hw result ys)
     | ClassHalfReleased \<Rightarrow> result = None \<and> xs = [JGet req, JHalfReleasedSet (hw_key hw),
         JEvent (hw_key hw) ''Warning'' EventHalfReleased []]
     | _ \<Rightarrow> result = None \<and> xs = [JGet req, JHalfReleasedDelete (hw_key hw)]))"

lemma Reconcile_run:
  "run_state (Reconcile env opts req) s = (result, s') \<Longrightarrow>
     \<exists>xs. trace s' = trace s @ xs \<and> reconcile_trace opts req (fst (je_Get env req (world s))) result xs"
proof -
  assume run: "run_state (Reconcile env opts req) s = (result, s')"
  obtain r w where g: "je_Get env req (world s) = (r, w)" by fastforce
  show ?thesis
  proof (cases r)
    case (Inl err)
    with run g show ?thesis
      by (auto simp: Reconcile_def reconcile_trace_def split: if_splits)
  next
    case (Inr hw)
    show ?thesis
    proof (cases "Classify hw")
      case ClassReleased
      obtain now w2 where n: "je_Now env w = (now, w2)" by fastforce
      obtain sc cl where sc: "Scrub opts now hw = (sc, cl)" by fastforce
      obtain u w3 where u: "je_Update env JanitorFieldManager sc w2 = (u, w3)" by fastforce
      have "cl \<noteq> []"
        using released_scrub_changes [OF ClassReleased, of opts] sc by (auto simp: Scrub_def split: prod.splits)
      with run g Inr ClassReleased n sc u show ?thesis
        by (cases u) (auto simp: Reconcile_def reconcile_trace_def ScrubM_run released_trace_def
            intro!: exI [of _ now] split: if_splits)
    qed (use run g Inr in \<open>auto simp: Reconcile_def reconcile_trace_def\<close>)
  qed
qed

section \<open>The client of a revision store\<close>

text \<open>
  What the handler relies on: Get and Update are the calls of a revision store of Hardware, and
  reading the clock writes nothing.
\<close>

locale janitor_client = revision_store hw_object_key hw_rv revs commits "je_Get env" "je_Update env JanitorFieldManager" ok
  for revs :: "'w \<Rightarrow> hardware set" and commits and env :: "'w janitor_env" and ok +
  assumes now_ok: "ok w \<Longrightarrow> ok (snd (je_Now env w))"
    and now_revs: "ok w \<Longrightarrow> revs w \<subseteq> revs (snd (je_Now env w))"
    and now_commits: "ok w \<Longrightarrow> commits (snd (je_Now env w)) = commits w"
begin

lemma commits_only_released:
  assumes "ok (world s)" and run: "run_state (Reconcile env opts req) s = (result, s')"
  shows "\<exists>cs. commits (world s') = commits (world s) @ cs \<and> ok (world s') \<and>
    (\<forall>(old, new) \<in> set cs. Classify old = ClassReleased \<and> (\<exists>now. new = fst (Scrub opts now old)))"
proof -
  obtain r w where g: "je_Get env req (world s) = (r, w)" by fastforce
  have w: "ok w" "commits w = commits (world s)"
    using read_ok [OF assms(1), of req] read_commits [OF assms(1), of req] g by auto
  show ?thesis
  proof (cases "\<exists>hw. r = Inr hw \<and> Classify hw = ClassReleased")
    case False
    then have "world s' = w"
      using run g by (cases r; auto simp: Reconcile_def split: if_splits janitor_class.splits)
    with w show ?thesis by auto
  next
    case True
    then obtain hw where hw: "r = Inr hw" "Classify hw = ClassReleased" by blast
    obtain now w2 where n: "je_Now env w = (now, w2)" by fastforce
    obtain sc cl where sc: "Scrub opts now hw = (sc, cl)" by fastforce
    obtain u w3 where u: "je_Update env JanitorFieldManager sc w2 = (u, w3)" by fastforce
    have cl: "cl \<noteq> []"
      using released_scrub_changes [OF hw(2), of opts] sc by (auto simp: Scrub_def split: prod.splits)
    have s': "world s' = w3"
      using run g hw n sc u cl by (cases u; auto simp: Reconcile_def ScrubM_run split: if_splits)
    have w2: "ok w2" "commits w2 = commits (world s)" "hw \<in> revs w2"
      using now_ok [OF w(1)] now_commits [OF w(1)] now_revs [OF w(1)] w n
        read_seen [OF assms(1), of req hw] g hw by auto
    have id: "hw_object_key sc = hw_object_key hw" "hw_rv sc = hw_rv hw"
      using Scrub_meta(2-4) [where opts = opts and now = now and hw = hw] sc by (simp_all add: hw_object_key_def hw_rv_def meta_key_def)
    show ?thesis
    proof (cases u)
      case None
      with write_replaces_read [OF w2(1,3) id] u have "commits w3 = commits w2 @ [(hw, sc)]" by simp
      with s' w2 hw sc write_ok [OF w2(1), of sc] u show ?thesis by (auto intro: exI [of _ now])
    next
      case (Some e)
      with write_refused [OF w2(1), of sc e] write_ok [OF w2(1), of sc] u s' w2 show ?thesis by auto
    qed
  qed
qed

end

text \<open>The reference server with a clock that stands still is such a client.\<close>

definition janitor_server_env :: "time \<Rightarrow> hardware server janitor_env" where
  "janitor_server_env now = \<lparr>je_Get = sv_read,
     je_Update = (\<lambda>_. sv_write hw_object_key hw_rv hw_set_id), je_Now = (\<lambda>s. (now, s))\<rparr>"

interpretation janitor_server: janitor_client "\<lambda>s. set (sv_history s)" sv_commits
  "janitor_server_env now" "sv_ok hw_object_key hw_rv"
  using hw_store.revision_store_axioms
  by (simp add: janitor_client_def janitor_client_axioms_def janitor_server_env_def)

section \<open>Properties\<close>

text \<open>The terraform bootstrap node (provisioned annotation, no userData) fails two conjuncts of
  the released predicate: neither a userData that appears nor a provisioned annotation that
  disappears makes it Released, whatever its labels, so one lost conjunct still protects it.\<close>

theorem bootstrap_doubly_protected:
  assumes "\<not> hasUserData hw" and "\<not> provisioned_absent hw"
  shows "Classify (hw\<lparr>hw_Spec := (hw_Spec hw)\<lparr>UserData := u\<rparr>\<rparr>) \<noteq> ClassReleased
    \<and> Classify (hw\<lparr>hw_Meta := (hw_Meta hw)\<lparr>om_Annotations :=
           mdelete ProvisionedAnnotation (om_Annotations (hw_Meta hw))\<rparr>\<rparr>) \<noteq> ClassReleased"
  using assms by (simp_all add: Classify_cases hasUserData_def provisioned_absent_def)

text \<open>A released object, and the bootstrap node, as test data for the witnesses.\<close>

definition sample_key :: object_key where
  "sample_key = \<lparr>key_namespace = ''tinkerbell'', key_name = ''node-1''\<rparr>"

definition sample_released :: hardware where
  "sample_released = \<lparr>
     hw_Meta = (new_meta ''node-1'' ''tinkerbell'')\<lparr>om_ResourceVersion := ''1''\<rparr>,
     hw_Spec = empty_hardware_spec\<lparr>AgentID := ''52:54:00:aa:00:01'',
       Metadata := Some \<lparr>ManufacturerSlug = Some ''asrock'', FacilityCodeField = None,
         Instance = Some \<lparr>InstanceID = ''52:54:00:aa:00:01'', InstanceHostname = ''node-1'',
           OperatingSystem = Some ''talos'', InstanceState = ''provisioned''\<rparr>\<rparr>,
       Interfaces := [\<lparr>Netboot = Some \<lparr>AllowPXE = Some True, AllowWorkflow = Some True, NetbootOther = []\<rparr>,
         DHCP = Some \<lparr>MAC = ''52:54:00:aa:00:01'', DHCPHostname = ''node-1'', DHCPAddress = None\<rparr>\<rparr>],
       UserData := Some ''machineconfig''\<rparr>\<rparr>"

definition sample_bootstrap :: hardware where
  "sample_bootstrap = \<lparr>
     hw_Meta = (new_meta ''boot-1'' ''tinkerbell'')\<lparr>om_Annotations := [(ProvisionedAnnotation, ''true'')]\<rparr>,
     hw_Spec = empty_hardware_spec\<rparr>"

lemma TrimSpace_sample: "TrimSpace ''machineconfig'' \<noteq> []"
  by (simp add: TrimSpace_empty_iff runes_ascii IsSpace_def)

lemma sample_released_class [simp]: "Classify sample_released = ClassReleased"
  by (simp add: Classify_cases owner_absent_def provisioned_absent_def hasUserData_def
      sample_released_def new_meta_def mhas_def TrimSpace_sample)

theorem bootstrap_doubly_protected_witness:
  "Classify sample_bootstrap = ClassBootstrapReserved
     \<and> Classify (sample_bootstrap\<lparr>hw_Spec := (hw_Spec sample_bootstrap)\<lparr>UserData := Some ''x''\<rparr>\<rparr>) \<noteq> ClassReleased"
proof -
  have h: "\<not> hasUserData sample_bootstrap" "\<not> provisioned_absent sample_bootstrap"
    by (simp_all add: hasUserData_def provisioned_absent_def sample_bootstrap_def empty_hardware_spec_def mhas_def)
  have "owner_absent sample_bootstrap"
    by (simp add: owner_absent_def sample_bootstrap_def new_meta_def mhas_def)
  with h bootstrap_doubly_protected [OF h, of "Some ''x''"] show ?thesis by (simp add: Classify_cases)
qed

lemma scrubbed_class: "Classify hw = ClassReleased \<Longrightarrow> Classify (fst (Scrub opts now hw)) = ClassNeverClaimed"
  by (simp add: Classify_cases owner_absent_def provisioned_absent_def hasUserData_def mhas_def Scrub_meta
      Scrub_spec scrub_spec_parts)

text \<open>Scrubbing a released object takes it out of the released set for good: the result is
  NeverClaimed, and a second scrub, at any later time, finds nothing to change and stamps nothing.\<close>

theorem scrub_self_extinguishing:
  assumes "Classify hw = ClassReleased"
  shows "Classify (fst (Scrub opts now hw)) = ClassNeverClaimed
    \<and> Scrub opts later (fst (Scrub opts now hw)) = (fst (Scrub opts now hw), [])"
proof
  let ?s = "fst (Scrub opts now hw)"
  show "Classify ?s = ClassNeverClaimed" using assms by (rule scrubbed_class)
  have "fst (scrub_spec opts (hw_Spec ?s)) = hw_Spec ?s"
    unfolding Scrub_spec scrub_spec_parts
    by (cases "Metadata (hw_Spec hw)")
      (auto simp: cleared_metadata_def parked_interface_def option.map_comp comp_def)
  then show "Scrub opts later ?s = (?s, [])"
    by (intro Scrub_unchanged) (simp only: scrub_spec_changed_iff)
qed

theorem scrub_self_extinguishing_witness:
  "\<exists>opts. Classify (fst (Scrub opts 0 sample_released)) = ClassNeverClaimed"
  using scrub_self_extinguishing [OF sample_released_class] by blast

text \<open>C30: The scrub changes its target fields and nothing else. The new specification is the old one with
  userData gone, with the operating system and the state of the metadata's instance cleared when
  \<open>ClearOSMetadata\<close> is set (and the metadata untouched when it is not), and with allowPXE set to the
  baseline in every netboot block there is; no block is added, and every other field keeps its value.
  Of the object's own metadata only the scrubbed-at annotation is written, with the clock's reading, and
  only when something changed. The list of changed fields is empty exactly when the object is
  unchanged, so the caller's no-op test is sound.\<close>

theorem scrub_frame:
  "case Scrub opts now hw of (s, changed) \<Rightarrow>
     hw_Spec s = (hw_Spec hw)\<lparr>UserData := None,
       Metadata := (if ClearOSMetadata opts
         then map_option (\<lambda>md. md\<lparr>Instance :=
           map_option (\<lambda>i. i\<lparr>OperatingSystem := None, InstanceState := []\<rparr>) (Instance md)\<rparr>) (Metadata (hw_Spec hw))
         else Metadata (hw_Spec hw)),
       Interfaces := map (\<lambda>f. f\<lparr>Netboot :=
         map_option (\<lambda>nb. nb\<lparr>AllowPXE := Some (BaselineAllowPXE opts)\<rparr>) (Netboot f)\<rparr>) (Interfaces (hw_Spec hw))\<rparr>
   \<and> hw_Meta s = (if changed = [] then hw_Meta hw
       else (hw_Meta hw)\<lparr>om_Annotations :=
         mput ScrubbedAtAnnotation (FormatRFC3339 now) (om_Annotations (hw_Meta hw))\<rparr>)
   \<and> (changed = [] \<longleftrightarrow> s = hw)"
proof -
  obtain s changed where sc: "Scrub opts now hw = (s, changed)" by fastforce
  then have s: "s = fst (Scrub opts now hw)" and changed: "changed = snd (Scrub opts now hw)" by simp_all
  have "hw_Spec s = (hw_Spec hw)\<lparr>UserData := None, Metadata := cleared_metadata opts (Metadata (hw_Spec hw)),
     Interfaces := map (parked_interface (BaselineAllowPXE opts)) (Interfaces (hw_Spec hw))\<rparr>"
    unfolding s Scrub_spec scrub_spec_parts ..
  moreover have "changed = [] \<longleftrightarrow> s = hw"
  proof
    assume "changed = []"
    then show "s = hw" by (simp add: s changed Scrub_unchanged Scrub_changed)
  next
    assume "s = hw"
    then have "fst (scrub_spec opts (hw_Spec hw)) = hw_Spec hw" using Scrub_spec [of opts now hw] by (simp add: s)
    then show "changed = []" by (simp add: changed Scrub_changed scrub_spec_changed_iff)
  qed
  moreover have "hw_Meta s = (if changed = [] then hw_Meta hw
       else (hw_Meta hw)\<lparr>om_Annotations := mput ScrubbedAtAnnotation (FormatRFC3339 now) (om_Annotations (hw_Meta hw))\<rparr>)"
    using sc by (auto simp: Scrub_def stamp_scrubbed_def split: prod.splits if_splits)
  ultimately show ?thesis
    unfolding sc prod.case cleared_metadata_def parked_interface_def [abs_def] by (intro conjI)
qed

text \<open>For any API server and clock, one reconcile makes at most one write, and it is an
  Update of the scrubbed form of the object just read, with that object's resourceVersion and only
  when it was Released; an Update that fails is the handler's error, and success is announced only
  for an accepted Update.\<close>

theorem janitor_writes_only_released:
  assumes "run_state (Reconcile env opts req) \<lparr>world = w, trace = []\<rparr> = (result, s')"
  shows "length (filter is_update (trace s')) \<le> 1
    \<and> (\<forall>u err. JUpdate u err \<in> set (trace s') \<longrightarrow> (\<exists>hw now. fst (je_Get env req w) = Inr hw
      \<and> Classify hw = ClassReleased \<and> u = fst (Scrub opts now hw) \<and> hw_rv u = hw_rv hw \<and> result = err))
    \<and> (JScrubbedTotalInc \<in> set (trace s') \<longrightarrow> (\<exists>u. JUpdate u None \<in> set (trace s')))"
proof -
  from Reconcile_run [OF assms]
  have tr: "reconcile_trace opts req (fst (je_Get env req w)) result (trace s')" by simp
  show ?thesis
  proof (cases "fst (je_Get env req w)")
    case (Inl e)
    with tr show ?thesis by (auto simp: reconcile_trace_def)
  next
    case (Inr hw)
    with tr show ?thesis
      by (cases "Classify hw"; cases result)
        (auto simp: reconcile_trace_def released_trace_def Scrub_meta hw_rv_def)
  qed
qed

definition sample_server :: "(object_key \<times> (hardware \<Rightarrow> hardware)) list \<Rightarrow> hardware server" where
  "sample_server pending = \<lparr>sv_objects = [(sample_key, sample_released)], sv_next = 2,
     sv_history = [sample_released], sv_commits = [], sv_pending = pending\<rparr>"

text \<open>A concurrent claim: owner labels and a new machine's userData.\<close>

definition sample_claim :: "hardware \<Rightarrow> hardware" where
  "sample_claim hw = \<lparr>hw_Meta = (hw_Meta hw)\<lparr>om_Labels := [(OwnerNameLabel, ''m''), (OwnerNamespaceLabel, ''n'')]\<rparr>,
     hw_Spec = (hw_Spec hw)\<lparr>UserData := Some ''new machine''\<rparr>\<rparr>"

definition sample_opts :: scrub_options where
  "sample_opts = \<lparr>ClearOSMetadata = True, BaselineAllowPXE = False\<rparr>"

theorem janitor_writes_only_released_witness:
  "\<exists>result s'. run_state (Reconcile (janitor_server_env 0) sample_opts sample_key) \<lparr>world = sample_server [], trace = []\<rparr> = (result, s')
     \<and> length (filter is_update (trace s')) \<le> 1"
proof -
  obtain result s' where "run_state (Reconcile (janitor_server_env 0) sample_opts sample_key)
      \<lparr>world = sample_server [], trace = []\<rparr> = (result, s')" by fastforce
  with janitor_writes_only_released [OF this] show ?thesis by blast
qed

text \<open>C8: No claimed object is ever overwritten. Against any API server that accepts a write only
  over the revision it names, with any other clients writing between the read and the update, every
  write the reconcile gets accepted replaced an object that was Released at that very moment, by its
  scrubbed form; a machine claimed in between keeps its userData.\<close>

theorem janitor_never_overwrites_claimed:
  assumes "janitor_client revs commits env ok" and "ok (world s)"
    and "run_state (Reconcile env opts req) s = (result, s')"
  shows "\<exists>cs. commits (world s') = commits (world s) @ cs \<and>
    (\<forall>(old, new) \<in> set cs. Classify old = ClassReleased \<and> (\<exists>now. new = fst (Scrub opts now old)))"
  using janitor_client.commits_only_released [OF assms] by blast

lemma sample_server_ok: "sv_ok hw_object_key hw_rv (sample_server pending)"
  by (auto simp: sv_ok_def sample_server_def sample_released_def sample_key_def hw_object_key_def
      meta_key_def new_meta_def hw_rv_def split: if_splits)

text \<open>The witness runs the race: the object is claimed between Get and Update; the update is
  refused with Conflict and nothing is committed.\<close>

theorem janitor_never_overwrites_claimed_witness:
  "\<exists>s'. run_state (Reconcile (janitor_server_env 0) sample_opts sample_key)
       \<lparr>world = sample_server [(sample_key, sample_claim)], trace = []\<rparr> = (Some Conflict, s')
     \<and> (\<exists>cs. sv_commits (world s') = cs \<and> (\<forall>(old, new) \<in> set cs. Classify old = ClassReleased))"
proof -
  let ?s = "\<lparr>world = sample_server [(sample_key, sample_claim)], trace = []\<rparr>"
  obtain result s' where run: "run_state (Reconcile (janitor_server_env 0) sample_opts sample_key) ?s = (result, s')"
    by fastforce
  obtain sc cl where sc: "Scrub sample_opts 0 sample_released = (sc, cl)" by fastforce
  then have id: "hw_object_key sc = sample_key" "hw_rv sc = ''1''"
    using Scrub_meta(2-4) [where opts = sample_opts and now = 0 and hw = sample_released]
    by (simp_all add: hw_object_key_def meta_key_def hw_rv_def sample_released_def new_meta_def sample_key_def)
  have conflict: "fst (sv_write hw_object_key hw_rv hw_set_id sc (sample_server [(sample_key, sample_claim)])) = Some Conflict"
    by (simp add: sv_write_def sample_server_def sv_store_def id hw_set_id_def hw_rv_def Let_def
        numeral_2_eq_2 id [unfolded hw_rv_def])
  have cl: "cl \<noteq> []" using sc released_scrub_changes [OF sample_released_class, of sample_opts]
    by (auto simp: Scrub_def split: prod.splits)
  have "sv_read sample_key (sample_server ps) = (Inr sample_released, sample_server ps)" for ps
    by (simp add: sv_read_def sample_server_def)
  with run conflict sc cl have "result = Some Conflict"
    by (auto simp: Reconcile_def ScrubM_run janitor_server_env_def split: prod.splits)
  moreover note janitor_never_overwrites_claimed [OF janitor_server.janitor_client_axioms _ run] sample_server_ok
  ultimately show ?thesis using run by (auto simp: sample_server_def)
qed

end
