(* ===== verification/Commands.thy ===== *)
theory Commands
  imports WorkerProperties CredentialProperties JanitorReconciler
begin

text \<open>
  The three binaries: \<open>cmd/main.go\<close> (discovery), \<open>cmd/talos-machine-teardown/main.go\<close> and
  \<open>cmd/tinkerbell-hardware-janitor/main.go\<close>, from the parsed flags to the running manager, and
  \<open>internal/logging/logging.go\<close>. A set-up step hands something to controller-runtime, which may refuse
  it: the step is an outside call with an error or none, and the trace is the list of steps made. The
  result of a main is its exit code.
\<close>

section \<open>Log levels (logging.go)\<close>

text \<open>
  \<open>slog.Level.UnmarshalText\<close>: a name in any case, with an optional signed offset. Outside ASCII only
  the dotless i and the long s have an ASCII letter as their upper case.
\<close>

definition upper_letter :: "rune \<Rightarrow> rune" where
  "upper_letter r = (if 97 \<le> r \<and> r \<le> 122 then r - 32 else if r = 0x131 then 73 else if r = 0x17F then 83 else r)"

definition is_level_name :: "string \<Rightarrow> string \<Rightarrow> bool" where
  "is_level_name name s \<longleftrightarrow> map upper_letter (runes s) = map byte name"

text \<open>\<open>strconv.Atoi\<close> of a text that starts with a sign, on 64 bits.\<close>

definition Atoi_signed :: "string \<Rightarrow> int option" where
  "Atoi_signed s = (case s of [] \<Rightarrow> None
   | c # digits \<Rightarrow> if digits = [] \<or> \<not> list_all is_digit digits then None
       else let n = int (nat_of_digits digits); v = (if c = CHR ''-'' then - n else n)
       in if - (2 ^ 63) \<le> v \<and> v < 2 ^ 63 then Some v else None)"

definition wrap64 :: "int \<Rightarrow> int" where
  "wrap64 x = (x + 2 ^ 63) mod 2 ^ 64 - 2 ^ 63"

definition level_base :: "string \<Rightarrow> int option" where
  "level_base name =
     (if is_level_name ''DEBUG'' name then Some (-4)
      else if is_level_name ''INFO'' name then Some 0
      else if is_level_name ''WARN'' name then Some 4
      else if is_level_name ''ERROR'' name then Some 8 else None)"

definition parse_level :: "string \<Rightarrow> int option" where
  "parse_level s =
     (let name = takeWhile (\<lambda>c. c \<noteq> CHR ''+'' \<and> c \<noteq> CHR ''-'') s; rest = drop (length name) s
      in if rest = [] then level_base name
      else (case Atoi_signed rest of None \<Rightarrow> None
        | Some offset \<Rightarrow> map_option (\<lambda>l. wrap64 (l + offset)) (level_base name)))"

datatype log_format = JSONHandler | TextHandler

definition New :: "string \<Rightarrow> string \<Rightarrow> go_error + int \<times> log_format" where
  "New level format = (case parse_level level of
     None \<Rightarrow> Inl (OtherError (''unknown log level '' @ level))
   | Some lvl \<Rightarrow>
       if format = ''json'' then Inr (lvl, JSONHandler)
       else if format = ''text'' then Inr (lvl, TextHandler)
       else Inl (OtherError (''unknown log format '' @ format @ '': want json or text'')))"

section \<open>Set-up steps\<close>

record manager_options =
  MetricsAddr :: string
  ProbeAddr :: string
  LeaderElection :: bool
  LeaderElectionID :: string
  LeaderElectionNamespace :: string
  CacheNamespaces :: "string list"
  SyncPeriod :: "duration option"
  HardwareSelector :: "string option"
  UncachedKinds :: "string list"

record browser_config =
  ServiceTypes :: "string list"
  Domain :: string
  BrowseInterval :: duration
  BrowseWindow :: duration
  BrowseInterfaces :: "string list"

datatype startup_step =
    AddToScheme string
  | ParseSelector string
  | NewManager manager_options
  | AddWorker worker browser_config duration duration
  | SetupTeardown teardown_config int
  | SetupJanitor scrub_options
  | AddCredentialGC string
  | AddHealthzCheck
  | AddReadyzCheck
  | StartManager

record 'w startup_env =
  su_step :: "startup_step \<Rightarrow> 'w \<Rightarrow> go_error option \<times> 'w"
  su_Getenv :: "string \<Rightarrow> string"

datatype startup_call = StartupCall startup_step "go_error option"

fun run_steps :: "'w startup_env \<Rightarrow> startup_step list \<Rightarrow> ('w, startup_call, go_error option) prog" where
  "run_steps env [] = State_Monad.return None"
| "run_steps env (x # xs) = do {
     e \<leftarrow> extcall (StartupCall x) (su_step env x);
     case e of Some err \<Rightarrow> State_Monad.return (Some err) | None \<Rightarrow> run_steps env xs
   }"

definition exit_code :: "'w startup_env \<Rightarrow> startup_step list \<Rightarrow> ('w, startup_call, int) prog" where
  "exit_code env steps = do {
     e \<leftarrow> run_steps env steps;
     State_Monad.return (case e of Some err \<Rightarrow> 1 | None \<Rightarrow> 0)
   }"

section \<open>The discovery controller (cmd/main.go)\<close>

fun split_non_empty :: "string list \<Rightarrow> string list" where
  "split_non_empty [] = []"
| "split_non_empty (part # parts) =
     (let part = TrimSpace part in if part \<noteq> [] then part # split_non_empty parts else split_non_empty parts)"

definition splitNonEmpty :: "string \<Rightarrow> string list" where
  "splitNonEmpty s = split_non_empty (Split (CHR '','') s)"

record discovery_flags =
  df_namespace :: string
  df_serviceTypes :: string
  df_mdnsDomain :: string
  df_mdnsInterfaces :: string
  df_browseInterval :: duration
  df_browseWindow :: duration
  df_resyncInterval :: duration
  df_collectTimeout :: duration
  df_credentialsSecret :: string
  df_defaultCreds :: string
  df_nameTemplate :: string
  df_facilityCode :: string
  df_autoEnrollment :: bool
  df_redfishPort :: int
  df_insecureTLS :: bool
  df_leaderElect :: bool
  df_metricsAddr :: string
  df_probeAddr :: string
  df_logLevel :: string
  df_logFormat :: string

definition discovery_defaults :: discovery_flags where
  "discovery_defaults = \<lparr>df_namespace = ''tink'', df_serviceTypes = ''_redfish._tcp,_obmc_redfish._tcp'',
     df_mdnsDomain = ''local.'', df_mdnsInterfaces = [], df_browseInterval = 5 * Minute, df_browseWindow = 30 * Second,
     df_resyncInterval = Hour, df_collectTimeout = 2 * Minute, df_credentialsSecret = ''bmc-discovery-credentials'',
     df_defaultCreds = ''*=admin:admin,_obmc_console._tcp=root:0penBmc,_obmc_redfish._tcp=root:0penBmc'',
     df_nameTemplate = [], df_facilityCode = ''onprem'', df_autoEnrollment = False, df_redfishPort = 0,
     df_insecureTLS = True, df_leaderElect = False, df_metricsAddr = '':8080'', df_probeAddr = '':8081'',
     df_logLevel = ''info'', df_logFormat = ''json''\<rparr>"

definition discovery_worker :: "discovery_flags \<Rightarrow> (string \<Rightarrow> credentials option) \<Rightarrow> worker" where
  "discovery_worker f defaults = \<lparr>
     CredentialsSecret = \<lparr>key_namespace = df_namespace f, key_name = df_credentialsSecret f\<rparr>,
     DefaultCredentials = defaults, RedfishPort = df_redfishPort f,
     WorkerSyncer = \<lparr>Namespace = df_namespace f, InsecureTLS = df_insecureTLS f, NameTemplate = df_nameTemplate f,
       FacilityCode = df_facilityCode f, AutoEnrollment = df_autoEnrollment f\<rparr>\<rparr>"

definition discovery_browser :: "discovery_flags \<Rightarrow> browser_config" where
  "discovery_browser f = \<lparr>ServiceTypes = Split (CHR '','') (df_serviceTypes f), Domain = df_mdnsDomain f,
     BrowseInterval = df_browseInterval f, BrowseWindow = df_browseWindow f,
     BrowseInterfaces = splitNonEmpty (df_mdnsInterfaces f)\<rparr>"

definition discovery_steps :: "discovery_flags \<Rightarrow> (string \<Rightarrow> credentials option) \<Rightarrow> startup_step list" where
  "discovery_steps f defaults = [AddToScheme ''clientgo'', AddToScheme ''bmc'', AddToScheme ''tinkerbell'',
     NewManager \<lparr>MetricsAddr = df_metricsAddr f, ProbeAddr = df_probeAddr f, LeaderElection = df_leaderElect f,
       LeaderElectionID = ''tinkerbell-bmc-discovery-controller.discovery.tinkerbell.org'',
       LeaderElectionNamespace = df_namespace f, CacheNamespaces = [df_namespace f], SyncPeriod = None,
       HardwareSelector = None, UncachedKinds = []\<rparr>,
     AddWorker (discovery_worker f defaults) (discovery_browser f) (df_resyncInterval f) (df_collectTimeout f),
     AddHealthzCheck, AddReadyzCheck, StartManager]"

definition discovery_main :: "'w startup_env \<Rightarrow> discovery_flags \<Rightarrow> ('w, startup_call, int) prog" where
  "discovery_main env f = (case New (df_logLevel f) (df_logFormat f) of
     Inl err \<Rightarrow> State_Monad.return 1
   | Inr root \<Rightarrow> (case ParseDefaults (df_defaultCreds f) of
       Inl err \<Rightarrow> State_Monad.return 1
     | Inr defaults \<Rightarrow> exit_code env (discovery_steps f defaults)))"

section \<open>The teardown controller (cmd/talos-machine-teardown/main.go)\<close>

record teardown_flags =
  tf_watchNamespace :: string
  tf_cacheNamespace :: string
  tf_etcdTimeout :: duration
  tf_resetTimeout :: duration
  tf_etcdCallTimeout :: duration
  tf_resetCallTimeout :: duration
  tf_concurrency :: int
  tf_leaderElect :: bool
  tf_metricsAddr :: string
  tf_probeAddr :: string
  tf_logLevel :: string
  tf_logFormat :: string

definition teardown_defaults :: teardown_flags where
  "teardown_defaults = \<lparr>tf_watchNamespace = [], tf_cacheNamespace = [], tf_etcdTimeout = 2 * Minute,
     tf_resetTimeout = 5 * Minute, tf_etcdCallTimeout = 10 * Second, tf_resetCallTimeout = 30 * Second,
     tf_concurrency = 4, tf_leaderElect = True, tf_metricsAddr = '':8080'', tf_probeAddr = '':8081'',
     tf_logLevel = ''info'', tf_logFormat = ''json''\<rparr>"

definition teardown_manager_steps :: "teardown_flags \<Rightarrow> startup_step list" where
  "teardown_manager_steps f = [AddToScheme ''clientgo'', AddToScheme ''cluster'', AddToScheme ''tinkerbell'',
     NewManager \<lparr>MetricsAddr = tf_metricsAddr f, ProbeAddr = tf_probeAddr f, LeaderElection = tf_leaderElect f,
       LeaderElectionID = ''talos-machine-teardown.teardown.tinkerbell.org'',
       LeaderElectionNamespace = tf_cacheNamespace f,
       CacheNamespaces = (if tf_watchNamespace f \<noteq> [] then [tf_watchNamespace f] else []), SyncPeriod = None,
       HardwareSelector = None, UncachedKinds = [''Secret'', ''Hardware'']\<rparr>]"

definition teardown_config_of :: "teardown_flags \<Rightarrow> teardown_config" where
  "teardown_config_of f = \<lparr>EtcdTimeout = tf_etcdTimeout f, ResetTimeout = tf_resetTimeout f,
     EtcdCallTimeout = tf_etcdCallTimeout f, ResetCallTimeout = tf_resetCallTimeout f, CacheNamespace = tf_cacheNamespace f\<rparr>"

definition teardown_run :: "'w startup_env \<Rightarrow> teardown_flags \<Rightarrow> ('w, startup_call, int) prog" where
  "teardown_run env f = (if tf_cacheNamespace f = [] then State_Monad.return 1
     else exit_code env (teardown_manager_steps f @ [SetupTeardown (teardown_config_of f) (tf_concurrency f),
       AddCredentialGC (tf_cacheNamespace f), AddHealthzCheck, AddReadyzCheck, StartManager]))"

definition teardown_main :: "'w startup_env \<Rightarrow> teardown_flags \<Rightarrow> ('w, startup_call, int) prog" where
  "teardown_main env f =
     (let f = (if tf_cacheNamespace f = [] then f\<lparr>tf_cacheNamespace := su_Getenv env ''POD_NAMESPACE''\<rparr> else f)
      in case New (tf_logLevel f) (tf_logFormat f) of
        Inl err \<Rightarrow> State_Monad.return 1
      | Inr root \<Rightarrow> teardown_run env f)"

text \<open>The credential garbage collector: once at start and once per tick until the context is done; the
  list holds what the select sees after each pass.\<close>

fun credentialGC :: "'w tenv \<Rightarrow> string \<Rightarrow> unit list \<Rightarrow> ('w, unit) tprog" where
  "credentialGC env ns [] = do {
     err \<leftarrow> GC env ns;
     State_Monad.return ()
   }"
| "credentialGC env ns (tick # ticks) = do {
     err \<leftarrow> GC env ns;
     credentialGC env ns ticks
   }"

section \<open>The janitor (cmd/tinkerbell-hardware-janitor/main.go)\<close>

record janitor_flags =
  jf_namespace :: string
  jf_clearOSMetadata :: bool
  jf_baselineAllow :: bool
  jf_resyncPeriod :: duration
  jf_leaderElect :: bool
  jf_metricsAddr :: string
  jf_probeAddr :: string
  jf_logLevel :: string
  jf_logFormat :: string

definition janitor_defaults :: janitor_flags where
  "janitor_defaults = \<lparr>jf_namespace = ''tinkerbell'', jf_clearOSMetadata = True, jf_baselineAllow = False,
     jf_resyncPeriod = Hour, jf_leaderElect = True, jf_metricsAddr = '':8080'', jf_probeAddr = '':8081'',
     jf_logLevel = ''info'', jf_logFormat = ''json''\<rparr>"

definition hardware_selector :: string where
  "hardware_selector = ''!'' @ OwnerNameLabel"

definition janitor_steps :: "janitor_flags \<Rightarrow> startup_step list" where
  "janitor_steps f = [AddToScheme ''clientgo'', AddToScheme ''tinkerbell'', ParseSelector hardware_selector,
     NewManager \<lparr>MetricsAddr = jf_metricsAddr f, ProbeAddr = jf_probeAddr f, LeaderElection = jf_leaderElect f,
       LeaderElectionID = ''tinkerbell-hardware-janitor.janitor.tinkerbell.org'',
       LeaderElectionNamespace = jf_namespace f, CacheNamespaces = [jf_namespace f],
       SyncPeriod = Some (jf_resyncPeriod f), HardwareSelector = Some hardware_selector, UncachedKinds = []\<rparr>,
     SetupJanitor \<lparr>ClearOSMetadata = jf_clearOSMetadata f, BaselineAllowPXE = jf_baselineAllow f\<rparr>,
     AddHealthzCheck, AddReadyzCheck, StartManager]"

definition janitor_main :: "'w startup_env \<Rightarrow> janitor_flags \<Rightarrow> ('w, startup_call, int) prog" where
  "janitor_main env f = (case New (jf_logLevel f) (jf_logFormat f) of
     Inl err \<Rightarrow> State_Monad.return 1
   | Inr root \<Rightarrow> exit_code env (janitor_steps f))"

section \<open>Contracts\<close>

definition all_accepted :: "startup_call list \<Rightarrow> bool" where
  "all_accepted xs \<longleftrightarrow> (\<forall>c \<in> set xs. \<exists>x. c = StartupCall x None)"

definition accepted :: "startup_step list \<Rightarrow> startup_call list" where
  "accepted steps = map (\<lambda>x. StartupCall x None) steps"

lemma accepted_all: "all_accepted (accepted steps)"
  by (auto simp: all_accepted_def accepted_def)

lemma accepted_simps: "accepted [] = []" "accepted (x # xs) = StartupCall x None # accepted xs"
  by (simp_all add: accepted_def)

text \<open>The steps are made in order, up to the first that is refused.\<close>

definition ran :: "startup_step list \<Rightarrow> go_error option \<Rightarrow> startup_call list \<Rightarrow> bool" where
  "ran steps r xs \<longleftrightarrow> (r = None \<and> xs = accepted steps)
     \<or> (\<exists>pre x post err. steps = pre @ x # post \<and> xs = accepted pre @ [StartupCall x (Some err)] \<and> r = Some err)"

lemma ran_Cons: "ran steps r xs \<Longrightarrow> ran (x # steps) r (StartupCall x None # xs)"
  unfolding ran_def
proof (elim disjE exE conjE)
  fix pre y post err
  assume "steps = pre @ y # post" "xs = accepted pre @ [StartupCall y (Some err)]" "r = Some err"
  then show "(r = None \<and> StartupCall x None # xs = accepted (x # steps))
      \<or> (\<exists>pre y post err. x # steps = pre @ y # post
          \<and> StartupCall x None # xs = accepted pre @ [StartupCall y (Some err)] \<and> r = Some err)"
    by (intro disjI2 exI [of _ "x # pre"] exI [of _ y] exI [of _ post] exI [of _ err]) (simp add: accepted_simps)
qed (simp add: accepted_simps)

lemma snoc_unique: "us @ x # vs = as @ [y] \<Longrightarrow> x \<notin> set as \<Longrightarrow> us = as \<and> vs = [] \<and> x = y"
  by (cases vs rule: rev_cases) auto

lemma run_steps_ran: "yields (run_steps env steps) (ran steps)"
proof (induction steps)
  case Nil
  show ?case by (simp, rule yields_return) (simp add: ran_def accepted_simps)
next
  case (Cons x steps)
  have "ran (x # steps) (Some err) [StartupCall x (Some err)]" for err
    unfolding ran_def by (rule disjI2, rule exI [of _ "[]"]) (simp add: accepted_simps)
  then show ?case
    unfolding run_steps.simps
    by (intro yields_bind_extcall yields_case_option yields_return yields_weaken [OF Cons.IH]) (simp_all add: ran_Cons)
qed

definition exits :: "startup_step list \<Rightarrow> int \<Rightarrow> startup_call list \<Rightarrow> bool" where
  "exits steps code xs \<longleftrightarrow> (\<exists>r. ran steps r xs \<and> code = (if r = None then 0 else 1))"

lemma exit_code_exits: "yields (exit_code env steps) (exits steps)"
  unfolding exit_code_def
  by (rule yields_bind [OF run_steps_ran], rule yields_return) (auto simp: exits_def split: option.splits)

text \<open>Where starting the manager is the last step, it runs after all others were accepted.\<close>

lemma exits_start:
  assumes "exits (steps @ [StartManager]) code xs" and "StartManager \<notin> set steps"
    and "xs = us @ StartupCall StartManager e # vs"
  shows "us = accepted steps \<and> vs = [] \<and> code = (if e = None then 0 else 1)"
proof -
  from assms(1) obtain r where r: "ran (steps @ [StartManager]) r xs" "code = (if r = None then 0 else 1)"
    by (auto simp: exits_def)
  have no: "StartupCall StartManager a \<notin> set (accepted p)" if "set p \<subseteq> set steps" for p a
    using that assms(2) by (auto simp: accepted_def)
  consider "r = None" "xs = accepted steps @ [StartupCall StartManager None]"
    | pre x post err where "steps @ [StartManager] = pre @ x # post" "xs = accepted pre @ [StartupCall x (Some err)]" "r = Some err"
    using r(1) by (auto simp: ran_def accepted_def)
  then show ?thesis
  proof cases
    case 1
    then have "us @ StartupCall StartManager e # vs = accepted steps @ [StartupCall StartManager None]" using assms(3) by simp
    from snoc_unique [OF this no [OF subset_refl]] show ?thesis using 1(1) r(2) by simp
  next
    case 2
    have pre: "set pre \<subseteq> set steps" using 2(1) by (cases post rule: rev_cases) auto
    have "us @ StartupCall StartManager e # vs = accepted pre @ [StartupCall x (Some err)]" using assms(3) 2(2) by simp
    from snoc_unique [OF this no [OF pre]] have *: "us = accepted pre" "vs = []" "x = StartManager" "e = Some err" by simp_all
    with 2(1) assms(2) have "pre = steps" by (cases post rule: rev_cases) auto
    with * 2(3) r(2) show ?thesis by simp
  qed
qed

section \<open>Properties\<close>

lemma discovery_exits: "yields (discovery_main env f) (\<lambda>code xs. xs = [] \<and> code = 1 \<or>
    (\<exists>d. ParseDefaults (df_defaultCreds f) = Inr d \<and> exits (discovery_steps f d) code xs))"
  unfolding discovery_main_def
  by (intro yields_case_sum yields_return yields_weaken [OF exit_code_exits]) auto

lemma janitor_exits: "yields (janitor_main env f) (\<lambda>code xs. xs = [] \<and> code = 1 \<or> exits (janitor_steps f) code xs)"
  unfolding janitor_main_def
  by (intro yields_case_sum yields_return yields_weaken [OF exit_code_exits]) auto

definition teardown_steps :: "teardown_flags \<Rightarrow> startup_step list" where
  "teardown_steps f = teardown_manager_steps f @ [SetupTeardown (teardown_config_of f) (tf_concurrency f),
       AddCredentialGC (tf_cacheNamespace f), AddHealthzCheck, AddReadyzCheck, StartManager]"

lemma teardown_exits: "yields (teardown_main env f) (\<lambda>code xs. xs = [] \<and> code = 1 \<or>
    (\<exists>g. tf_cacheNamespace g \<noteq> [] \<and> exits (teardown_steps g) code xs))"
  unfolding teardown_main_def teardown_run_def Let_def teardown_steps_def [symmetric]
  by (intro yields_case_sum yields_if yields_return yields_weaken [OF exit_code_exits]) auto

definition binary :: "'w startup_env \<Rightarrow> ('w, startup_call, int) prog \<Rightarrow> bool" where
  "binary env m \<longleftrightarrow> (\<exists>f. m = discovery_main env f) \<or> (\<exists>f. m = teardown_main env f) \<or> (\<exists>f. m = janitor_main env f)"

text \<open>What has been set up of one of the three controllers.\<close>

definition controller_added :: "startup_call list \<Rightarrow> bool" where
  "controller_added us \<longleftrightarrow> (\<exists>wk b r c. StartupCall (AddWorker wk b r c) None \<in> set us)
     \<or> (\<exists>cfg n. CacheNamespace cfg \<noteq> [] \<and> StartupCall (SetupTeardown cfg n) None \<in> set us
          \<and> StartupCall (AddCredentialGC (CacheNamespace cfg)) None \<in> set us)
     \<or> (\<exists>opts. StartupCall (SetupJanitor opts) None \<in> set us \<and> StartupCall (ParseSelector hardware_selector) None \<in> set us)"

definition wired :: "startup_call list \<Rightarrow> bool" where
  "wired us \<longleftrightarrow> all_accepted us \<and> controller_added us \<and> StartupCall AddHealthzCheck None \<in> set us
     \<and> StartupCall AddReadyzCheck None \<in> set us"

lemma wired_steps:
  "wired (accepted (butlast (discovery_steps f d)))" "wired (accepted (butlast (janitor_steps jf)))"
  "tf_cacheNamespace g \<noteq> [] \<Longrightarrow> wired (accepted (butlast (teardown_steps g)))"
  unfolding wired_def
  by (intro conjI accepted_all;
      force simp: accepted_def controller_added_def discovery_steps_def janitor_steps_def teardown_steps_def
        teardown_manager_steps_def teardown_config_of_def)+

text \<open>C38: In all three binaries the manager is started last and at most once, and only after every set-up
  step before it was accepted: the controller is registered (the teardown with a credential cache
  namespace that is not empty and with its garbage collector, the janitor with the selector of unowned
  hardware) and both health checks are in place; the exit code is zero exactly when the manager ended
  without an error.\<close>

theorem manager_starts_only_when_wired:
  assumes "binary env m" and "run_state m \<lparr>world = w, trace = []\<rparr> = (code, s')"
    and "trace s' = us @ StartupCall StartManager e # vs"
  shows "wired us \<and> vs = [] \<and> code = (if e = None then 0 else 1)"
proof -
  have x: "\<exists>steps. exits (steps @ [StartManager]) code (trace s') \<and> StartManager \<notin> set steps \<and> wired (accepted steps)"
    using assms(1) unfolding binary_def
  proof (elim disjE exE)
    fix f assume m: "m = discovery_main env f"
    from yields_run_empty [OF discovery_exits assms(2) [unfolded m]] assms(3) obtain d where
      "exits (discovery_steps f d) code (trace s')" by auto
    then show ?thesis
      by (intro exI [of _ "butlast (discovery_steps f d)"]) (use wired_steps(1) in \<open>auto simp: discovery_steps_def\<close>)
  next
    fix f assume m: "m = teardown_main env f"
    from yields_run_empty [OF teardown_exits assms(2) [unfolded m]] assms(3) obtain g where
      "tf_cacheNamespace g \<noteq> []" "exits (teardown_steps g) code (trace s')" by auto
    then show ?thesis
      by (intro exI [of _ "butlast (teardown_steps g)"])
        (use wired_steps(3) in \<open>auto simp: teardown_steps_def teardown_manager_steps_def\<close>)
  next
    fix f assume m: "m = janitor_main env f"
    from yields_run_empty [OF janitor_exits assms(2) [unfolded m]] assms(3) have
      "exits (janitor_steps f) code (trace s')" by auto
    then show ?thesis
      by (intro exI [of _ "butlast (janitor_steps f)"]) (use wired_steps(2) in \<open>auto simp: janitor_steps_def\<close>)
  qed
  then obtain steps where "exits (steps @ [StartManager]) code (trace s')" "StartManager \<notin> set steps" "wired (accepted steps)"
    by blast
  with exits_start [OF this(1,2) assms(3)] show ?thesis by simp
qed

text \<open>The documented defaults start the discovery controller.\<close>

lemma ascii_level: "ascii s \<Longrightarrow> is_level_name name s \<longleftrightarrow> map (upper_letter \<circ> byte) s = map byte name"
  by (simp add: is_level_name_def runes_ascii)

lemma default_logger: "New ''info'' ''json'' = Inr (0, JSONHandler)"
  by (simp add: New_def parse_level_def level_base_def ascii_level upper_letter_def)

text \<open>
  The documented level names are accepted in either format. So is more than the documentation names:
  any case, and an offset.
\<close>

lemma documented_levels:
  assumes "level \<in> {''debug'', ''info'', ''warn'', ''error''}" and "format \<in> {''json'', ''text''}"
  shows "\<exists>l h. New level format = Inr (l, h) \<and> l \<in> {-4, 0, 4, 8}"
  using assms by (auto simp: New_def parse_level_def level_base_def ascii_level upper_letter_def)

lemma undocumented_level: "New ''Info+3'' ''text'' = Inr (3, TextHandler)"
  by (simp add: New_def parse_level_def level_base_def ascii_level upper_letter_def Atoi_signed_def
      is_digit_def nat_of_digits_def wrap64_def)

lemma default_credentials: "\<exists>d. ParseDefaults (df_defaultCreds discovery_defaults) = Inr d
    \<and> d ''_obmc_redfish._tcp'' = Some \<lparr>Username = ''root'', Password = ''0penBmc''\<rparr>
    \<and> d WildcardService = Some \<lparr>Username = ''admin'', Password = ''admin''\<rparr>"
  by (simp add: discovery_defaults_def ParseDefaults_def WildcardService_def)

definition willing_env :: "unit startup_env" where
  "willing_env = \<lparr>su_step = (\<lambda>_ w. (None, w)), su_Getenv = (\<lambda>_. [])\<rparr>"

theorem manager_starts_only_when_wired_witness:
  "\<exists>us s'. run_state (discovery_main willing_env discovery_defaults) \<lparr>world = (), trace = []\<rparr> = (0, s')
     \<and> trace s' = us @ [StartupCall StartManager None] \<and> wired us"
proof -
  obtain d where d: "ParseDefaults (df_defaultCreds discovery_defaults) = Inr d" using default_credentials by blast
  have w: "su_step willing_env x = (\<lambda>w. (None, w))" for x by (simp add: willing_env_def)
  have all: "run_state (run_steps willing_env steps) \<lparr>world = (), trace = xs\<rparr> = (None, \<lparr>world = (), trace = xs @ accepted steps\<rparr>)"
    for steps xs by (induction steps arbitrary: xs) (simp_all add: w accepted_simps)
  have l: "New (df_logLevel discovery_defaults) (df_logFormat discovery_defaults) = Inr (0, JSONHandler)"
    by (simp add: discovery_defaults_def default_logger)
  have run: "run_state (discovery_main willing_env discovery_defaults) \<lparr>world = (), trace = []\<rparr>
      = (0, \<lparr>world = (), trace = accepted (discovery_steps discovery_defaults d)\<rparr>)"
    by (simp add: discovery_main_def d l exit_code_def all)
  have b: "binary willing_env (discovery_main willing_env discovery_defaults)" by (auto simp: binary_def)
  have t: "accepted (discovery_steps discovery_defaults d)
      = accepted (butlast (discovery_steps discovery_defaults d)) @ StartupCall StartManager None # []"
    by (simp add: discovery_steps_def accepted_simps)
  from manager_starts_only_when_wired [OF b run, of "accepted (butlast (discovery_steps discovery_defaults d))" None "[]"] t
  have "wired (accepted (butlast (discovery_steps discovery_defaults d)))" by simp
  with run t show ?thesis by (intro exI conjI) auto
qed

text \<open>
  The janitor's cache holds the objects without the owner-name label. Every object the janitor may
  scrub or must report is among them, so the filter hides no work; claimed objects whose owner label
  is set are not even in memory, and their Get answers NotFound.
\<close>

definition selected_by_cache :: "hardware \<Rightarrow> bool" where
  "selected_by_cache hw \<longleftrightarrow> \<not> mhas (om_Labels (hw_Meta hw)) OwnerNameLabel"

lemma cache_hides_no_work: "Classify hw \<noteq> ClassClaimed \<Longrightarrow> selected_by_cache hw"
  by (auto simp: Classify_def selected_by_cache_def Let_def split: if_splits)

text \<open>\<open>splitNonEmpty\<close> drops what is blank, unlike the plain split used for the service types.\<close>

lemma splitNonEmpty_spec: "splitNonEmpty s = filter (\<lambda>p. p \<noteq> []) (map TrimSpace (Split (CHR '','') s))"
proof -
  have "split_non_empty ps = filter (\<lambda>p. p \<noteq> []) (map TrimSpace ps)" for ps
    by (induction ps) (auto simp: Let_def)
  then show ?thesis by (simp add: splitNonEmpty_def)
qed

lemma empty_service_types:
  "ServiceTypes (discovery_browser (discovery_defaults\<lparr>df_serviceTypes := []\<rparr>)) = [[]]"
  "BrowseInterfaces (discovery_browser discovery_defaults) = []"
  by (simp_all add: discovery_browser_def discovery_defaults_def splitNonEmpty_spec TrimSpace_def)

fun lists_secrets :: "string \<Rightarrow> tcall \<Rightarrow> bool" where
  "lists_secrets ns (TListSecrets n ls r) = (n = ns \<and> ls = [ClusterNameLabel])"
| "lists_secrets ns _ = False"

lemma gc_loop_lists_nothing: "calls_only (\<lambda>x. \<not> lists_secrets ns x) (gc_loop env secrets)"
proof (induction secrets)
  case Nil
  show ?case by (simp add: calls_only_return)
next
  case (Cons secret rest)
  show ?case
    unfolding gc_loop.simps Let_def clusterGone_def by (intro calls_only_intros Cons.IH) simp_all
qed

lemma GC_lists_once: "yields (GC env ns) (\<lambda>_ xs. length (filter (lists_secrets ns) xs) = 1)"
  unfolding GC_def
proof (intro yields_bind_extcall yields_case_sum yields_return)
  fix w secrets
  let ?l = "fst (te_ListSecrets env ns [ClusterNameLabel] w)"
  show "yields (gc_loop env secrets) (\<lambda>_ ys. length (filter (lists_secrets ns) (TListSecrets ns [ClusterNameLabel] ?l # ys)) = 1)"
    by (rule yields_weaken [OF gc_loop_lists_nothing [where ns = ns]]) (auto simp: filter_empty_conv)
qed simp

text \<open>The credential garbage collector keeps running: it makes one pass at start and one per tick,
  whatever errors the passes before ran into.\<close>

theorem credentialGC_keeps_running:
  "length (filter (lists_secrets ns) (trace (snd (run_state (credentialGC env ns ticks) \<lparr>world = w, trace = []\<rparr>))))
     = Suc (length ticks)"
proof -
  have "yields (credentialGC env ns ticks) (\<lambda>_ xs. length (filter (lists_secrets ns) xs) = Suc (length ticks))"
  proof (induction ticks)
    case Nil
    show ?case by (simp, rule yields_bind [OF GC_lists_once], rule yields_return) simp
  next
    case (Cons t ticks)
    show ?case
      by (simp, rule yields_bind [OF GC_lists_once], rule yields_weaken [OF Cons.IH]) simp
  qed
  then show ?thesis by (rule yields_run_empty) (rule surjective_pairing)
qed

end
