(* ===== verification/DiscoveryPipeline.thy ===== *)
theory DiscoveryPipeline
  imports Commands "HOL-Library.Sublist"
begin

text \<open>
  Discovery end to end: the browser's loop of \<open>internal/mdns/browser.go\<close>, whose endpoints the worker
  observes, and whose entries therefore decide what is written to the API server.
\<close>

section \<open>The browser's loop\<close>

text \<open>The forwarders of a cycle run at the same time and send on one channel: their endpoints arrive in
  some interleaving.\<close>

fun merges :: "'a list list \<Rightarrow> 'a list set" where
  "merges [] = {[]}"
| "merges (xs # xss) = (\<Union>ys \<in> merges xss. shuffles xs ys)"

lemma merges_set: "zs \<in> merges xss \<Longrightarrow> set zs = (\<Union>xs \<in> set xss. set xs)"
  by (induction xss arbitrary: zs) (auto dest: set_shuffles)

text \<open>\<open>Run\<close>: cycle after cycle, each with the interfaces that exist by then and with what each session
  of \<open>browseOnce\<close> receives, until the context ends. An interface is known by its index.\<close>

inductive browser_run :: "browser_config \<Rightarrow> endpoint list \<Rightarrow> bool" for b :: browser_config where
  browser_start: "browser_run b []"
| browser_cycle: "browser_run b out \<Longrightarrow>
    sessions = browseOnce (byName :: string \<Rightarrow> nat option) (BrowseInterfaces b) (Domain b) (ServiceTypes b) \<Longrightarrow>
    length arrivals = length sessions \<Longrightarrow> emitted \<in> merges (map forward arrivals) \<Longrightarrow>
    browser_run b (out @ emitted)"

text \<open>\<open>Start\<close>: the browser runs in a goroutine and sends on a channel, from which the worker's loop
  receives in the order sent; some of what was sent may still be in the channel.\<close>

definition discovery_run ::
    "browser_config \<Rightarrow> 'w sync_env \<Rightarrow> worker \<Rightarrow> worker_event list \<Rightarrow> 'w worker_state \<Rightarrow> bool" where
  "discovery_run b env wk es st \<longleftrightarrow>
     worker_run env wk es st \<and> (\<exists>out. browser_run b out \<and> prefix (observations es) out)"

lemma forward_entries: "ep \<in> set (forward evs) \<Longrightarrow> \<exists>entry. EntryToEndpoint entry = Some ep"
  by (induction evs rule: forward.induct) (auto split: option.splits if_splits)

lemma browser_run_entries: "browser_run b out \<Longrightarrow> ep \<in> set out \<Longrightarrow> \<exists>entry. EntryToEndpoint entry = Some ep"
  by (induction rule: browser_run.induct) (auto dest!: merges_set intro: forward_entries)

section \<open>What a run writes\<close>

lemma ResourceName_port: "ResourceName (ep\<lparr>EpPort := p\<rparr>) = ResourceName ep"
  by (auto simp: ResourceName_def Let_def split: prod.splits)

lemma resource_name_label:
  assumes "EntryToEndpoint entry = Some ep"
  shows "dns_label (resource_name s (effective_endpoint wk ep) d)"
proof -
  have "TemplateName t e d = [] \<or> dns_label (TemplateName t e d)" for t e
    using SanitizeName_label by (auto simp: TemplateName_def split: prod.splits)
  moreover have "dns_label (ResourceName (effective_endpoint wk ep))"
    using ResourceName_label [OF assms] by (simp add: effective_endpoint_def ResourceName_port)
  ultimately show ?thesis by (auto simp: resource_name_def Let_def)
qed

text \<open>C16: Discovery from the wire to the API server. Whatever the browser hears in any number of cycles,
  in whatever order the sessions' endpoints arrive, and whatever the worker does with them: every object
  it creates or applies is in the configured namespace under a name that is a valid DNS label (the auth
  secret under that name with its suffix); it belongs to an observed endpoint, made of an entry with an
  IPv4 address; a machine's connection is to that address, with the secret's key as its credentials, and
  a hardware refers to the machine of its own name.\<close>

theorem discovery_writes_well_named_objects:
  assumes "discovery_run b env wk es st"
    and "DCreate obj e \<in> set (ws_calls st) \<or> DApply obj e \<in> set (ws_calls st)"
  shows "\<exists>entry ep name. Observed ep \<in> set es \<and> EntryToEndpoint entry = Some ep \<and> Is4 (EpIP ep) \<and> dns_label name
    \<and> key_of obj = \<lparr>key_namespace = Namespace (WorkerSyncer wk),
        key_name = (if kind_of obj = SecretKind then name @ ''-bmc-auth'' else name)\<rparr>
    \<and> (\<forall>m. obj = MachineObject m \<longrightarrow> ConnHost (bm_Spec m) = AddrString (EpIP ep)
        \<and> AuthSecretRef (bm_Spec m) = \<lparr>key_namespace = Namespace (WorkerSyncer wk), key_name = name @ ''-bmc-auth''\<rparr>)
    \<and> (\<forall>h. obj = HardwareObject h \<longrightarrow> map_option RefName (BMCRef (hw_Spec h)) = Some name)"
proof -
  let ?s = "WorkerSyncer wk"
  from assms(1) obtain out where run: "worker_run env wk es st" "browser_run b out" "set (observations es) \<subseteq> set out"
    unfolding discovery_run_def using set_mono_prefix by blast
  from assms(2) obtain c where c: "c \<in> set (ws_calls st)" "c = DCreate obj e \<or> c = DApply obj e" by blast
  then obtain before after where "ws_calls st = before @ c # after" "is_write c"
    by (auto dest!: split_list simp: is_write_def)
  from run_writes [OF run(1) this] obtain es1 key es2 ep0 d creds where
    ep0: "es = es1 @ Processed key # es2" "last_observed es1 key = Some ep0"
      and w: "writes_bmc ?s (effective_endpoint wk ep0) d creds c" unfolding verified_write_def by blast
  then have obs: "Observed ep0 \<in> set es" using last_observed_SomeD [OF ep0(2)] by simp
  then have "ep0 \<in> set out" using run(3) by (auto simp: observations_set)
  then obtain entry where entry: "EntryToEndpoint entry = Some ep0" using browser_run_entries [OF run(2)] by blast
  let ?ep = "effective_endpoint wk ep0"
  from c(2) w have ob: "of_bmc ?s ?ep d creds obj" by auto
  have ip: "EpIP ?ep = EpIP ep0" by (simp add: effective_endpoint_def)
  have facts: "key_of obj = \<lparr>key_namespace = Namespace ?s, key_name = (if kind_of obj = SecretKind
          then resource_name ?s ?ep d @ ''-bmc-auth'' else resource_name ?s ?ep d)\<rparr>
    \<and> (\<forall>m. obj = MachineObject m \<longrightarrow> ConnHost (bm_Spec m) = AddrString (EpIP ep0)
        \<and> AuthSecretRef (bm_Spec m) = \<lparr>key_namespace = Namespace ?s, key_name = resource_name ?s ?ep d @ ''-bmc-auth''\<rparr>)
    \<and> (\<forall>h. obj = HardwareObject h \<longrightarrow> map_option RefName (BMCRef (hw_Spec h)) = Some (resource_name ?s ?ep d))"
    using ob by (cases obj) (auto dest!: without_netboot_refs simp: of_bmc_def desired_objects_def Let_def DesiredAuthSecret_def DesiredMachine_def
        DesiredHardware_def key_of_def meta_key_def new_meta_def ip)
  have "dns_label (resource_name ?s ?ep d)" by (rule resource_name_label [OF entry])
  with facts obs entry EntryToEndpoint_ip [OF entry] show ?thesis by blast
qed

text \<open>An advertisement of the sample BMC, heard in the first cycle.\<close>

definition sample_browser :: browser_config where
  "sample_browser = \<lparr>ServiceTypes = [''_redfish._tcp''], Domain = ''local.'', BrowseInterval = 60, BrowseWindow = 10,
     BrowseInterfaces = []\<rparr>"

definition sample_entry :: service_entry where
  "sample_entry = \<lparr>EntryInstance = ''tray/1'', EntryService = ''_redfish._tcp'', EntryHostName = ''bmc-1.local.'',
     EntryPort = 443, AddrIPv4 = [[10, 0, 0, 7]]\<rparr>"

lemma sample_browser_run: "browser_run sample_browser [sample_endpoint]"
proof -
  have "EntryToEndpoint sample_entry = Some sample_endpoint"
    by (simp add: EntryToEndpoint_def sample_entry_def sample_endpoint_def AddrFromSlice_def)
  then have "[sample_endpoint] \<in> merges (map forward [[EntryArrives sample_entry True]])" by simp
  moreover have "length [[EntryArrives sample_entry True]]
      = length (browseOnce (\<lambda>_. None) (BrowseInterfaces sample_browser) (Domain sample_browser) (ServiceTypes sample_browser))"
    by (simp add: browseOnce_def clientOptions_def sample_browser_def)
  ultimately have "browser_run sample_browser ([] @ [sample_endpoint])"
    using browser_cycle [OF browser_start refl] by blast
  then show ?thesis by simp
qed

theorem discovery_writes_well_named_objects_witness:
  "\<exists>es st sec name. discovery_run sample_browser sample_race_env sample_worker es st
     \<and> DCreate (SecretObject sec) (Some AlreadyExists) \<in> set (ws_calls st)
     \<and> dns_label name \<and> meta_key (sec_Meta sec) = \<lparr>key_namespace = ''tink'', key_name = name @ ''-bmc-auth''\<rparr>"
proof -
  from sample_race_run obtain es st sec where r: "worker_run sample_race_env sample_worker es st"
    "observations es = [sample_endpoint]" "DCreate (SecretObject sec) (Some AlreadyExists) \<in> set (ws_calls st)" by blast
  with sample_browser_run have run: "discovery_run sample_browser sample_race_env sample_worker es st"
    unfolding discovery_run_def by (metis prefix_order.refl)
  from discovery_writes_well_named_objects [OF run, of "SecretObject sec" "Some AlreadyExists"] r(3)
  obtain name where "dns_label name" "key_of (SecretObject sec)
      = \<lparr>key_namespace = Namespace (WorkerSyncer sample_worker), key_name = name @ ''-bmc-auth''\<rparr>" by auto
  with run r(3) show ?thesis by (auto simp: key_of_def sample_worker_def sample_syncer_def)
qed

end
