(* ===== verification/SharedHardware.thy ===== *)
theory SharedHardware
  imports SyncerProperties JanitorReconciler TeardownEnv
begin

text \<open>
  The three controllers share Hardware objects. Discovery applies sparse configurations with forced
  ownership, the janitor classifies and scrubs, the teardown reads the DHCP address of the first
  interface. The theorem is about any server-side apply that keeps the contract Kubernetes documents
  for it: what the configuration asserts is set, the interfaces list is atomic, and what the
  configuration leaves out and this manager never asserts is kept.
\<close>

section \<open>Server-side apply\<close>

text \<open>The OS metadata of the instance, empty where a pointer is nil.\<close>

definition os_metadata :: "hardware \<Rightarrow> string option \<times> string" where
  "os_metadata hw = (case Metadata (hw_Spec hw) of
     None \<Rightarrow> (None, [])
   | Some md \<Rightarrow> (case Instance md of None \<Rightarrow> (None, []) | Some i \<Rightarrow> (OperatingSystem i, InstanceState i)))"

definition discovery_keys :: "string set" where
  "discovery_keys = {ManagedByLabel, LastSeenAnnotation, InstanceAnnotation, ServiceAnnotation}"

definition map_applied :: "gomap \<Rightarrow> gomap \<Rightarrow> gomap \<Rightarrow> bool" where
  "map_applied config live new \<longleftrightarrow> (\<forall>k. (mhas config k \<longrightarrow> map_of new k = map_of config k)
     \<and> (\<not> mhas config k \<and> k \<notin> discovery_keys \<longrightarrow> map_of new k = map_of live k))"

definition apply_contract :: "(hardware \<Rightarrow> hardware \<Rightarrow> hardware) \<Rightarrow> bool" where
  "apply_contract ssa \<longleftrightarrow> (\<forall>config live.
     map_applied (om_Labels (hw_Meta config)) (om_Labels (hw_Meta live)) (om_Labels (hw_Meta (ssa config live)))
   \<and> map_applied (om_Annotations (hw_Meta config)) (om_Annotations (hw_Meta live)) (om_Annotations (hw_Meta (ssa config live)))
   \<and> (UserData (hw_Spec config) = None \<longrightarrow> UserData (hw_Spec (ssa config live)) = UserData (hw_Spec live))
   \<and> (os_metadata config = (None, []) \<longrightarrow> os_metadata (ssa config live) = os_metadata live)
   \<and> (Interfaces (hw_Spec config) \<noteq> [] \<longrightarrow> Interfaces (hw_Spec (ssa config live)) = Interfaces (hw_Spec config)))"

section \<open>What a sync asserts\<close>

text \<open>Only its own keys, and no DHCP address.\<close>

definition asserted :: "client_object \<Rightarrow> bool" where
  "asserted obj \<longleftrightarrow> (\<forall>k. mhas (om_Labels (get_meta obj)) k \<or> mhas (om_Annotations (get_meta obj)) k \<longrightarrow> k \<in> discovery_keys)
     \<and> (\<forall>h. obj = HardwareObject h \<longrightarrow> hardware_ip h = [])"

fun asserted_call :: "discovery_call \<Rightarrow> bool" where
  "asserted_call (DCreate obj _) = asserted obj"
| "asserted_call (DApply obj _) = asserted obj"
| "asserted_call _ = True"

lemma asserted_meta:
  "asserted obj \<Longrightarrow> om_Labels meta = om_Labels (get_meta obj) \<Longrightarrow> om_Annotations meta = om_Annotations (get_meta obj)
     \<Longrightarrow> asserted (set_meta meta obj)"
  by (cases obj) (auto simp: asserted_def hardware_ip_def)

lemma asserted_ownership: "asserted obj \<Longrightarrow> asserted (set_meta (ownership_meta now ep (get_meta obj)) obj)"
  by (cases obj) (auto simp: asserted_def ownership_meta_def discovery_keys_def hardware_ip_def)

lemma asserted_carry: "asserted obj \<Longrightarrow> asserted (carry_netboot live obj)"
  by (induction live obj rule: carry_netboot.induct) (auto simp: asserted_def hardware_ip_def split: list.splits)

lemma apply_stamped_asserted:
  assumes "asserted d" and "carry = None \<or> carry = Some carry_netboot"
  shows "calls_only asserted_call (apply_stamped env d carry)"
proof -
  have "asserted (applied live d carry)" for live
    using assms by (auto simp: applied_def with_resource_version_def intro!: asserted_meta asserted_carry)
  then have payload: "asserted payload" if "applyConfigurationFor env (applied live d carry) = Inr payload" for live payload
    using that by (auto simp: applyConfigurationFor_def intro!: asserted_meta split: option.splits)
  show ?thesis
    unfolding apply_stamped_def by (intro calls_only_intros) (auto simp: assms(1) dest: payload)
qed

lemma applyManaged_asserted:
  assumes "asserted desired" and "carry = None \<or> carry = Some carry_netboot"
  shows "calls_only asserted_call (applyManaged env ep desired carry)"
  unfolding applyManaged_stamped
  by (intro calls_only_intros apply_stamped_asserted asserted_ownership assms) simp

lemma Sync_asserted: "calls_only asserted_call (Sync env s ep (Some d) creds)"
proof -
  obtain sec m h where o: "desired_objects s ep d creds = (sec, m, h)" by (metis prod_cases3)
  then have "asserted (SecretObject sec)" "asserted (MachineObject m)" "asserted (HardwareObject h)"
    by (auto simp: desired_objects_def Let_def DesiredAuthSecret_def DesiredMachine_def DesiredHardware_def
        asserted_def new_meta_def hardware_ip_def mhas_def)
  then show ?thesis
    unfolding Sync_def option.case o prod.case
    by (intro calls_only_intros applyManaged_asserted) simp_all
qed

section \<open>Discovery leaves the other controllers' state alone\<close>

lemma keys_foreign [simp]:
  "OwnerNameLabel \<notin> discovery_keys" "OwnerNamespaceLabel \<notin> discovery_keys" "ProvisionedAnnotation \<notin> discovery_keys"
  by (simp_all add: discovery_keys_def OwnerNameLabel_def OwnerNamespaceLabel_def ProvisionedAnnotation_def
      ManagedByLabel_def LastSeenAnnotation_def InstanceAnnotation_def ServiceAnnotation_def)

lemma applied_foreign:
  assumes "apply_contract ssa" and "asserted (HardwareObject config)" and "k \<notin> discovery_keys"
  shows "map_of (om_Labels (hw_Meta (ssa config live))) k = map_of (om_Labels (hw_Meta live)) k"
    and "map_of (om_Annotations (hw_Meta (ssa config live))) k = map_of (om_Annotations (hw_Meta live)) k"
proof -
  have "\<not> mhas (om_Labels (hw_Meta config)) k" "\<not> mhas (om_Annotations (hw_Meta config)) k"
    using assms(2,3) by (auto simp: asserted_def)
  with assms(1,3) show "map_of (om_Labels (hw_Meta (ssa config live))) k = map_of (om_Labels (hw_Meta live)) k"
    "map_of (om_Annotations (hw_Meta (ssa config live))) k = map_of (om_Annotations (hw_Meta live)) k"
    unfolding apply_contract_def map_applied_def by simp_all
qed

text \<open>C15: What a discovery apply keeps of the other controllers' state on a Hardware, and what it does not.
  Over whatever object is stored: every label and annotation that is not one of discovery's four, so
  the owner labels; hence the janitor's class of the object, so a claim or a release is never made or undone
  by discovery; CAPT's userData; and the OS metadata. Over the revision it read, the netboot block of the
  primary interface, when that interface has one and the applied object has interfaces at all; then
  neither the janitor's parking nor a workflow's disarming is undone. Not kept is the DHCP address that the
  teardown falls back to: after an apply with an interface it is empty, whoever had set it.\<close>

theorem discovery_leaves_foreign_state:
  assumes "apply_contract ssa"
    and "run_state (Sync env s ep (Some d) creds) \<lparr>world = w, trace = []\<rparr> = (r, s')"
    and "trace s' = us @ DApply (HardwareObject config) e # vs"
  shows "(\<forall>live. (\<forall>k. k \<notin> discovery_keys \<longrightarrow>
          map_of (om_Labels (hw_Meta (ssa config live))) k = map_of (om_Labels (hw_Meta live)) k
        \<and> map_of (om_Annotations (hw_Meta (ssa config live))) k = map_of (om_Annotations (hw_Meta live)) k)
      \<and> Classify (ssa config live) = Classify live
      \<and> UserData (hw_Spec (ssa config live)) = UserData (hw_Spec live) \<and> os_metadata (ssa config live) = os_metadata live
      \<and> (Interfaces (hw_Spec config) \<noteq> [] \<longrightarrow> hardware_ip (ssa config live) = []))
    \<and> (\<exists>read. DGet HardwareKind (hw_key config) (Inr read) \<in> set us
      \<and> (\<forall>live i is nb. read = HardwareObject live \<and> Interfaces (hw_Spec live) = i # is \<and> Netboot i = Some nb
          \<and> Interfaces (hw_Spec config) \<noteq> []
          \<longrightarrow> om_ResourceVersion (hw_Meta config) = om_ResourceVersion (hw_Meta live)
            \<and> map Netboot (Interfaces (hw_Spec (ssa config live))) = [Some nb]))"
proof
  have "\<forall>x \<in> set (trace s'). asserted_call x" using yields_run_empty [OF Sync_asserted assms(2)] .
  then have a: "asserted (HardwareObject config)" using assms(3) by simp
  have p: "sync_permitted (auth_key s ep d) (resource_key s ep d) us (DApply (HardwareObject config) e)"
    using yields_run [OF Sync_follows [where us = "[]", unfolded follows_def] assms(2)] assms(3) by auto
  then have sp: "sparse config" "length (Interfaces (hw_Spec config)) \<le> 1" by (simp_all add: sparse_object_def)
  have os: "os_metadata config = (None, [])"
    using sp(1) by (auto simp: os_metadata_def sparse_def split: option.splits)
  note c = assms(1) [unfolded apply_contract_def, rule_format, of config]
  have ud: "UserData (hw_Spec (ssa config live)) = UserData (hw_Spec live)" for live
    using c [of live] sp(1) by (simp add: sparse_def)
  have ip: "hardware_ip (ssa config live) = []" if "Interfaces (hw_Spec config) \<noteq> []" for live
    using c [of live] a that by (simp add: asserted_def hardware_ip_def)
  have "Classify (ssa config live) = Classify live" for live
  proof -
    have "hasUserData (ssa config live) = hasUserData live" by (simp only: hasUserData_def ud)
    then show ?thesis by (simp add: Classify_def Let_def mhas_def applied_foreign [OF assms(1) a])
  qed
  with c ud ip os applied_foreign [OF assms(1) a] show "\<forall>live. (\<forall>k. k \<notin> discovery_keys \<longrightarrow>
          map_of (om_Labels (hw_Meta (ssa config live))) k = map_of (om_Labels (hw_Meta live)) k
        \<and> map_of (om_Annotations (hw_Meta (ssa config live))) k = map_of (om_Annotations (hw_Meta live)) k)
      \<and> Classify (ssa config live) = Classify live
      \<and> UserData (hw_Spec (ssa config live)) = UserData (hw_Spec live) \<and> os_metadata (ssa config live) = os_metadata live
      \<and> (Interfaces (hw_Spec config) \<noteq> [] \<longrightarrow> hardware_ip (ssa config live) = [])" by blast
  from p obtain read where read: "DGet HardwareKind (hw_key config) (Inr read) \<in> set us"
    "om_ResourceVersion (hw_Meta config) = om_ResourceVersion (get_meta read)" "netboot_kept read (HardwareObject config)"
    by (auto simp: key_of_def)
  have "map Netboot (Interfaces (hw_Spec (ssa config live))) = [Some nb]"
    if "read = HardwareObject live" "Interfaces (hw_Spec live) = i # is" "Netboot i = Some nb" "Interfaces (hw_Spec config) \<noteq> []"
    for live i "is" nb
  proof -
    from sp(2) that(4) obtain j where j: "Interfaces (hw_Spec config) = [j]" by (cases "Interfaces (hw_Spec config)") auto
    with read(3) that have "Netboot j = Some nb" by (auto simp: netboot_kept_def)
    with c [of live] j show ?thesis by simp
  qed
  with read show "\<exists>read. DGet HardwareKind (hw_key config) (Inr read) \<in> set us
      \<and> (\<forall>live i is nb. read = HardwareObject live \<and> Interfaces (hw_Spec live) = i # is \<and> Netboot i = Some nb
          \<and> Interfaces (hw_Spec config) \<noteq> []
          \<longrightarrow> om_ResourceVersion (hw_Meta config) = om_ResourceVersion (hw_Meta live)
            \<and> map Netboot (Interfaces (hw_Spec (ssa config live))) = [Some nb])" by auto
qed

text \<open>An apply that keeps the contract, for the witness.\<close>

definition sample_ssa :: "hardware \<Rightarrow> hardware \<Rightarrow> hardware" where
  "sample_ssa config live = \<lparr>
     hw_Meta = (hw_Meta live)\<lparr>
       om_Labels := AList.merge (om_Labels (hw_Meta live)) (om_Labels (hw_Meta config)),
       om_Annotations := AList.merge (om_Annotations (hw_Meta live)) (om_Annotations (hw_Meta config))\<rparr>,
     hw_Spec = (hw_Spec config)\<lparr>
       UserData := (if UserData (hw_Spec config) = None then UserData (hw_Spec live) else UserData (hw_Spec config)),
       Metadata := (if os_metadata config = (None, []) then Metadata (hw_Spec live) else Metadata (hw_Spec config)),
       Interfaces := (if Interfaces (hw_Spec config) = [] then Interfaces (hw_Spec live) else Interfaces (hw_Spec config))\<rparr>\<rparr>"

lemma sample_ssa_contract: "apply_contract sample_ssa"
  by (auto simp: apply_contract_def map_applied_def sample_ssa_def os_metadata_def merge_conv' mhas_def map_add_def
      split: option.split)

theorem discovery_leaves_foreign_state_witness:
  "\<exists>config. sample_applied None = HardwareObject config \<and> Classify (sample_ssa config sample_released) = ClassReleased
     \<and> hardware_ip (sample_ssa config sample_released) = []"
proof -
  obtain us where run: "sample_sync None = (None, \<lparr>world = (), trace = us @ [DApply (sample_applied None) None]\<rparr>)"
    using sample_sync_run by blast
  obtain config where c: "sample_applied None = HardwareObject config" "Interfaces (hw_Spec config) \<noteq> []"
  proof -
    obtain sec m h where "desired_objects sample_syncer sample_endpoint sample_nic_device sample_creds = (sec, m, h)"
      by (metis prod_cases3)
    then show thesis by (intro that, simp add: sample_applied_def) simp
  qed
  have tr: "trace \<lparr>world = (), trace = us @ [DApply (sample_applied None) None]\<rparr> = us @ DApply (HardwareObject config) None # []"
    by (simp add: c(1))
  from discovery_leaves_foreign_state [OF sample_ssa_contract run [unfolded sample_sync_def] tr] c show ?thesis by simp
qed

end
