(* ===== verification/Ledger.thy ===== *)
theory Ledger
  imports Prelude "HOL-Library.Multiset"
begin

text \<open>
  Books over traces: two values per call, a debit and a credit, in a commutative monoid (numbers,
  multisets), summed over the calls. \<open>books d c m Q\<close>: every run of the program \<open>m\<close> has balanced
  books, and its result satisfies \<open>Q\<close>. The rules compose along the program, as those of \<open>yields\<close>.
\<close>

definition tally :: "('a \<Rightarrow> 'm :: comm_monoid_add) \<Rightarrow> 'a list \<Rightarrow> 'm" where
  "tally f xs = sum_list (map f xs)"

lemma tally_simps [simp]:
  "tally f [] = 0" "tally f (x # xs) = f x + tally f xs" "tally f (xs @ ys) = tally f xs + tally f ys"
  by (simp_all add: tally_def)

definition books ::
    "('a \<Rightarrow> 'm :: comm_monoid_add) \<Rightarrow> ('a \<Rightarrow> 'm) \<Rightarrow> ('w, 'a, 'r) prog \<Rightarrow> ('r \<Rightarrow> bool) \<Rightarrow> bool" where
  "books d c m Q \<longleftrightarrow> yields m (\<lambda>r xs. tally d xs = tally c xs \<and> Q r)"

lemma booksI: "yields m (\<lambda>r xs. tally d xs = tally c xs \<and> Q r) \<Longrightarrow> books d c m Q"
  by (simp add: books_def)

lemma books_return: "Q r \<Longrightarrow> books d c (State_Monad.return r) Q"
  by (rule booksI, rule yields_return) simp

lemma books_weaken: "books d c m R \<Longrightarrow> (\<And>r. R r \<Longrightarrow> Q r) \<Longrightarrow> books d c m Q"
  unfolding books_def by (erule yields_weaken) auto

lemma books_bind:
  assumes "books d c m R" and "\<And>r. R r \<Longrightarrow> books d c (f r) Q"
  shows "books d c (State_Monad.bind m f) Q"
proof (rule booksI, rule yields_bind [OF assms(1) [unfolded books_def]])
  fix r xs
  assume *: "tally d xs = tally c xs \<and> R r"
  with assms(2) have "books d c (f r) Q" by blast
  then show "yields (f r) (\<lambda>r' ys. tally d (xs @ ys) = tally c (xs @ ys) \<and> Q r')"
    unfolding books_def by (rule yields_weaken) (use * in auto)
qed

lemma books_bind_any:
  assumes "books d c m (\<lambda>_. True)" and "\<And>r. books d c (f r) Q"
  shows "books d c (State_Monad.bind m f) Q"
  by (rule books_bind [OF assms(1)]) (rule assms(2))

lemma books_extcall: "(\<And>r. d (act r) = c (act r)) \<Longrightarrow> books d c (extcall act f) (\<lambda>_. True)"
  by (rule booksI, rule yields_weaken [OF yields_extcall]) auto

lemma books_emit: "d a = c a \<Longrightarrow> books d c (emit a) (\<lambda>_. True)"
  by (rule booksI, rule yields_weaken [OF yields_emit]) auto

lemma books_case_sum:
  assumes "\<And>e. x = Inl e \<Longrightarrow> books d c (f e) Q" and "\<And>a. x = Inr a \<Longrightarrow> books d c (g a) Q"
  shows "books d c (case x of Inl e \<Rightarrow> f e | Inr a \<Rightarrow> g a) Q"
  using assms by (cases x) auto

lemma books_case_option:
  assumes "x = None \<Longrightarrow> books d c f Q" and "\<And>a. x = Some a \<Longrightarrow> books d c (g a) Q"
  shows "books d c (case x of None \<Rightarrow> f | Some a \<Rightarrow> g a) Q"
  using assms by (cases x) auto

lemma books_case_prod:
  assumes "\<And>a b. x = (a, b) \<Longrightarrow> books d c (f a b) Q"
  shows "books d c (case x of (a, b) \<Rightarrow> f a b) Q"
  using assms by (cases x) auto

lemma books_if:
  assumes "b \<Longrightarrow> books d c m Q" and "\<not> b \<Longrightarrow> books d c n Q"
  shows "books d c (if b then m else n) Q"
  using assms by auto

lemmas books_branch = books_case_sum books_case_option books_case_prod books_if
lemmas books_intros = books_bind_any books_extcall books_emit books_branch

lemma books_run:
  "books d c m Q \<Longrightarrow> run_state m \<lparr>world = w, trace = []\<rparr> = (r, s') \<Longrightarrow> tally d (trace s') = tally c (trace s') \<and> Q r"
  unfolding books_def by (drule (1) yields_run_empty)

end
