(* ===== verification/Collectors.thy ===== *)
theory Collectors
  imports Ledger
begin

text \<open>
  The Prometheus collectors of \<open>internal/teardown/metrics.go\<close> and \<open>internal/janitor/metrics.go\<close> and
  what is registered of them. Of a collector the model keeps the name and, for a vector, the label names; the
  help texts and the buckets do not matter to what is counted.
\<close>

datatype collector =
    Counter string
  | CounterVec string "string list"
  | GaugeVec string "string list"
  | Histogram string

fun collector_name :: "collector \<Rightarrow> string" where
  "collector_name (Counter name) = name"
| "collector_name (CounterVec name _) = name"
| "collector_name (GaugeVec name _) = name"
| "collector_name (Histogram name) = name"

definition machinesCompleted :: collector where "machinesCompleted = Counter ''teardown_machines_total''"
definition etcdOutcomes :: collector where "etcdOutcomes = CounterVec ''teardown_etcd_total'' [''outcome'']"
definition resetOutcomes :: collector where "resetOutcomes = CounterVec ''teardown_reset_total'' [''outcome'']"
definition resetDuration :: collector where "resetDuration = Histogram ''teardown_reset_duration_seconds''"

definition scrubbedTotal :: collector where "scrubbedTotal = Counter ''janitor_hardware_scrubbed_total''"
definition updateConflicts :: collector where "updateConflicts = Counter ''janitor_update_conflicts_total''"
definition halfReleased :: collector where
  "halfReleased = GaugeVec ''janitor_half_released_hardware'' [''namespace'', ''hardware'']"

text \<open>What each package's \<open>init\<close> hands to the registry.\<close>

definition teardown_collectors :: "collector list" where
  "teardown_collectors = [machinesCompleted, etcdOutcomes, resetOutcomes, resetDuration]"

definition janitor_collectors :: "collector list" where
  "janitor_collectors = [scrubbedTotal, updateConflicts, halfReleased]"

lemmas metric_names = machinesCompleted_def etcdOutcomes_def resetOutcomes_def resetDuration_def
  scrubbedTotal_def updateConflicts_def halfReleased_def

text \<open>Registration panics on a name that is taken; no name is taken twice.\<close>

lemma distinct_collector_names:
  "distinct (map collector_name teardown_collectors)" "distinct (map collector_name janitor_collectors)"
  by (simp_all add: teardown_collectors_def janitor_collectors_def metric_names)

end
