(* ===== verification/JanitorMetrics.thy ===== *)
theory JanitorMetrics
  imports JanitorReconciler Collectors
begin

text \<open>
  The janitor's metrics tell the truth: the counters as a multiset of increments over the trace, the
  gauge vector as the set of the objects whose gauge is present (it is only ever set to one, or its
  label values are deleted).
\<close>

fun janitor_counted :: "janitor_call \<Rightarrow> string multiset" where
  "janitor_counted JScrubbedTotalInc = {#collector_name scrubbedTotal#}"
| "janitor_counted JUpdateConflictsInc = {#collector_name updateConflicts#}"
| "janitor_counted _ = {#}"

fun janitor_earned :: "janitor_call \<Rightarrow> string multiset" where
  "janitor_earned (JUpdate _ None) = {#collector_name scrubbedTotal#}"
| "janitor_earned (JUpdate _ (Some err)) = (if IsConflict err then {#collector_name updateConflicts#} else {#})"
| "janitor_earned _ = {#}"

fun gauge_step :: "object_key set \<Rightarrow> janitor_call \<Rightarrow> object_key set" where
  "gauge_step gauge (JHalfReleasedSet key) = insert key gauge"
| "gauge_step gauge (JHalfReleasedDelete key) = gauge - {key}"
| "gauge_step gauge _ = gauge"

definition half_released_gauge :: "janitor_call list \<Rightarrow> object_key set" where
  "half_released_gauge us = foldl gauge_step {} us"

lemma half_released_gauge_append: "half_released_gauge (us @ xs) = foldl gauge_step (half_released_gauge us) xs"
  by (simp add: half_released_gauge_def)

text \<open>C28: The janitor's metrics tell the truth, after any history: a reconcile counts one scrub per
  accepted update and one conflict per update refused as a conflict; and afterwards the gauge shows
  the object exactly when it was read as half-released, an object that is gone (or claimed, and so
  out of the cache) is no longer shown, a failed read changes nothing, and neither does a reconcile
  change the gauge of another object.\<close>

theorem janitor_metrics_tell_the_truth:
  assumes "run_state (Reconcile env opts req) \<lparr>world = w, trace = us\<rparr> = (result, s')"
  shows "(\<exists>xs. trace s' = us @ xs \<and> tally janitor_counted xs = tally janitor_earned xs)
    \<and> half_released_gauge (trace s') = (case fst (je_Get env req w) of
        Inl err \<Rightarrow> if IsNotFound err then half_released_gauge us - {req} else half_released_gauge us
      | Inr hw \<Rightarrow> if Classify hw = ClassHalfReleased then insert (hw_key hw) (half_released_gauge us)
          else half_released_gauge us - {hw_key hw})"
proof -
  from Reconcile_run [OF assms] obtain xs where xs: "trace s' = us @ xs"
    "reconcile_trace opts req (fst (je_Get env req w)) result xs" by auto
  have "tally janitor_counted xs = tally janitor_earned xs"
  proof (cases "fst (je_Get env req w)")
    case (Inr hw)
    with xs(2) show ?thesis
      by (cases "Classify hw"; cases result) (auto simp: reconcile_trace_def released_trace_def)
  qed (use xs(2) in \<open>auto simp: reconcile_trace_def\<close>)
  moreover have "foldl gauge_step g xs = (case fst (je_Get env req w) of
        Inl err \<Rightarrow> if IsNotFound err then g - {req} else g
      | Inr hw \<Rightarrow> if Classify hw = ClassHalfReleased then insert (hw_key hw) g else g - {hw_key hw})" for g
  proof (cases "fst (je_Get env req w)")
    case (Inr hw)
    with xs(2) show ?thesis
      by (cases "Classify hw"; cases result) (auto simp: reconcile_trace_def released_trace_def split: if_splits)
  qed (use xs(2) in \<open>auto simp: reconcile_trace_def\<close>)
  ultimately show ?thesis using xs(1) by (auto simp: half_released_gauge_append)
qed

theorem janitor_metrics_tell_the_truth_witness:
  "\<exists>s'. snd (run_state (Reconcile (janitor_server_env 0) sample_opts sample_key)
       \<lparr>world = sample_server [], trace = [JHalfReleasedSet sample_key]\<rparr>) = s'
     \<and> half_released_gauge (trace s') = {}"
proof -
  let ?s = "\<lparr>world = sample_server [], trace = [JHalfReleasedSet sample_key]\<rparr>"
  obtain result s' where run: "run_state (Reconcile (janitor_server_env 0) sample_opts sample_key) ?s = (result, s')"
    by fastforce
  have "fst (je_Get (janitor_server_env 0) sample_key (sample_server [])) = Inr sample_released"
    by (simp add: janitor_server_env_def sv_read_def sample_server_def)
  moreover have "hw_key sample_released = sample_key"
    by (simp add: sample_released_def new_meta_def meta_key_def sample_key_def)
  ultimately show ?thesis
    using janitor_metrics_tell_the_truth [OF run] run by (simp add: half_released_gauge_def)
qed

end
