(* ===== verification/Controllers.thy ===== *)
theory Controllers
  imports Prelude
begin

text \<open>
  How a controller is wired to controller-runtime: the table that \<open>SetupWithManager\<close> hands to the
  builder. An entry names the kind that is watched, what makes requests of an event's object, and
  which events are let through. What the runtime does with the table is its own.
\<close>

text \<open>The event objects of the runtime carry an object or nil.\<close>

datatype 'o watch_event =
    CreateEvent "'o option"
  | UpdateEvent "'o option" "'o option"
  | DeleteEvent "'o option"
  | GenericEvent "'o option"

text \<open>No predicate, \<open>predicate.NewPredicateFuncs\<close> of a test on objects, \<open>predicate.Funcs\<close>.\<close>

datatype 'o event_filter = AllEvents | ObjectFilter "'o \<Rightarrow> bool" | EventFilter "'o watch_event \<Rightarrow> bool"

text \<open>\<open>For\<close> requests the object itself, \<open>EnqueueRequestsFromMapFunc\<close> what a function makes of it.\<close>

datatype ('o, 'w, 'c) event_handler = EnqueueObject | EnqueueMapped "'o \<Rightarrow> ('w, 'c, object_key list) prog"

record ('o, 'w, 'c) watch =
  WatchedKind :: string
  WatchHandler :: "('o, 'w, 'c) event_handler"
  WatchFilter :: "'o event_filter"

text \<open>The backoff of failed items: first delay and cap; \<^const>\<open>None\<close> is the runtime's default.\<close>

record ('o, 'w, 'c) controller =
  ControllerName :: string
  Watches :: "('o, 'w, 'c) watch list"
  MaxConcurrentReconciles :: "int option"
  FailureBackoff :: "(int \<times> int) option"

end
