(* ===== verification/JanitorSetup.thy ===== *)
theory JanitorSetup
  imports JanitorReconciler Controllers
begin

text \<open>
  The janitor's watch (\<open>SetupWithManager\<close> of \<open>internal/janitor/reconciler.go\<close>) and its convergence: the
  update a reconcile makes is itself an event of the watched Hardware, so the scrub must settle. The
  contract of an undisturbed server says what Get and Update do while nobody else writes.
\<close>

definition JanitorSetupWithManager :: "(hardware, 'w, janitor_call) controller" where
  "JanitorSetupWithManager = \<lparr>ControllerName = JanitorName,
     Watches = [\<lparr>WatchedKind = ''Hardware'', WatchHandler = EnqueueObject, WatchFilter = AllEvents\<rparr>],
     MaxConcurrentReconciles = None, FailureBackoff = None\<rparr>"

section \<open>An undisturbed server\<close>

text \<open>\<open>stored k w\<close> is the object under a key; \<open>ok\<close> are the worlds in which no other client is writing and
  reads are current. (Over a stale read the update is refused, which \<open>janitor_client\<close> covers.)\<close>

locale undisturbed_server =
  fixes env :: "'w janitor_env" and stored :: "object_key \<Rightarrow> 'w \<Rightarrow> hardware option" and ok :: "'w \<Rightarrow> bool"
  assumes get_stored: "ok w \<Longrightarrow> fst (je_Get env k w) = (case stored k w of None \<Rightarrow> Inl NotFound | Some hw \<Rightarrow> Inr hw)"
    and get_keeps: "ok w \<Longrightarrow> ok (snd (je_Get env k w)) \<and> (\<forall>j. stored j (snd (je_Get env k w)) = stored j w)"
    and now_keeps: "ok w \<Longrightarrow> ok (snd (je_Now env w)) \<and> (\<forall>j. stored j (snd (je_Now env w)) = stored j w)"
    and stored_key: "ok w \<Longrightarrow> stored k w = Some hw \<Longrightarrow> hw_object_key hw = k"
    and update_accepted: "ok w \<Longrightarrow> stored (hw_object_key u) w = Some hw \<Longrightarrow> hw_rv u = hw_rv hw \<Longrightarrow>
      fst (je_Update env JanitorFieldManager u w) = None \<and> ok (snd (je_Update env JanitorFieldManager u w))
        \<and> (\<exists>v. stored (hw_object_key u) (snd (je_Update env JanitorFieldManager u w)) = Some (hw_set_id (hw_object_key u) v u))
        \<and> (\<forall>j. j \<noteq> hw_object_key u \<longrightarrow> stored j (snd (je_Update env JanitorFieldManager u w)) = stored j w)"
begin

lemma idle_reconcile:
  assumes "ok (world s)" and "\<And>hw. stored k (world s) = Some hw \<Longrightarrow> Classify hw \<noteq> ClassReleased"
    and "run_state (Reconcile env opts k) s = (result, s')"
  shows "result = None \<and> ok (world s') \<and> (\<forall>j. stored j (world s') = stored j (world s))
    \<and> (\<exists>xs. trace s' = trace s @ xs \<and> filter is_update xs = [])"
proof -
  obtain r w where g: "je_Get env k (world s) = (r, w)" by fastforce
  with get_keeps [OF assms(1), of k] get_stored [OF assms(1), of k] have
    w: "ok w" "\<And>j. stored j w = stored j (world s)"
    and r: "r = (case stored k (world s) of None \<Rightarrow> Inl NotFound | Some hw \<Rightarrow> Inr hw)" by simp_all
  show ?thesis
  proof (cases "stored k (world s)")
    case None
    with assms(3) g r w show ?thesis by (auto simp: Reconcile_def IgnoreNotFound_def)
  next
    case (Some hw)
    with assms(2) have "Classify hw \<noteq> ClassReleased" by blast
    with Some assms(3) g r w show ?thesis by (cases "Classify hw") (auto simp: Reconcile_def)
  qed
qed

lemma scrubbing_reconcile:
  assumes "ok (world s)" and "stored k (world s) = Some hw" and "Classify hw = ClassReleased"
    and "run_state (Reconcile env opts k) s = (result, s')"
  shows "result = None \<and> ok (world s') \<and> (\<forall>j. j \<noteq> k \<longrightarrow> stored j (world s') = stored j (world s))
    \<and> (\<exists>now v. stored k (world s') = Some (hw_set_id k v (fst (Scrub opts now hw))))"
proof -
  obtain r w where g: "je_Get env k (world s) = (r, w)" by fastforce
  with get_keeps [OF assms(1), of k] get_stored [OF assms(1), of k] assms(2) have
    w: "ok w" "\<And>j. stored j w = stored j (world s)" and r: "r = Inr hw" by simp_all
  obtain now w2 where n: "je_Now env w = (now, w2)" by fastforce
  with now_keeps [OF w(1)] w have w2: "ok w2" "\<And>j. stored j w2 = stored j (world s)" by simp_all
  obtain sc cl where sc: "Scrub opts now hw = (sc, cl)" by fastforce
  have cl: "cl \<noteq> []"
    using released_scrub_changes [OF assms(3), of opts] sc by (auto simp: Scrub_def split: prod.splits)
  have id: "hw_object_key sc = k" "hw_rv sc = hw_rv hw"
    using Scrub_meta(2-4) [where opts = opts and now = now and hw = hw] sc stored_key [OF assms(1,2)]
    by (simp_all add: hw_object_key_def hw_rv_def meta_key_def)
  obtain u w3 where u: "je_Update env JanitorFieldManager sc w2 = (u, w3)" by fastforce
  from update_accepted [OF w2(1), of sc hw] id w2(2) assms(2) u
  have u': "u = None" "ok w3" "\<exists>v. stored k w3 = Some (hw_set_id k v sc)" "\<And>j. j \<noteq> k \<Longrightarrow> stored j w3 = stored j w2"
    by simp_all
  have "result = None \<and> world s' = w3"
    using assms(3,4) g r n sc cl u u'(1) by (auto simp: Reconcile_def ScrubM_run [OF assms(3)])
  with u' w2(2) sc show ?thesis by (metis fst_conv)
qed

end

lemma Classify_set_id [simp]: "Classify (hw_set_id k v hw) = Classify hw"
  by (simp add: Classify_def Let_def hasUserData_def hw_set_id_def)

section \<open>The reference server, while nobody else writes\<close>

definition quiet :: "hardware server \<Rightarrow> bool" where
  "quiet w \<longleftrightarrow> sv_pending w = [] \<and> (\<forall>k hw. map_of (sv_objects w) k = Some hw \<longrightarrow> hw_object_key hw = k)"

interpretation quiet_server: undisturbed_server "janitor_server_env now" "\<lambda>k w. map_of (sv_objects w) k" quiet
proof (unfold_locales, goal_cases)
  case (5 w u hw)
  then have "sv_write hw_object_key hw_rv hw_set_id u w =
      (None, (sv_store hw_set_id (hw_object_key u) u (w\<lparr>sv_pending := []\<rparr>))\<lparr>sv_commits := sv_commits w @ [(hw, u)]\<rparr>)"
    by (simp add: sv_write_def quiet_def Let_def)
  with 5 show ?case
    by (auto simp: janitor_server_env_def sv_store_def Let_def quiet_def update_conv' hw_store.key_set split: if_splits)
qed (auto simp: janitor_server_env_def sv_read_def quiet_def)

section \<open>Convergence\<close>

text \<open>C29: The janitor converges. While nobody else writes, a reconcile of any Hardware succeeds and leaves
  under its key an object that is not Released: the one stored before if that was not, and otherwise
  its scrubbed form, which is NeverClaimed; nothing else is touched. The reconcile that the janitor's
  own update triggers (the watch has no filter) succeeds too, makes no update and changes nothing, so
  the controller does not chase its own writes.\<close>

theorem janitor_converges:
  assumes "undisturbed_server env stored ok" and "ok w"
    and "run_state (Reconcile env opts k) \<lparr>world = w, trace = []\<rparr> = (result, s1)"
    and "run_state (Reconcile env opts k) s1 = (result', s2)"
  shows "result = None \<and> result' = None
    \<and> stored k (world s1) \<in> (case stored k w of None \<Rightarrow> {None} | Some hw \<Rightarrow>
        if Classify hw = ClassReleased
        then {Some (hw_set_id k v (fst (Scrub opts now hw))) | now v. Classify (fst (Scrub opts now hw)) = ClassNeverClaimed}
        else {Some hw})
    \<and> (\<forall>j. j \<noteq> k \<longrightarrow> stored j (world s1) = stored j w)
    \<and> (\<forall>j. stored j (world s2) = stored j (world s1))
    \<and> (\<exists>xs. trace s2 = trace s1 @ xs \<and> filter is_update xs = [])
    \<and> (\<exists>watch \<in> set (Watches (JanitorSetupWithManager :: (hardware, 'w, janitor_call) controller)).
        WatchedKind watch = ''Hardware'' \<and> WatchHandler watch = EnqueueObject \<and> WatchFilter watch = AllEvents)"
proof -
  let ?in = "case stored k w of None \<Rightarrow> {None} | Some hw \<Rightarrow>
        if Classify hw = ClassReleased
        then {Some (hw_set_id k v (fst (Scrub opts now hw))) | now v. Classify (fst (Scrub opts now hw)) = ClassNeverClaimed}
        else {Some hw}"
  have first: "result = None \<and> ok (world s1) \<and> stored k (world s1) \<in> ?in \<and> (\<forall>j. j \<noteq> k \<longrightarrow> stored j (world s1) = stored j w)"
  proof (cases "\<exists>hw. stored k w = Some hw \<and> Classify hw = ClassReleased")
    case True
    then obtain hw where hw: "stored k w = Some hw" "Classify hw = ClassReleased" by blast
    from undisturbed_server.scrubbing_reconcile [OF assms(1) _ _ hw(2) assms(3)] assms(2) hw show ?thesis
      by (auto simp: scrubbed_class)
  next
    case False
    with undisturbed_server.idle_reconcile [OF assms(1) _ _ assms(3)] assms(2) show ?thesis
      by (auto split: option.split)
  qed
  then have "Classify hw \<noteq> ClassReleased" if "stored k (world s1) = Some hw" for hw
    using that by (auto split: option.splits if_splits)
  with undisturbed_server.idle_reconcile [OF assms(1) _ _ assms(4)] first
  have "result' = None \<and> (\<forall>j. stored j (world s2) = stored j (world s1))
    \<and> (\<exists>xs. trace s2 = trace s1 @ xs \<and> filter is_update xs = [])" by blast
  with first show ?thesis by (simp add: JanitorSetupWithManager_def)
qed

theorem janitor_converges_witness:
  "\<exists>s1 v now. snd (run_state (Reconcile (janitor_server_env 0) sample_opts sample_key) \<lparr>world = sample_server [], trace = []\<rparr>) = s1
     \<and> map_of (sv_objects (world s1)) sample_key = Some (hw_set_id sample_key v (fst (Scrub sample_opts now sample_released)))
     \<and> fst (run_state (Reconcile (janitor_server_env 0) sample_opts sample_key) s1) = None"
proof -
  let ?p = "Reconcile (janitor_server_env 0) sample_opts sample_key"
  obtain r1 s1 r2 s2 where run: "run_state ?p \<lparr>world = sample_server [], trace = []\<rparr> = (r1, s1)" "run_state ?p s1 = (r2, s2)"
    by (meson surj_pair)
  have "quiet (sample_server [])"
    by (simp add: quiet_def sample_server_def sample_released_def sample_key_def hw_object_key_def meta_key_def new_meta_def)
  from janitor_converges [OF quiet_server.undisturbed_server_axioms this run] run show ?thesis
    by (auto simp: sample_server_def)
qed

end
