(* ===== verification/TeardownSetup.thy ===== *)
theory TeardownSetup
  imports TeardownSample Controllers
begin

text \<open>
  \<open>internal/teardown/setup.go\<close>: which watch events reach the controller, which Machines they make it
  reconcile, and the table of watches.
\<close>

record owner_reference =
  OwnerKind :: string
  OwnerName :: string

text \<open>Objects as the handlers see them: \<open>machinePredicate\<close> asserts the type, the others read metadata.\<close>

datatype watched_object =
    WatchedMachine machine
  | WatchedCluster object_meta
  | WatchedInfra object_meta "owner_reference list"

fun watched_meta :: "watched_object \<Rightarrow> object_meta" where
  "watched_meta (WatchedMachine m) = m_Meta m"
| "watched_meta (WatchedCluster meta) = meta"
| "watched_meta (WatchedInfra meta _) = meta"

fun owner_references :: "watched_object \<Rightarrow> owner_reference list" where
  "owner_references (WatchedInfra _ refs) = refs"
| "owner_references _ = []"

fun machinePredicate :: "watched_object \<Rightarrow> bool" where
  "machinePredicate (WatchedMachine machine) = (Qualifies machine \<or> HasHook machine)"
| "machinePredicate _ = False"

definition deleting_object :: "watched_object option \<Rightarrow> bool" where
  "deleting_object obj \<longleftrightarrow> (case obj of None \<Rightarrow> False | Some x \<Rightarrow> om_DeletionTimestamp (watched_meta x) \<noteq> None)"

fun clusterDeletionPredicate :: "watched_object watch_event \<Rightarrow> bool" where
  "clusterDeletionPredicate (CreateEvent obj) = deleting_object obj"
| "clusterDeletionPredicate (UpdateEvent old new) = deleting_object new"
| "clusterDeletionPredicate (DeleteEvent _) = True"
| "clusterDeletionPredicate (GenericEvent obj) = deleting_object obj"

fun requests_of :: "machine list \<Rightarrow> object_key list" where
  "requests_of [] = []"
| "requests_of (m # ms) = (if Qualifies m \<or> HasHook m then m_key m # requests_of ms else requests_of ms)"

definition clusterToMachines :: "'w tenv \<Rightarrow> object_meta \<Rightarrow> ('w, object_key list) tprog" where
  "clusterToMachines env obj = do {
     r \<leftarrow> extcall (TListMachines (om_Namespace obj) [(CapiClusterNameLabel, om_Name obj)] [])
       (te_ListMachines env (om_Namespace obj) [(CapiClusterNameLabel, om_Name obj)] []);
     State_Monad.return (case r of Inl err \<Rightarrow> [] | Inr machines \<Rightarrow> requests_of machines)
   }"

fun infraMachineToMachine :: "string \<Rightarrow> owner_reference list \<Rightarrow> object_key list" where
  "infraMachineToMachine namespace [] = []"
| "infraMachineToMachine namespace (ref # refs) =
     (if OwnerKind ref = ''Machine'' then [\<lparr>key_namespace = namespace, key_name = OwnerName ref\<rparr>]
      else infraMachineToMachine namespace refs)"

text \<open>\<open>TinkerbellMachineGVK\<close> of \<open>address.go\<close>, the kind of the unstructured object.\<close>

record group_version_kind =
  GvkGroup :: string
  GvkVersion :: string
  GvkKind :: string

definition TinkerbellMachineGVK :: group_version_kind where
  "TinkerbellMachineGVK = \<lparr>GvkGroup = ''infrastructure.cluster.x-k8s.io'', GvkVersion = ''v1beta2'', GvkKind = ''TinkerbellMachine''\<rparr>"

definition SetupWithManager :: "'w tenv \<Rightarrow> int \<Rightarrow> (watched_object, 'w, tcall) controller" where
  "SetupWithManager env concurrency = \<lparr>ControllerName = Name,
     Watches = [
       \<lparr>WatchedKind = ''Machine'', WatchHandler = EnqueueObject, WatchFilter = ObjectFilter machinePredicate\<rparr>,
       \<lparr>WatchedKind = ''Cluster'', WatchHandler = EnqueueMapped (\<lambda>obj. clusterToMachines env (watched_meta obj)),
         WatchFilter = EventFilter clusterDeletionPredicate\<rparr>,
       \<lparr>WatchedKind = GvkKind TinkerbellMachineGVK, WatchHandler = EnqueueMapped (\<lambda>obj.
           State_Monad.return (infraMachineToMachine (om_Namespace (watched_meta obj)) (owner_references obj))),
         WatchFilter = AllEvents\<rparr>],
     MaxConcurrentReconciles = Some concurrency, FailureBackoff = Some (5 * Second, 30 * Second)\<rparr>"

lemma set_requests_of: "set (requests_of ms) = m_key ` {m \<in> set ms. machinePredicate (WatchedMachine m)}"
  by (induction ms) auto

text \<open>The event filter drops no work: a Machine event it rejects belongs to a Machine whose
  reconcile would read it and do nothing.\<close>

theorem filtered_machines_need_no_reconcile:
  assumes "\<not> machinePredicate (WatchedMachine m)" and "fst (te_GetMachine env req (world s)) = Inr m"
    and "run_state (ReconcileMachine env cfg req) s = (result, s')"
  shows "result = Inr 0 \<and> trace s' = trace s @ [TGetMachine req (Inr m)]"
proof -
  obtain w where "te_GetMachine env req (world s) = (Inr m, w)" using assms(2) by (metis prod.collapse)
  with assms(1,3) show ?thesis by (auto simp: ReconcileMachine_def)
qed

theorem filtered_machines_need_no_reconcile_witness:
  "\<not> machinePredicate (WatchedMachine (sample_peer\<lparr>m_BootstrapKind := ''KubeadmConfig''\<rparr>))
    \<and> fst (run_state (ReconcileMachine (sample_tenv\<lparr>te_GetMachine :=
        (\<lambda>_ w. (Inr (sample_peer\<lparr>m_BootstrapKind := ''KubeadmConfig''\<rparr>), w))\<rparr>) sample_cfg sample_req)
        \<lparr>world = (), trace = []\<rparr>) = Inr 0"
proof -
  let ?m = "sample_peer\<lparr>m_BootstrapKind := ''KubeadmConfig''\<rparr>"
  let ?env = "sample_tenv\<lparr>te_GetMachine := (\<lambda>_ w. (Inr ?m, w))\<rparr>"
  obtain r s' where run: "run_state (ReconcileMachine ?env sample_cfg sample_req) \<lparr>world = (), trace = []\<rparr> = (r, s')"
    by fastforce
  have "\<not> machinePredicate (WatchedMachine ?m)"
    by (simp add: Qualifies_def HasHook_def sample_peer_def new_meta_def mhas_def)
  with filtered_machines_need_no_reconcile [OF this _ run] run show ?thesis by simp
qed

text \<open>C37: A Cluster whose deletion begins reaches the Machines it concerns, and only those. The table has
  a watch on Clusters that lets every deletion event pass, and every creation, update or resync of a
  Cluster with a deletion timestamp; its handler requests exactly the listed Machines that the
  controller services or has hooked; and a listed Machine that is not requested loses nothing, as a
  reconcile that reads it would make no other call.\<close>

theorem cluster_deletion_reaches_machines:
  assumes "run_state (clusterToMachines env (watched_meta obj)) s = (keys, s')"
    and "fst (te_ListMachines env (om_Namespace (watched_meta obj)) [(CapiClusterNameLabel, om_Name (watched_meta obj))] [] (world s)) = Inr machines"
    and "om_DeletionTimestamp (watched_meta obj) \<noteq> None"
  shows "(\<exists>watch \<in> set (Watches (SetupWithManager env n)). WatchedKind watch = ''Cluster''
      \<and> WatchFilter watch = EventFilter clusterDeletionPredicate
      \<and> (case WatchHandler watch of EnqueueObject \<Rightarrow> False | EnqueueMapped f \<Rightarrow> run_state (f obj) s = (keys, s')))
    \<and> clusterDeletionPredicate (CreateEvent (Some obj)) \<and> clusterDeletionPredicate (UpdateEvent old (Some obj))
    \<and> clusterDeletionPredicate (GenericEvent (Some obj)) \<and> clusterDeletionPredicate (DeleteEvent gone)
    \<and> set keys = m_key ` {m \<in> set machines. machinePredicate (WatchedMachine m)}
    \<and> (\<forall>m \<in> set machines. m_key m \<notin> set keys \<longrightarrow> (\<forall>cfg req w. fst (te_GetMachine env req w) = Inr m \<longrightarrow>
        (case run_state (ReconcileMachine env cfg req) \<lparr>world = w, trace = []\<rparr> of (result, s2) \<Rightarrow>
           result = Inr 0 \<and> trace s2 = [TGetMachine req (Inr m)])))"
proof -
  have keys: "set keys = m_key ` {m \<in> set machines. machinePredicate (WatchedMachine m)}"
    using assms(1,2) by (auto simp: clusterToMachines_def set_requests_of split: prod.splits)
  have idle: "case run_state (ReconcileMachine env cfg req) \<lparr>world = w, trace = []\<rparr> of (result, s2) \<Rightarrow>
      result = Inr 0 \<and> trace s2 = [TGetMachine req (Inr m)]"
    if "m \<in> set machines" "m_key m \<notin> set keys" "fst (te_GetMachine env req w) = Inr m" for m cfg req w
  proof -
    have "\<not> machinePredicate (WatchedMachine m)" using that(1,2) keys by blast
    from filtered_machines_need_no_reconcile [OF this, of env req "\<lparr>world = w, trace = []\<rparr>" cfg] that(3)
    show ?thesis by (cases "run_state (ReconcileMachine env cfg req) \<lparr>world = w, trace = []\<rparr>") simp
  qed
  have table: "\<exists>watch \<in> set (Watches (SetupWithManager env n)). WatchedKind watch = ''Cluster''
      \<and> WatchFilter watch = EventFilter clusterDeletionPredicate
      \<and> (case WatchHandler watch of EnqueueObject \<Rightarrow> False | EnqueueMapped f \<Rightarrow> run_state (f obj) s = (keys, s'))"
    using assms(1) by (simp add: SetupWithManager_def)
  show ?thesis using assms(3) table keys idle by (simp add: deleting_object_def)
qed

theorem cluster_deletion_reaches_machines_witness:
  "set (fst (run_state (clusterToMachines sample_tenv ((new_meta ''prod'' ''default'')\<lparr>om_DeletionTimestamp := Some 0\<rparr>))
      \<lparr>world = (), trace = []\<rparr>)) = {m_key sample_machine, m_key sample_peer}"
proof -
  let ?obj = "(new_meta ''prod'' ''default'')\<lparr>om_DeletionTimestamp := Some 0\<rparr>"
  obtain keys s' where run: "run_state (clusterToMachines sample_tenv (watched_meta (WatchedCluster ?obj))) \<lparr>world = (), trace = []\<rparr> = (keys, s')"
    by fastforce
  have "machinePredicate (WatchedMachine sample_machine)" "machinePredicate (WatchedMachine sample_peer)"
    by (simp_all add: Qualifies_def sample_peer_def sample_machine_def)
  with cluster_deletion_reaches_machines [OF run, of "[sample_machine, sample_peer]"] run
  show ?thesis by auto
qed

end
