(* ===== verification/AddressProperties.thy ===== *)
theory AddressProperties
  imports TeardownSample JanitorReconciler
begin

text \<open>
  The address chain of \<open>address.go\<close> against the reference of \<open>NodeAddresses\<close>: which address
  \<open>resolveAddress\<close> answers, which sources it reads, and when it fails.
\<close>

text \<open>C39: The node address is the first candidate of the documented chain: the IP addresses of the
  Machine's status, then the non-empty ones of the TinkerbellMachine, then the DHCP address of the
  first interface of the Hardware, empty when there is none. A source is read only when it is referred
  to and no earlier source has a candidate; one that is not found has none; and a read that fails
  otherwise is the error. A status address of an IP type counts even when its value is empty, and then
  hides the sources after it.\<close>

theorem resolveAddress_first_of_chain:
  assumes "run_state (resolveAddress env m) \<lparr>world = w, trace = []\<rparr> = (result, s')"
  shows "(case status_addresses m of
     a # _ \<Rightarrow> result = Inr a \<and> trace s' = []
   | [] \<Rightarrow> if m_InfraName m = [] then result = Inr [] \<and> trace s' = []
       else \<exists>t. t = fst (te_GetTinkerbellMachine env (infra_key m) w) \<and> (case t of
         Inl err \<Rightarrow> trace s' = [TGetTinkerbellMachine (infra_key m) t]
           \<and> result = (if IsNotFound err then Inr [] else Inl (Wrap ''getting TinkerbellMachine'' err))
       | Inr tm \<Rightarrow> (case infrastructure_addresses tm of
           a # _ \<Rightarrow> result = Inr a \<and> a \<noteq> [] \<and> trace s' = [TGetTinkerbellMachine (infra_key m) t]
         | [] \<Rightarrow> if tm_HardwareName tm = [] then result = Inr [] \<and> trace s' = [TGetTinkerbellMachine (infra_key m) t]
             else \<exists>h. trace s' = [TGetTinkerbellMachine (infra_key m) t, TGetHardware (hardware_key tm) h]
               \<and> h = fst (te_GetHardware env (hardware_key tm) (snd (te_GetTinkerbellMachine env (infra_key m) w)))
               \<and> result = (case h of
                    Inl err \<Rightarrow> if IsNotFound err then Inr [] else Inl (Wrap ''getting Hardware'' err)
                  | Inr hw \<Rightarrow> Inr (case dhcp_addresses hw of [] \<Rightarrow> [] | a # _ \<Rightarrow> a)))))"
proof -
  obtain t w1 where t: "te_GetTinkerbellMachine env (infra_key m) w = (t, w1)" by fastforce
  note chain = resolveAddress_def hardwareAddress_def Let_def first_ip_status first_unstructured_ip_spec
    infra_key_def [symmetric] hardware_key_def [symmetric]
  show ?thesis
  proof (cases "status_addresses m = [] \<and> m_InfraName m \<noteq> []")
    case False
    with assms show ?thesis by (auto simp: chain split: list.splits)
  next
    case True
    show ?thesis
    proof (cases t)
      case (Inl e)
      with True t assms show ?thesis by (auto simp: chain split: if_splits)
    next
      case (Inr tm)
      obtain h w2 where h: "te_GetHardware env (hardware_key tm) w1 = (h, w2)" by fastforce
      show ?thesis
        using assms True t h Inr infrastructure_addresses_nonempty [of tm]
        by (cases "infrastructure_addresses tm"; cases "tm_HardwareName tm = []"; cases h)
          (auto simp: chain hardware_ip_spec split: list.splits if_splits)
    qed
  qed
qed

text \<open>The witness: an empty InternalIP in the status hides the address the TinkerbellMachine has.\<close>

definition sample_infra :: tinkerbell_machine where
  "sample_infra = \<lparr>tm_Namespace = ''default'', tm_HardwareName = ''hw-1'', tm_TargetNamespace = [],
     tm_Addresses = [JOther, JMap [(''type'', JString ''InternalIP''), (''address'', JString ''10.0.0.9'')]]\<rparr>"

definition infra_tenv :: "unit tenv" where
  "infra_tenv = sample_tenv\<lparr>te_GetTinkerbellMachine := (\<lambda>_ w. (Inr sample_infra, w)),
     te_GetHardware := (\<lambda>_ w. (Inr sample_released, w))\<rparr>"

theorem resolveAddress_first_of_chain_witness:
  "fst (run_state (resolveAddress infra_tenv (sample_machine\<lparr>m_Addresses := [(MachineHostName, ''cp-1''), (MachineInternalIP, [])]\<rparr>))
      \<lparr>world = (), trace = []\<rparr>) = Inr []
   \<and> fst (run_state (resolveAddress infra_tenv (sample_machine\<lparr>m_Addresses := []\<rparr>)) \<lparr>world = (), trace = []\<rparr>) = Inr ''10.0.0.9''"
proof -
  let ?m = "\<lambda>as. sample_machine\<lparr>m_Addresses := as\<rparr>"
  have s: "status_addresses (?m as) = map snd (filter (\<lambda>(t, _). is_ip_type t) as)" for as
    by (simp add: status_addresses_def)
  have i: "infrastructure_addresses sample_infra = [''10.0.0.9'']" "m_InfraName (?m as) = ''cp-1''"
    "te_GetTinkerbellMachine infra_tenv k w = (Inr sample_infra, w)" for as k w
    by (simp_all add: infrastructure_addresses_def sample_infra_def json_string_def sample_machine_def infra_tenv_def)
  have run: "\<exists>r s'. run_state (resolveAddress infra_tenv (?m as)) \<lparr>world = (), trace = []\<rparr> = (r, s')" for as by fastforce
  from run [of "[(MachineHostName, ''cp-1''), (MachineInternalIP, [])]"] obtain r1 s1 where
    1: "run_state (resolveAddress infra_tenv (?m [(MachineHostName, ''cp-1''), (MachineInternalIP, [])])) \<lparr>world = (), trace = []\<rparr> = (r1, s1)"
    by blast
  from run [of "[]"] obtain r2 s2 where
    2: "run_state (resolveAddress infra_tenv (?m [])) \<lparr>world = (), trace = []\<rparr> = (r2, s2)" by blast
  from resolveAddress_first_of_chain [OF 1] resolveAddress_first_of_chain [OF 2] show ?thesis
    by (simp add: 1 2 s i is_ip_type_def)
qed

end
