(* ===== verification/TeardownProperties.thy ===== *)
theory TeardownProperties
  imports TeardownRefinement TeardownSample
begin

text \<open>
  The properties of the teardown controller, read off the protocol of \<open>TeardownProtocol\<close>. Each speaks of
  any run of \<open>ReconcileMachine\<close>, against any API server, any Talos nodes and any clock.
\<close>

lemma released_append [simp]: "released (us @ xs) \<longleftrightarrow> released us \<or> released xs"
  unfolding released_def set_append Un_iff by blast

lemma failed_patch_append [simp]: "failed_patch (us @ xs) \<longleftrightarrow> failed_patch us \<or> failed_patch xs"
  unfolding failed_patch_def set_append Un_iff by blast

text \<open>Calls that act on something: the API server's objects, an etcd cluster, a node.\<close>

definition acting :: "tcall \<Rightarrow> bool" where
  "acting x \<longleftrightarrow> is_patch x \<or> etcd_change x \<or> is_reset x \<or> (\<exists>a r. x = TDial a r)"

lemma acting_going: "permitted cfg us x \<Longrightarrow> acting x \<Longrightarrow> \<exists>m. going us m"
  by (cases x) (auto simp: acting_def etcd_change_permitted_def)

text \<open>Patches change one kind of key each, so the changed key tells which one it is.\<close>

lemma patch_released:
  assumes "patch_permitted cfg us m after" and "mhas (m_Annotations m) HookAnnotation" and "\<not> mhas after HookAnnotation"
  shows "in_turn m \<and> etcd_concluded m \<and> mhas (m_Annotations m) ResetAnnotation
    \<and> after = release_annotations (m_Annotations m)"
  using assms unfolding patch_permitted_def by auto

text \<open>C1: The hook is released last. A patch that takes the hook off a Machine comes only when the
  deletion waits for exactly this hook, every earlier patch was accepted, the reset conclusion is
  recorded on the object, and so is the etcd conclusion unless the Machine is a worker; and nothing
  that acts on the object, an etcd cluster or a node follows it.\<close>

theorem teardown_release_is_last:
  assumes "run_state (ReconcileMachine env cfg req) \<lparr>world = w, trace = []\<rparr> = (result, s')"
    and "trace s' = us @ TPatch k before after e # vs"
    and "mhas before HookAnnotation" and "\<not> mhas after HookAnnotation"
  shows "(\<exists>m. memory us = Some m \<and> m_Annotations m = before \<and> in_turn m
      \<and> mhas before ResetAnnotation \<and> (mhas before EtcdAnnotation \<or> \<not> IsControlPlane m))
    \<and> \<not> failed_patch us \<and> (\<forall>x \<in> set vs. \<not> acting x)"
proof (intro conjI)
  obtain m where m: "going us m" "before = m_Annotations m" "patch_permitted cfg us m after"
    using ReconcileMachine_permitted [OF assms(1,2)] by auto
  from patch_released [OF m(3)] assms(3,4) m(1,2)
  show "\<exists>m. memory us = Some m \<and> m_Annotations m = before \<and> in_turn m
      \<and> mhas before ResetAnnotation \<and> (mhas before EtcdAnnotation \<or> \<not> IsControlPlane m)"
    by (auto simp: going_def etcd_concluded_def)
  show "\<not> failed_patch us" using m(1) by (simp add: going_def)
  show "\<forall>x \<in> set vs. \<not> acting x"
  proof (rule ballI)
    fix x assume "x \<in> set vs"
    then obtain ys zs where vs: "vs = ys @ x # zs" by (meson split_list)
    let ?h = "us @ TPatch k before after e # ys"
    have "permitted cfg ?h x" by (rule ReconcileMachine_permitted [OF assms(1)]) (simp add: assms(2) vs)
    moreover have "released ?h" using assms(3,4) by (auto simp: released_def)
    ultimately show "\<not> acting x" using acting_going unfolding going_def by blast
  qed
qed

theorem teardown_release_is_last_witness:
  "\<exists>us vs m. sample_trace = us @ sample_patch sample_a3 sample_a4 # vs \<and> memory us = Some m \<and> in_turn m
     \<and> \<not> failed_patch us"
proof -
  obtain us vs where t: "sample_trace = us @ sample_patch sample_a3 sample_a4 # vs"
    using split_list [of "sample_patch sample_a3 sample_a4" sample_trace] by (auto simp: sample_trace_def)
  have run: "run_state (ReconcileMachine sample_tenv sample_cfg sample_req) \<lparr>world = (), trace = []\<rparr>
     = (Inr 0, \<lparr>world = (), trace = sample_trace\<rparr>)" by (rule sample_run)
  have "trace \<lparr>world = (), trace = sample_trace\<rparr>
      = us @ TPatch (m_key sample_machine) sample_a3 sample_a4 None # vs"
    using t by (simp add: sample_patch_def)
  from teardown_release_is_last [OF run this] t show ?thesis by auto
qed

text \<open>C9: No node is contacted, no etcd cluster changed and no node reset unless the deletion waits
  for this hook and for no other controller's, a phase is still to be concluded, and all patches so
  far were accepted: never before the drain, never while another pre-terminate hook is on the
  Machine, never again once both conclusions are recorded.\<close>

theorem teardown_acts_in_turn:
  assumes "run_state (ReconcileMachine env cfg req) \<lparr>world = w, trace = []\<rparr> = (result, s')"
    and "trace s' = us @ x # vs" and "etcd_change x \<or> is_reset x \<or> (\<exists>a r. x = TDial a r)"
  shows "\<exists>m. memory us = Some m \<and> HasHook m \<and> m_Deletion m \<noteq> None \<and> AtPreTerminate m
    \<and> \<not> HasOtherPreTerminateHooks m \<and> unfinished m \<and> \<not> failed_patch us \<and> \<not> released us"
  using ReconcileMachine_permitted [OF assms(1,2)] assms(3)
  by (cases x) (auto simp: etcd_change_permitted_def going_def in_turn_def unfinished_def etcd_concluded_def)

lemma sample_splits:
  "\<exists>us vs. sample_trace = us @ TRemove 2 7 (EtcdCallTimeout sample_cfg) None # vs"
  "\<exists>us vs. sample_trace = us @ TReset 1 reset_request_sent (ResetCallTimeout sample_cfg) None # vs"
  "\<exists>us vs. sample_trace = us @ TPatch (m_key sample_machine) sample_a1 sample_a2 None # vs"
  "\<exists>us vs. sample_trace = us @ TPatch (m_key sample_machine) sample_a3 sample_a4 None # vs"
  by (rule split_list, simp add: sample_trace_def removal_trace_def reset_trace_def sample_patch_def)+

theorem teardown_acts_in_turn_witness:
  "\<exists>us vs m. sample_trace = us @ TReset 1 reset_request_sent (ResetCallTimeout sample_cfg) None # vs
     \<and> memory us = Some m \<and> AtPreTerminate m \<and> unfinished m"
proof -
  obtain us vs where t: "sample_trace = us @ TReset 1 reset_request_sent (ResetCallTimeout sample_cfg) None # vs"
    using sample_splits(2) by blast
  have "trace \<lparr>world = (), trace = sample_trace\<rparr> = us @ TReset 1 reset_request_sent (ResetCallTimeout sample_cfg) None # vs"
    using t by simp
  from teardown_acts_in_turn [OF sample_run this] t show ?thesis by auto
qed

text \<open>C2: Verify, then act. A call that changes an etcd cluster (forfeit, leave, remove) comes only
  for a control-plane Machine without a recorded etcd conclusion, whose Cluster was read in this very
  reconcile and is not being deleted, which no other deleting Machine of its list precedes; and only
  after a healthy peer was asked: another control-plane Machine of the same cluster, neither deleting
  nor leaving etcd, was dialled at a non-empty address looked up for it, its node reported a running
  and healthy etcd and then a member list, and in that list the victim's host names were found. A
  removal goes to that very client, with the identifier of that member.\<close>

theorem etcd_changes_are_verified:
  assumes "run_state (ReconcileMachine env cfg req) \<lparr>world = w, trace = []\<rparr> = (result, s')"
    and "trace s' = us @ x # vs" and "etcd_change x"
  shows "\<exists>m c resp member peers p a svcs ps qs.
      memory us = Some m \<and> IsControlPlane m \<and> \<not> mhas (m_Annotations m) EtcdAnnotation
    \<and> cluster_alive us m \<and> not_held us m
    \<and> TListPeers m (Inr peers) \<in> set us \<and> p \<in> set peers
    \<and> m_Name p \<noteq> m_Name m \<and> m_Deletion p = None \<and> \<not> mhas (m_Annotations p) EtcdLeavingAnnotation
    \<and> a \<noteq> [] \<and> resolves ps p a \<and> etcdHealthy svcs
    \<and> us = ps @ [TDial a (Inr c), TServiceInfo c (EtcdCallTimeout cfg) (Inr svcs),
         TMemberList c (EtcdCallTimeout cfg) (Inr resp)] @ qs
    \<and> findMember resp (hostnameCandidates m) = Some member
    \<and> (\<forall>c' i d e. x = TRemove c' i d e \<longrightarrow> c' = c \<and> i = MemberId member)"
proof -
  have "etcd_change_permitted cfg us x"
    using ReconcileMachine_permitted [OF assms(1,2)] assms(3) by (cases x) auto
  then obtain m c resp where m: "memory us = Some m" "IsControlPlane m" "\<not> mhas (m_Annotations m) EtcdAnnotation"
    "cluster_alive us m" "not_held us m" and h: "healthy_peer (EtcdCallTimeout cfg) m c resp us"
    and j: "justified (EtcdCallTimeout cfg) m x c resp"
    by (auto simp: etcd_change_permitted_def going_def)
  from j obtain member where "findMember resp (hostnameCandidates m) = Some member"
    "\<forall>c' i d e. x = TRemove c' i d e \<longrightarrow> c' = c \<and> i = MemberId member"
    by (cases x) (auto simp: justified_def)
  with m h show ?thesis unfolding healthy_peer_def probed_def in_a_row_def by blast
qed

theorem etcd_changes_are_verified_witness:
  "\<exists>us vs m resp member. sample_trace = us @ TRemove 2 7 (EtcdCallTimeout sample_cfg) None # vs
     \<and> memory us = Some m \<and> findMember resp (hostnameCandidates m) = Some member \<and> MemberId member = 7"
proof -
  obtain us vs where t: "sample_trace = us @ TRemove 2 7 (EtcdCallTimeout sample_cfg) None # vs"
    using sample_splits(1) by blast
  have "trace \<lparr>world = (), trace = sample_trace\<rparr> = us @ TRemove 2 7 (EtcdCallTimeout sample_cfg) None # vs"
    using t by simp
  from etcd_changes_are_verified [OF sample_run this] t show ?thesis by fastforce
qed

text \<open>C5: A reset is sent once per reconcile at most, wipes exactly STATE and EPHEMERAL without a
  graceful leave and without a reboot, carries the reset time-out, and comes only when no reset
  conclusion is recorded and the etcd phase is concluded on the object (or the Machine is a worker);
  after it nothing changes an etcd cluster any more.\<close>

theorem reset_once_after_etcd:
  assumes "run_state (ReconcileMachine env cfg req) \<lparr>world = w, trace = []\<rparr> = (result, s')"
    and "trace s' = us @ TReset c request d e # vs"
  shows "(\<exists>m. memory us = Some m \<and> \<not> mhas (m_Annotations m) ResetAnnotation
      \<and> (mhas (m_Annotations m) EtcdAnnotation \<or> \<not> IsControlPlane m))
    \<and> \<not> Graceful request \<and> \<not> Reboot request \<and> d = ResetCallTimeout cfg
    \<and> map PartLabel (SystemPartitionsToWipe request) = [''STATE'', ''EPHEMERAL'']
    \<and> (\<forall>p \<in> set (SystemPartitionsToWipe request). PartWipe p)
    \<and> (\<forall>x \<in> set us. \<not> is_reset x) \<and> (\<forall>x \<in> set vs. \<not> is_reset x \<and> \<not> etcd_change x)"
proof -
  have p: "permitted cfg us (TReset c request d e)" by (rule ReconcileMachine_permitted [OF assms])
  then have r: "request = reset_request_sent" "d = ResetCallTimeout cfg" "\<not> was_reset us"
    "\<exists>m. memory us = Some m \<and> \<not> mhas (m_Annotations m) ResetAnnotation
      \<and> (mhas (m_Annotations m) EtcdAnnotation \<or> \<not> IsControlPlane m)"
    by (auto simp: going_def etcd_concluded_def)
  have later: "\<not> is_reset x \<and> \<not> etcd_change x" if "x \<in> set vs" for x
  proof -
    from that obtain ys zs where vs: "vs = ys @ x # zs" by (meson split_list)
    let ?h = "us @ TReset c request d e # ys"
    have "permitted cfg ?h x" by (rule ReconcileMachine_permitted [OF assms(1)]) (simp add: assms(2) vs)
    moreover have "was_reset ?h" by simp
    ultimately show ?thesis by (cases x) (auto simp: etcd_change_permitted_def)
  qed
  show ?thesis
    using r(3,4) later by (auto simp: r(1,2) reset_request_sent_def was_reset_def)
qed

theorem reset_once_after_etcd_witness:
  "\<exists>us vs. sample_trace = us @ TReset 1 reset_request_sent (ResetCallTimeout sample_cfg) None # vs
     \<and> (\<forall>x \<in> set vs. \<not> is_reset x \<and> \<not> etcd_change x)"
proof -
  obtain us vs where t: "sample_trace = us @ TReset 1 reset_request_sent (ResetCallTimeout sample_cfg) None # vs"
    using sample_splits(2) by blast
  have "trace \<lparr>world = (), trace = sample_trace\<rparr> = us @ TReset 1 reset_request_sent (ResetCallTimeout sample_cfg) None # vs"
    using t by simp
  from reset_once_after_etcd [OF sample_run this] t show ?thesis by blast
qed

text \<open>C12: A conclusion is recorded only when it was earned. \<open>not-member\<close>: a healthy peer's member list
  lacks the victim; \<open>left\<close>: a leave was acknowledged by a node at an address looked up for the Machine;
  \<open>removed\<close>: a healthy peer that listed the victim acknowledged the removal of that member; \<open>orphaned\<close>:
  the clock was read past the etcd deadline; \<open>skipped-cluster-delete\<close>: the Cluster was gone or being
  deleted. \<open>done\<close>: the wiping reset was acknowledged by a node at an address looked up for the Machine; \<open>skipped-timeout\<close>: the clock was read past the
  reset deadline; \<open>skipped-no-address\<close>: no reset was sent, and the reads of this reconcile found no
  address for the Machine in any source. No other value is ever written.\<close>

theorem conclusions_are_earned:
  assumes "run_state (ReconcileMachine env cfg req) \<lparr>world = w, trace = []\<rparr> = (result, s')"
    and "trace s' = us @ TPatch k before after e # vs"
  shows "(\<forall>v. map_of after EtcdAnnotation = Some v \<and> map_of before EtcdAnnotation \<noteq> Some v \<longrightarrow>
      (\<exists>m. memory us = Some m \<and> etcd_outcome cfg us m v))
    \<and> (\<forall>v. map_of after ResetAnnotation = Some v \<and> map_of before ResetAnnotation \<noteq> Some v \<longrightarrow>
      (\<exists>m. memory us = Some m \<and> reset_outcome cfg us m v))"
proof -
  obtain m where m: "memory us = Some m" "before = m_Annotations m" "patch_permitted cfg us m after"
    using ReconcileMachine_permitted [OF assms] by (auto simp: going_def)
  from m(3) show ?thesis
    unfolding patch_permitted_def m(1,2) by (auto simp: stamp_annotations_def release_annotations_def Let_def)
qed

theorem conclusions_are_earned_witness:
  "\<exists>us vs m. sample_trace = us @ TPatch (m_key sample_machine) sample_a1 sample_a2 None # vs
     \<and> memory us = Some m \<and> etcd_outcome sample_cfg us m EtcdRemoved"
proof -
  obtain us vs where t: "sample_trace = us @ TPatch (m_key sample_machine) sample_a1 sample_a2 None # vs"
    using sample_splits(3) by blast
  have k: "map_of sample_a2 EtcdAnnotation = Some EtcdRemoved" "map_of sample_a1 EtcdAnnotation \<noteq> Some EtcdRemoved"
    by (simp add: sample_a2_def) (use sample_keys(9) in \<open>simp add: mhas_def\<close>)
  have "trace \<lparr>world = (), trace = sample_trace\<rparr> = us @ TPatch (m_key sample_machine) sample_a1 sample_a2 None # vs"
    using t by simp
  from conclusions_are_earned [OF sample_run this] k t show ?thesis by blast
qed

text \<open>C23: The controller's writes keep every other controller's annotations: a patch changes nothing
  but the phase keys, its own hook and left-overs that carry its hook value. In particular a foreign
  pre-terminate hook stays where it is.\<close>

theorem patches_keep_foreign_annotations:
  assumes "run_state (ReconcileMachine env cfg req) \<lparr>world = w, trace = []\<rparr> = (result, s')"
    and "trace s' = us @ TPatch k before after e # vs" and "wf_gomap before"
    and "key \<notin> {ObservedAtAnnotation, EtcdAnnotation, ResetAnnotation, HookAnnotation}"
    and "HasPrefix key PreTerminatePrefix \<longrightarrow> map_of before key \<noteq> Some HookValue"
  shows "map_of after key = map_of before key"
proof -
  obtain m where m: "before = m_Annotations m" "patch_permitted cfg us m after"
    using ReconcileMachine_permitted [OF assms(1,2)] by auto
  have own: "\<not> own_hook_key key (map_of before key)" using assms(4,5) by (auto simp: own_hook_key_def)
  from m(2) consider "after = stamp_annotations before" | "after = release_annotations before"
    | k v where "k \<in> {ObservedAtAnnotation, EtcdAnnotation, ResetAnnotation}" "after = mput k v before"
    unfolding patch_permitted_def m(1) by blast
  then show ?thesis
  proof cases
    case 1
    with stamp_writer.frame [OF assms(3) own] show ?thesis by simp
  next
    case 2
    with release_writer.frame [OF assms(3) own] show ?thesis by simp
  next
    case (3 k v)
    with assms(4) have "key \<noteq> k" by blast
    with phase_writer.frame [OF assms(3)] 3 show ?thesis by simp
  qed
qed

lemma sample_a3_wf: "wf_gomap sample_a3"
  unfolding sample_a3_def sample_a2_def sample_a1_def
  by (intro wf_gomap_mput) (simp add: sample_a0_def wf_gomap_def)

theorem patches_keep_foreign_annotations_witness:
  "map_of sample_a4 ''foreign.example.org/key'' = map_of sample_a3 ''foreign.example.org/key''"
proof -
  obtain us vs where t: "sample_trace = us @ TPatch (m_key sample_machine) sample_a3 sample_a4 None # vs"
    using sample_splits(4) by blast
  have "trace \<lparr>world = (), trace = sample_trace\<rparr> = us @ TPatch (m_key sample_machine) sample_a3 sample_a4 None # vs"
    using t by simp
  from patches_keep_foreign_annotations [OF sample_run this sample_a3_wf] show ?thesis
    by (simp add: ObservedAtAnnotation_def EtcdAnnotation_def ResetAnnotation_def HookAnnotation_def
        PreTerminatePrefix_def HasPrefix_def)
qed

text \<open>C22: A release opens the gate completely: after it the Machine carries no pre-terminate hook at
  all, neither the controller's own, nor one left over from before its rename, nor a foreign one, so
  the Machine controller goes on to delete the infrastructure.\<close>

theorem release_leaves_no_hook:
  assumes "run_state (ReconcileMachine env cfg req) \<lparr>world = w, trace = []\<rparr> = (result, s')"
    and "trace s' = us @ TPatch k before after e # vs" and "wf_gomap before"
    and "mhas before HookAnnotation" and "\<not> mhas after HookAnnotation"
  shows "\<forall>key. HasPrefix key PreTerminatePrefix \<longrightarrow> \<not> mhas after key"
proof (intro allI impI)
  fix key assume key: "HasPrefix key PreTerminatePrefix"
  obtain m where m: "before = m_Annotations m" "patch_permitted cfg us m after"
    using ReconcileMachine_permitted [OF assms(1,2)] by auto
  from patch_released [OF m(2)] assms(4,5) m(1)
  have r: "after = release_annotations before" and o1: "\<not> other_hooks_in before"
    by (auto simp: in_turn_def HasOtherPreTerminateHooks_def)
  have "map_of before key = Some v \<Longrightarrow> key = HookAnnotation \<or> v = HookValue" for v
    using o1 key by (auto simp: other_hooks_iff dest: map_of_SomeD)
  then show "\<not> mhas after key"
    using key by (cases "map_of before key") (auto simp: r mhas_def release_lookup [OF assms(3)])
qed

theorem release_leaves_no_hook_witness:
  "\<not> mhas sample_a4 (PreTerminatePrefix @ ''/old-name'')"
proof -
  obtain us vs where t: "sample_trace = us @ TPatch (m_key sample_machine) sample_a3 sample_a4 None # vs"
    using sample_splits(4) by blast
  have "trace \<lparr>world = (), trace = sample_trace\<rparr> = us @ TPatch (m_key sample_machine) sample_a3 sample_a4 None # vs"
    using t by simp
  from release_leaves_no_hook [OF sample_run this sample_a3_wf] show ?thesis
    by (simp add: HasPrefix_def)
qed

text \<open>C21: The hook is put on a Machine only while the deletion, if there is one, has not passed the
  pre-terminate wait, so a Machine whose hardware is being powered off is never parked again; and never
  on a deleting Machine whose reset is already concluded, which would loop with the release.\<close>

theorem hook_stamped_only_before_the_gate:
  assumes "run_state (ReconcileMachine env cfg req) \<lparr>world = w, trace = []\<rparr> = (result, s')"
    and "trace s' = us @ TPatch k before after e # vs"
    and "\<not> mhas before HookAnnotation" and "mhas after HookAnnotation"
  shows "\<exists>m. memory us = Some m \<and> (m_Deletion m = None \<or> \<not> mhas before ResetAnnotation \<and>
      deletingReason m \<in> {NoReason, MachineDeletingReason, MachineDeletingWaitingForPreDrainHookReason,
        MachineDeletingDrainingNodeReason, MachineDeletingWaitingForVolumeDetachReason,
        MachineDeletingWaitingForPreTerminateHookReason})"
proof -
  obtain m where m: "memory us = Some m" "before = m_Annotations m" "patch_permitted cfg us m after"
    using ReconcileMachine_permitted [OF assms(1,2)] by (auto simp: going_def)
  with assms(3,4) have "StampAllowed m" "m_Deletion m = None \<or> \<not> mhas before ResetAnnotation"
    by (auto simp: patch_permitted_def in_turn_def HasHook_def)
  then show ?thesis
    using m(1) by (auto simp: StampAllowed_def Let_def elim: preTerminateOrEarlier.elims split: if_splits)
qed

text \<open>A Machine that has just been created, for the witness.\<close>

definition fresh_machine :: machine where
  "fresh_machine = SetAnnotations [] (sample_machine\<lparr>m_Meta := (m_Meta sample_machine)\<lparr>om_DeletionTimestamp := None\<rparr>\<rparr>)"

definition fresh_tenv :: "unit tenv" where
  "fresh_tenv = sample_tenv\<lparr>te_GetMachine := (\<lambda>_ w. (Inr fresh_machine, w))\<rparr>"

definition fresh_trace :: "tcall list" where
  "fresh_trace = [TGetMachine sample_req (Inr fresh_machine),
     TPatch (m_key fresh_machine) [] (stamp_annotations []) None, TEvent (m_key fresh_machine) ''Normal'' EventHookStamped,
     TGetSecret (sourceSecretName (clusterKeyFor fresh_machine)) (Inr sample_secret),
     TGetSecret (cached_key (CacheNamespace sample_cfg) (clusterKeyFor fresh_machine)) (Inr sample_secret)]"

lemma fresh_run:
  "run_state (ReconcileMachine fresh_tenv sample_cfg sample_req) \<lparr>world = (), trace = []\<rparr>
     = (Inr 0, \<lparr>world = (), trace = fresh_trace\<rparr>)"
proof -
  have f: "Qualifies fresh_machine" "m_Deletion fresh_machine = None" "\<not> HasHook fresh_machine"
    "StampAllowed fresh_machine" "m_Annotations fresh_machine = []"
    by (simp_all add: fresh_machine_def StampAllowed_def mhas_def Qualifies_def sample_machine_def SetAnnotations_def
        HasHook_def)
  have get: "te_GetMachine fresh_tenv = (\<lambda>_ w. (Inr fresh_machine, w))" by (simp add: fresh_tenv_def)
  have hook: "run_state (ensureHook fresh_tenv fresh_machine) \<lparr>world = (), trace = xs\<rparr>
     = ((SetAnnotations (stamp_annotations []) fresh_machine, None), \<lparr>world = (), trace = xs @
         [TPatch (m_key fresh_machine) [] (stamp_annotations []) None, TEvent (m_key fresh_machine) ''Normal'' EventHookStamped]\<rparr>)" for xs
    by (simp add: ensureHook_def f patchAnnotations_def hook_stamp_def event_def fresh_tenv_def)
  have cred: "run_state (ensureCredentials fresh_tenv sample_cfg (SetAnnotations a fresh_machine)) \<lparr>world = (), trace = xs\<rparr>
     = (None, \<lparr>world = (), trace = xs @ [TGetSecret (sourceSecretName (clusterKeyFor fresh_machine)) (Inr sample_secret),
         TGetSecret (cached_key (CacheNamespace sample_cfg) (clusterKeyFor fresh_machine)) (Inr sample_secret)]\<rparr>)" for a xs
    by (simp add: ensureCredentials_def Ensure_def Let_def fresh_tenv_def sample_secret_def new_meta_def mget_def)
  show ?thesis
    by (simp add: ReconcileMachine_def get f reconcileNormal_def hook cred fresh_trace_def)
qed

theorem hook_stamped_only_before_the_gate_witness:
  "\<exists>us vs m. fresh_trace = us @ TPatch (m_key fresh_machine) [] (stamp_annotations []) None # vs
     \<and> memory us = Some m"
proof -
  obtain us vs where t: "fresh_trace = us @ TPatch (m_key fresh_machine) [] (stamp_annotations []) None # vs"
    using split_list [of "TPatch (m_key fresh_machine) [] (stamp_annotations []) None" fresh_trace]
    by (auto simp: fresh_trace_def)
  have "trace \<lparr>world = (), trace = fresh_trace\<rparr> = us @ TPatch (m_key fresh_machine) [] (stamp_annotations []) None # vs"
    using t by simp
  moreover have "\<not> mhas [] HookAnnotation" by (simp add: mhas_def)
  ultimately show ?thesis using hook_stamped_only_before_the_gate [OF fresh_run] t by fastforce
qed

text \<open>C18: Every Talos client a reconcile dials is closed again, on every path: for each client the
  reconcile closes it exactly as often as it dialled it.\<close>

theorem teardown_closes_clients:
  assumes "run_state (ReconcileMachine env cfg req) \<lparr>world = w, trace = []\<rparr> = (result, s')"
  shows "open_count c (trace s') = 0"
  using ReconcileMachine_trace [OF assms] by (simp add: balanced_def)

theorem teardown_closes_clients_witness:
  "TDial ''10.0.0.1'' (Inr 1) \<in> set sample_trace \<and> open_count 1 sample_trace = 0"
  using teardown_closes_clients [OF sample_run, of 1] by (simp add: sample_trace_def reset_trace_def)

text \<open>C35: A Machine that the teardown has concluded and released is left alone: as long as its
  deletion lasts, a reconcile reads it and does nothing else, so release and stamp cannot alternate.\<close>

theorem released_machine_is_left_alone:
  assumes "fst (te_GetMachine env req (world s)) = Inr m" and "m_Deletion m \<noteq> None"
    and "\<not> HasHook m" and "mhas (m_Annotations m) ResetAnnotation"
    and "run_state (ReconcileMachine env cfg req) s = (result, s')"
  shows "result = Inr 0 \<and> trace s' = trace s @ [TGetMachine req (Inr m)]"
proof -
  obtain w where g: "te_GetMachine env req (world s) = (Inr m, w)" using assms(1) by (metis prod.collapse)
  with assms(2-5) show ?thesis
    by (auto simp: ReconcileMachine_def reconcileDeleting_def split: if_splits)
qed

theorem released_machine_is_left_alone_witness:
  "fst (run_state (ReconcileMachine (sample_tenv\<lparr>te_GetMachine := (\<lambda>_ w. (Inr (SetAnnotations sample_a4 sample_machine), w))\<rparr>)
     sample_cfg sample_req) \<lparr>world = (), trace = []\<rparr>) = Inr 0"
proof -
  let ?env = "sample_tenv\<lparr>te_GetMachine := (\<lambda>_ w. (Inr (SetAnnotations sample_a4 sample_machine), w))\<rparr>"
  let ?m = "SetAnnotations sample_a4 sample_machine"
  obtain r s' where run: "run_state (ReconcileMachine ?env sample_cfg sample_req) \<lparr>world = (), trace = []\<rparr> = (r, s')"
    by fastforce
  have "m_Deletion ?m \<noteq> None" "\<not> HasHook ?m" "mhas (m_Annotations ?m) ResetAnnotation"
    by (simp_all add: sample_turn sample_a4_def HasHook_def)
  from released_machine_is_left_alone [OF _ this run] run show ?thesis by simp
qed

text \<open>Restarts do not reset the phase clock: once the controller has stamped the start of the
  wait, a later reconcile of the Machine, in a new process and at any later time, reads back exactly
  that start and makes no call.\<close>

theorem phase_clock_survives_restart:
  assumes "0 \<le> year_of now" and "year_of now \<le> 9999"
    and "map_of (m_Annotations m) ObservedAtAnnotation = Some (FormatRFC3339 (TruncateSecond now))"
  shows "run_state (ensureObservedAt env m) s = ((m, Inr (TruncateSecond now)), s)"
proof -
  have "TruncateSecond (TruncateSecond now) = TruncateSecond now" by (simp add: TruncateSecond_def)
  with Parse_Format_RFC3339 [of "TruncateSecond now"] assms(1,2)
  have "ParseRFC3339 (FormatRFC3339 (TruncateSecond now)) = Some (TruncateSecond now)"
    by (simp add: year_of_TruncateSecond)
  with assms(3) show ?thesis by (simp add: ensureObservedAt_def Let_def)
qed

theorem phase_clock_survives_restart_witness:
  "run_state (ensureObservedAt sample_tenv (SetAnnotations sample_a1 sample_machine)) \<lparr>world = (), trace = []\<rparr>
     = ((SetAnnotations sample_a1 sample_machine, Inr (TruncateSecond 1000000000)), \<lparr>world = (), trace = []\<rparr>)"
proof (rule phase_clock_survives_restart)
  show "0 \<le> year_of 1000000000" "year_of 1000000000 \<le> 9999" by code_simp+
qed (simp add: sample_a1_def)



text \<open>C40: The candidates for the healthy peer. Of the listed Machines they are exactly those of another
  name that are not being deleted and that no other controller has marked as leaving etcd, each as often as it was
  listed; the ones with a node come before the ones without, and each group is ordered from the
  oldest to the youngest, by name among equals.\<close>

theorem orderPeers_spec:
  "\<exists>with without. orderPeers machines victim = with @ without
    \<and> mset (with @ without) = {# m \<in># mset machines. m_Name m \<noteq> m_Name victim \<and> m_Deletion m = None
        \<and> \<not> mhas (m_Annotations m) EtcdLeavingAnnotation #}
    \<and> list_all (\<lambda>m. m_NodeRefName m \<noteq> []) with \<and> list_all (\<lambda>m. m_NodeRefName m = []) without
    \<and> sorted_wrt (\<lambda>a b. Before (m_Creation a) (m_Creation b) \<or> m_Creation a = m_Creation b \<and> m_Name a \<le> m_Name b) with
    \<and> sorted_wrt (\<lambda>a b. Before (m_Creation a) (m_Creation b) \<or> m_Creation a = m_Creation b \<and> m_Name a \<le> m_Name b) without"
proof -
  let ?a = "filter (\<lambda>m. peer_candidate victim m \<and> m_NodeRefName m \<noteq> []) machines"
  let ?b = "filter (\<lambda>m. peer_candidate victim m \<and> m_NodeRefName m = []) machines"
  have "mset ?a + mset ?b = mset (filter (peer_candidate victim) machines)"
    by (induction machines) auto
  also have "\<dots> = {# m \<in># mset machines. m_Name m \<noteq> m_Name victim \<and> m_Deletion m = None
        \<and> \<not> mhas (m_Annotations m) EtcdLeavingAnnotation #}"
    by (simp add: peer_candidate_def)
  finally show ?thesis
    by (intro exI [of _ "sortByAge ?a"] exI [of _ "sortByAge ?b"])
      (auto simp: orderPeers_def partition_peers_filter sortByAge_def age.mset_sort_slice
        age.set_sort_slice age.sorted_sort_slice list_all_iff simp flip: sorted_age)
qed

section \<open>Failing open\<close>

text \<open>
  What the controller needs to finish a teardown that no node supports any more: an API server that
  answers and accepts its patches, the turn, and a clock past both deadlines. Nothing is assumed of
  the Talos nodes, of the credential store or of the address lookups, nor of what the list of Machines
  says: a control-plane Machine that an older deletion holds is told to come back, deadline or not.
\<close>

definition api_server_works :: "'w tenv \<Rightarrow> machine \<Rightarrow> bool" where
  "api_server_works env m \<longleftrightarrow> (\<forall>m. te_NewHelper env m = None) \<and> (\<forall>b a w. fst (te_Patch env b a w) = None)
     \<and> (\<forall>w. case fst (te_GetCluster env (clusterKeyFor m) w) of Inl err \<Rightarrow> IsNotFound err | Inr _ \<Rightarrow> True)
     \<and> (\<forall>ns ls hs w. \<exists>peers. fst (te_ListMachines env ns ls hs w) = Inr peers)"

definition deadlines_passed :: "'w tenv \<Rightarrow> teardown_config \<Rightarrow> time \<Rightarrow> bool" where
  "deadlines_passed env cfg start \<longleftrightarrow> (\<forall>w. After (fst (te_Now env w)) (Add start (EtcdTimeout cfg))
     \<and> After (fst (te_Now env w)) (Add start (ResetTimeout cfg)))"

lemma patch_works:
  assumes "api_server_works env m0" and "mutate (m_Annotations m) = Some a"
  shows "yields (patchAnnotations env m mutate) (\<lambda>r xs. r = (SetAnnotations a m, None)
    \<and> xs = [TPatch (m_key m) (m_Annotations m) a None])"
  using assms unfolding patchAnnotations_def api_server_works_def
  by (auto intro!: yields_bind_extcall yields_return)

lemma stamp_works:
  assumes "api_server_works env m0" and "\<not> mhas (m_Annotations m) k" and "v \<noteq> []"
  shows "yields (stampPhase env m k v) (\<lambda>r _. r = (SetAnnotations (mput k v (m_Annotations m)) m, None))"
  unfolding stampPhase_def
  by (rule yields_weaken [OF patch_works [OF assms(1)]]) (use assms in \<open>auto simp: mget_absent\<close>)

lemma yields_any: "yields m (\<lambda>_ _. True) \<Longrightarrow> (\<And>r. yields (f r) Q) \<Longrightarrow> (\<And>r xs ys. Q r ys \<Longrightarrow> Q r (xs @ ys))
    \<Longrightarrow> yields (State_Monad.bind m f) Q"
  by (rule yields_bind_prefix [where Q' = Q]) auto

definition concluded_with :: "string \<Rightarrow> machine \<Rightarrow> machine \<times> (go_error + duration) \<Rightarrow> bool" where
  "concluded_with k m r \<longleftrightarrow> snd r = Inr 0
     \<and> (fst r = m \<or> (\<exists>v. fst r = SetAnnotations (mput k v (m_Annotations m)) m))"

text \<open>The Machine is told to wait because a list shows an older deletion.\<close>

definition held_back :: "machine \<Rightarrow> go_error + duration \<Rightarrow> tcall list \<Rightarrow> bool" where
  "held_back m r xs \<longleftrightarrow> r = Inr hookWaitRequeue \<and> IsControlPlane m \<and> \<not> mhas (m_Annotations m) EtcdAnnotation
     \<and> (\<exists>peers. TListPeers m (Inr peers) \<in> set xs \<and> held_by m peers)"

lemma held_back_grows: "held_back m r xs \<Longrightarrow> held_back m r (us @ xs @ vs)"
  by (auto simp: held_back_def)

lemma hookWaitRequeue_nonzero [simp]: "hookWaitRequeue \<noteq> 0" "0 \<noteq> hookWaitRequeue"
  by (simp_all add: hookWaitRequeue_def Second_def)

lemma conclude_etcd_works:
  assumes "api_server_works env m0" and "\<not> mhas (m_Annotations m) EtcdAnnotation" and "v \<noteq> []"
  shows "yields (conclude_etcd env m v) (\<lambda>r _. concluded_with EtcdAnnotation m r)"
proof -
  have n: "yields (recordEtcdOutcome m' v) (\<lambda>_ _. True)" for m' :: machine
    unfolding recordEtcdOutcome_def event_def
    by (intro yields_bind_emit yields_branch yields_return yields_weaken [OF yields_emit]) auto
  show ?thesis
    unfolding conclude_etcd_def
    by (rule yields_bind [OF stamp_works [OF assms]])
      (auto simp: concluded_with_def intro!: yields_any [OF n] yields_return)
qed

lemma etcdPhase_fails_open:
  assumes w: "api_server_works env m0" and d: "deadlines_passed env cfg start"
  shows "yields (etcdPhase env cfg m start deleting) (\<lambda>r xs. concluded_with EtcdAnnotation m r \<or> held_back m (snd r) xs)"
proof (cases "mhas (m_Annotations m) EtcdAnnotation")
  case True
  then show ?thesis by (auto simp: etcdPhase_def concluded_with_def intro: yields_return)
next
  case a: False
  have attempt: "yields (tryEtcdRemoval env cfg m) (\<lambda>r _. \<forall>v. r = Inr v \<longrightarrow> v \<noteq> [])"
    by (rule yields_weaken [OF tryEtcdRemoval_calls])
      (auto simp: removal_result_def removal_outcome_def conclusion_defs)
  have rem: "yields (ensureEtcdRemoved env cfg m start) (\<lambda>r _. concluded_with EtcdAnnotation m r)"
    unfolding ensureEtcdRemoved_def Let_def now_call_def event_def
    by (intro yields_bind [OF attempt] yields_branch yields_bind_extcall yields_bind_emit
        conclude_etcd_works [OF w a]) (use d in \<open>auto simp: deadlines_passed_def\<close>)
  have skip: "yields (do {
        (m, e) \<leftarrow> stampPhase env m EtcdAnnotation EtcdSkippedClusterDelete;
        case e of
          Some err \<Rightarrow> State_Monad.return (m, Inl err)
        | None \<Rightarrow> do {
            event m ''Normal'' EventEtcdSkippedClusterDelete;
            emit (TMetric ''teardown_etcd_total'' EtcdSkippedClusterDelete);
            State_Monad.return (m, Inr 0)
          }
      }) (\<lambda>r _. concluded_with EtcdAnnotation m r)"
    unfolding event_def
    by (rule yields_bind [OF stamp_works [OF w a]])
      (auto simp: concluded_with_def intro!: yields_bind_emit yields_return)
  have ser: "yields (serializeControlPlane env m) (\<lambda>r xs. r = Inr 0
      \<or> r = Inr hookWaitRequeue \<and> (\<exists>peers. TListPeers m (Inr peers) \<in> set xs \<and> held_by m peers))"
    unfolding serializeControlPlane_def listControlPlaneMachines_def
  proof (intro yields_bind_extcall yields_return, goal_cases)
    case (1 x)
    from w obtain peers where "fst (te_ListMachines env (m_Namespace m)
        [(CapiClusterNameLabel, key_name (clusterKeyFor m))] [MachineControlPlaneLabel] x) = Inr peers"
      unfolding api_server_works_def by blast
    then show ?case by simp
  qed
  have cp: "yields (do { r \<leftarrow> serializeControlPlane env m;
        if r = Inr 0 then ensureEtcdRemoved env cfg m start else State_Monad.return (m, r) })
      (\<lambda>r xs. concluded_with EtcdAnnotation m r \<or> held_back m (snd r) xs)" if "IsControlPlane m"
  proof (rule yields_bind [OF ser], goal_cases)
    case (1 r xs)
    then show ?case
    proof
      assume "r = Inr 0"
      then show ?thesis by (auto intro: yields_weaken [OF rem])
    next
      assume "r = Inr hookWaitRequeue \<and> (\<exists>peers. TListPeers m (Inr peers) \<in> set xs \<and> held_by m peers)"
      with a that show ?thesis by (auto simp: held_back_def intro!: yields_return)
    qed
  qed
  consider deleting | "\<not> deleting" "\<not> IsControlPlane m" | "\<not> deleting" "IsControlPlane m" by blast
  then show ?thesis
  proof cases
    case 1
    show ?thesis using yields_weaken [OF skip] 1 a by (simp add: etcdPhase_def)
  qed (use a cp in \<open>simp_all add: etcdPhase_def concluded_with_def yields_return\<close>)
qed

lemma resetPhase_fails_open:
  assumes w: "api_server_works env m0" and d: "deadlines_passed env cfg start"
  shows "yields (resetPhase env cfg m start) (\<lambda>r _. snd r = None
    \<and> (fst r = m \<or> (\<exists>v. fst r = SetAnnotations (mput ResetAnnotation v (m_Annotations m)) m)))"
proof (cases "mhas (m_Annotations m) ResetAnnotation")
  case True
  then show ?thesis by (auto simp: resetPhase_def intro: yields_return)
next
  case a: False
  have attempt: "yields (tryReset env cfg m) (\<lambda>r _. \<forall>v. r = Inr v \<longrightarrow> v \<noteq> [])"
    by (rule yields_weaken [OF tryReset_calls]) (auto simp: reset_result_def conclusion_defs)
  have con: "yields (conclude_reset env m v) (\<lambda>r _. snd r = None
      \<and> (fst r = m \<or> (\<exists>v. fst r = SetAnnotations (mput ResetAnnotation v (m_Annotations m)) m)))" if "v \<noteq> []" for v
  proof -
    have n: "yields (if b then emit x else State_Monad.return ()) (\<lambda>_ _. True)" for b and x :: tcall
      by (intro yields_branch yields_return yields_weaken [OF yields_emit]) auto
    show ?thesis
      unfolding conclude_reset_def event_def
      by (rule yields_bind [OF stamp_works [OF w a that]])
        (auto intro!: yields_bind_emit yields_any [OF n] yields_return)
  qed
  show ?thesis
    unfolding resetPhase_def Let_def now_call_def event_def using a
    by (intro yields_branch yields_return yields_bind [OF attempt] yields_bind_extcall yields_bind_emit con)
      (use d in \<open>auto simp: deadlines_passed_def conclusion_defs\<close>)
qed

lemma preTerminate_fails_open:
  assumes w: "api_server_works env m" and d: "deadlines_passed env cfg start" and t: "in_turn m"
    and st: "map_of (m_Annotations m) ObservedAtAnnotation = Some v" "ParseRFC3339 v = Some start"
  shows "yields (preTerminate env cfg m) (\<lambda>r xs. snd r = Inr 0 \<and> released xs \<or> held_back m (snd r) xs)"
proof -
  have obs: "ensureObservedAt env m = State_Monad.return (m, Inr start)"
    using st by (simp add: ensureObservedAt_def Let_def)
  have cl: "yields (clusterDeleting env m) (\<lambda>r _. \<exists>b. r = Inr b)"
    unfolding clusterDeleting_def
  proof (intro yields_bind_extcall yields_return, goal_cases)
    case (1 x)
    from w have "case fst (te_GetCluster env (clusterKeyFor m) x) of Inl err \<Rightarrow> IsNotFound err | Inr _ \<Rightarrow> True"
      unfolding api_server_works_def by blast
    then show ?case by (auto split: sum.splits)
  qed
  have hooked: "HasHook m" using t by (simp add: in_turn_def)
  have rel: "yields (release env m') (\<lambda>r xs. snd r = None \<and> released xs)" if "HasHook m'" for m'
  proof -
    have p: "yields (patchAnnotations env m' hook_release) (\<lambda>r xs. snd r = None \<and> released xs)"
      by (rule yields_weaken [OF patch_works [OF w]])
        (use that in \<open>auto simp: hook_release_def released_def HasHook_def\<close>)
    have *: "release env m' = do {
       (m, e) \<leftarrow> patchAnnotations env m' hook_release;
       case e of
         Some err \<Rightarrow> State_Monad.return (m, Some err)
       | None \<Rightarrow> do {
           event m ''Normal'' EventTeardownComplete;
           emit (TMetric ''teardown_machines_total'' []);
           State_Monad.return (m, None)
         }
     }" using that by (simp add: release_def)
    show ?thesis
      unfolding * event_def
      by (rule yields_bind [OF p]) (auto intro!: yields_bind_emit yields_return)
  qed
  have etcd: "yields (etcdPhase env cfg m start b) (\<lambda>r xs. snd r = Inr 0 \<and> HasHook (fst r) \<or> held_back m (snd r) xs)" for b
    by (rule yields_weaken [OF etcdPhase_fails_open [OF w d]])
      (use hooked in \<open>auto simp: concluded_with_def HasHook_def\<close>)
  have reset: "yields (resetPhase env cfg m' start) (\<lambda>r _. snd r = None \<and> HasHook (fst r))" if "HasHook m'" for m'
    by (rule yields_weaken [OF resetPhase_fails_open [OF w d]]) (use that in \<open>auto simp: HasHook_def\<close>)
  have tail: "yields (do { (m', e) \<leftarrow> resetPhase env cfg m1 start;
        case e of
          Some err \<Rightarrow> State_Monad.return (m', Inl err)
        | None \<Rightarrow> do {
            (m', e) \<leftarrow> release env m';
            State_Monad.return (m', case e of Some err \<Rightarrow> Inl err | None \<Rightarrow> Inr 0)
          } }) (\<lambda>r xs. snd r = Inr (0 :: duration) \<and> released xs)" if "HasHook m1" for m1
    by (rule yields_bind [OF reset [OF that]])
      (auto intro!: yields_bind [OF rel] yields_return)
  have mid: "yields (do { (m', r) \<leftarrow> etcdPhase env cfg m start b;
        if r \<noteq> Inr 0 then State_Monad.return (m', r)
        else do { (m', e) \<leftarrow> resetPhase env cfg m' start;
        case e of
          Some err \<Rightarrow> State_Monad.return (m', Inl err)
        | None \<Rightarrow> do {
            (m', e) \<leftarrow> release env m';
            State_Monad.return (m', case e of Some err \<Rightarrow> Inl err | None \<Rightarrow> Inr 0)
          } } }) (\<lambda>r xs. snd r = Inr (0 :: duration) \<and> released xs \<or> held_back m (snd r) xs)" for b
  proof (rule yields_bind [OF etcd], goal_cases)
    case (1 r xs)
    then show ?case
    proof
      assume "snd r = Inr 0 \<and> HasHook (fst r)"
      then show ?thesis by (cases r) (auto intro!: yields_weaken [OF tail])
    next
      assume h: "held_back m (snd r) xs"
      then have "snd r \<noteq> Inr 0" by (auto simp: held_back_def)
      with h show ?thesis by (cases r) (auto intro!: yields_return)
    qed
  qed
  have "preTerminate env cfg m = do {
      d \<leftarrow> clusterDeleting env m;
      case d of
        Inl err \<Rightarrow> State_Monad.return (m, Inl err)
      | Inr deleting \<Rightarrow> do { (m', r) \<leftarrow> etcdPhase env cfg m start deleting;
        if r \<noteq> Inr 0 then State_Monad.return (m', r)
        else do { (m', e) \<leftarrow> resetPhase env cfg m' start;
        case e of
          Some err \<Rightarrow> State_Monad.return (m', Inl err)
        | None \<Rightarrow> do {
            (m', e) \<leftarrow> release env m';
            State_Monad.return (m', case e of Some err \<Rightarrow> Inl err | None \<Rightarrow> Inr 0)
          } } } }"
    using t by (simp add: preTerminate_def in_turn_def obs)
  then show ?thesis
    by (simp only:) (rule yields_bind [OF cl], auto intro!: yields_weaken [OF mid] dest: held_back_grows [where vs = "[]", unfolded append_Nil2])
qed

text \<open>C10: The teardown fails open. Once both phase deadlines have passed, a single reconcile of a
  Machine in its turn, with an API server that answers and accepts patches, succeeds: it releases the
  hook, or the Machine is a control-plane one without an etcd conclusion and the list of its peers shows
  an older deletion that holds it, and then it is told to come back after the fixed wait. A worker, or
  a Machine no listed peer holds, is thus released whatever the Talos nodes, the talosconfig and the
  addresses do; and of the deletions of a cluster one is never held.\<close>

theorem teardown_fails_open:
  assumes "fst (te_GetMachine env req w) = Inr m" and "in_turn m"
    and "api_server_works env m" and "deadlines_passed env cfg start"
    and "map_of (m_Annotations m) ObservedAtAnnotation = Some v" and "ParseRFC3339 v = Some start"
    and "run_state (ReconcileMachine env cfg req) \<lparr>world = w, trace = []\<rparr> = (result, s')"
  shows "result = Inr 0 \<and> (\<exists>k before after e. TPatch k before after e \<in> set (trace s')
      \<and> mhas before HookAnnotation \<and> \<not> mhas after HookAnnotation)
    \<or> result = Inr hookWaitRequeue \<and> IsControlPlane m \<and> \<not> mhas (m_Annotations m) EtcdAnnotation
      \<and> (\<exists>peers. TListPeers m (Inr peers) \<in> set (trace s') \<and> held_by m peers)"
proof -
  obtain w1 where g: "te_GetMachine env req w = (Inr m, w1)" using assms(1) by (metis prod.collapse)
  have h: "HasHook m" "m_Deletion m \<noteq> None" using assms(2) by (auto simp: in_turn_def)
  obtain r t where run: "run_state (preTerminate env cfg m) \<lparr>world = w1, trace = [TGetMachine req (Inr m)]\<rparr> = (r, t)"
    by fastforce
  from yields_run [OF preTerminate_fails_open [OF assms(3,4,2,5,6)] run] obtain xs where
    xs: "trace t = [TGetMachine req (Inr m)] @ xs" "snd r = Inr 0 \<and> released xs \<or> held_back m (snd r) xs" by auto
  have "released xs \<Longrightarrow> released (trace t)" by (simp only: xs(1) released_append simp_thms)
  with xs have rel: "snd r = Inr 0 \<and> released (trace t) \<or> held_back m (snd r) (trace t)"
    using held_back_grows [of m "snd r" xs "[TGetMachine req (Inr m)]" "[]"] by auto
  have "result = snd r" "s' = t"
    using assms(7) g h run by (auto simp: ReconcileMachine_def reconcileDeleting_def split: prod.splits)
  with rel show ?thesis by (auto simp: released_def held_back_def)
qed

text \<open>The witness: the etcd conclusion is recorded, but no Talos node can be dialled any more, an hour
  after the start.\<close>

definition dead_tenv :: "unit tenv" where
  "dead_tenv = sample_tenv\<lparr>te_GetMachine := (\<lambda>_ w. (Inr (SetAnnotations sample_a2 sample_machine), w)),
     te_Dial := (\<lambda>_ _ w. (Inl (OtherError ''unreachable''), w)), te_Now := (\<lambda>w. (3601 * Second, w))\<rparr>"

theorem teardown_fails_open_witness:
  "fst (run_state (ReconcileMachine dead_tenv sample_cfg sample_req) \<lparr>world = (), trace = []\<rparr>) = Inr 0"
proof -
  let ?m = "SetAnnotations sample_a2 sample_machine"
  obtain r s' where run: "run_state (ReconcileMachine dead_tenv sample_cfg sample_req) \<lparr>world = (), trace = []\<rparr> = (r, s')"
    by fastforce
  have t: "in_turn ?m"
    using sample_turn other_hooks_mput [of ObservedAtAnnotation _ sample_a0] other_hooks_mput [of EtcdAnnotation _ sample_a1]
    by (simp add: in_turn_def HasHook_def sample_a1_def sample_a2_def HasOtherPreTerminateHooks_def
        sample_annotations sample_a0_def)
  have w: "api_server_works dead_tenv ?m"
    by (simp add: api_server_works_def dead_tenv_def)
  have d: "deadlines_passed dead_tenv sample_cfg (TruncateSecond 1000000000)"
    by (simp add: deadlines_passed_def dead_tenv_def sample_cfg_def After_def Add_def Second_def TruncateSecond_def)
  have o1: "map_of (m_Annotations ?m) ObservedAtAnnotation = Some (FormatRFC3339 (TruncateSecond 1000000000))"
    by (simp add: sample_a1_def sample_a2_def)
  have y: "0 \<le> year_of (TruncateSecond 1000000000)" "year_of (TruncateSecond 1000000000) \<le> 9999" by code_simp+
  have "TruncateSecond (TruncateSecond 1000000000) = TruncateSecond 1000000000" by (simp add: TruncateSecond_def)
  with Parse_Format_RFC3339 [OF y]
  have p: "ParseRFC3339 (FormatRFC3339 (TruncateSecond 1000000000)) = Some (TruncateSecond 1000000000)" by simp
  from teardown_fails_open [OF _ t w d o1 p run] run show ?thesis by (simp add: dead_tenv_def)
qed

end
