(* ===== verification/TeardownHistory.thy ===== *)
theory TeardownHistory
  imports TeardownProperties
begin

text \<open>
  The life of one Machine over many reconciles. A run is the sequence of calls the controller makes
  for the Machine: any number of reconciles, one after the other (the work queue never hands one key
  to two workers), any of which may be cut short by a crash or a lost leader election. A history ties
  the calls to the object stored by the API server, which other clients change at any time between
  two calls; what a cached read may show of it is a parameter. The theorems say what is final: a stored
  phase annotation is never taken off, and while the reads show those stored by then, a recorded
  conclusion and a started clock stay and what was concluded is never done again.
\<close>

section \<open>Runs\<close>

text \<open>The worlds between two reconciles are arbitrary: everything outside may have changed.\<close>

inductive reconciles_run :: "'w tenv \<Rightarrow> teardown_config \<Rightarrow> object_key \<Rightarrow> tcall list \<Rightarrow> bool"
  for env :: "'w tenv" and cfg :: teardown_config and req :: object_key where
  run_idle: "reconciles_run env cfg req []"
| run_reconcile: "reconciles_run env cfg req us \<Longrightarrow>
    run_state (ReconcileMachine env cfg req) \<lparr>world = w, trace = []\<rparr> = (result, s') \<Longrightarrow>
    trace s' = xs @ lost \<Longrightarrow> reconciles_run env cfg req (us @ xs)"

text \<open>Every call of a run belongs to a reconcile, and is permitted by the calls of that reconcile.\<close>

definition attempt :: "teardown_config \<Rightarrow> tcall list \<Rightarrow> bool" where
  "attempt cfg xs \<longleftrightarrow> guarded (permitted cfg) [] xs"

lemma attempt_simps [simp]:
  "attempt cfg []" "attempt cfg (xs @ [x]) \<longleftrightarrow> attempt cfg xs \<and> permitted cfg xs x"
  by (simp_all add: attempt_def)

lemma reconcile_attempt:
  assumes "run_state (ReconcileMachine env cfg req) \<lparr>world = w, trace = []\<rparr> = (result, s')"
    and "trace s' = xs @ lost"
  shows "attempt cfg xs"
proof -
  have "xs = ys @ zs \<Longrightarrow> attempt cfg ys" for ys zs
  proof (induction ys arbitrary: zs rule: rev_induct)
    case (snoc y ys)
    from ReconcileMachine_permitted [OF assms(1), of ys y "zs @ lost"] assms(2) snoc show ?case by simp
  qed simp
  from this [of xs "[]"] show ?thesis by simp
qed

lemma run_last_attempt:
  "reconciles_run env cfg req us \<Longrightarrow> \<exists>as xs. us = as @ xs \<and> attempt cfg xs"
  by (induction rule: reconciles_run.induct) (auto intro: reconcile_attempt)

lemma run_snoc:
  assumes "reconciles_run env cfg req (us @ [x])"
  shows "\<exists>as xs. us = as @ xs \<and> reconciles_run env cfg req us \<and> attempt cfg (xs @ [x])"
  using assms
proof (induction "us @ [x]" arbitrary: us rule: reconciles_run.induct)
  case (run_reconcile vs w result s' xs lost)
  show ?case
  proof (cases xs rule: rev_cases)
    case Nil
    with run_reconcile show ?thesis by auto
  next
    case (snoc ys y)
    with run_reconcile have y: "us = vs @ ys" "y = x" by auto
    have "reconciles_run env cfg req (vs @ ys)"
      by (rule reconciles_run.run_reconcile [OF run_reconcile(1,3)]) (simp add: run_reconcile(4) snoc)
    moreover have "attempt cfg (ys @ [x])"
      using reconcile_attempt [OF run_reconcile(3,4)] snoc y(2) by simp
    ultimately show ?thesis using y(1) by blast
  qed
qed simp

lemma run_prefix: "reconciles_run env cfg req (us @ vs) \<Longrightarrow> reconciles_run env cfg req us"
proof (induction vs rule: rev_induct)
  case (snoc x xs)
  from run_snoc [of env cfg req "us @ xs" x] snoc show ?case by auto
qed simp

section \<open>Histories of the stored Machine\<close>

definition phase_keys :: "string set" where
  "phase_keys = {ObservedAtAnnotation, EtcdAnnotation, ResetAnnotation}"

text \<open>
  What the API server does with a patch: the keys the patch helper found changed get their new value,
  every other key keeps the value it has by then. A patch that is answered with an error may have
  been applied or not. A read is served from the informer cache: what it returns is related to the
  stored object by \<open>reads\<close>, which is a parameter. The cache has \<open>caught_up\<close> when it shows the phase
  annotations that are stored, whatever else it shows late.
\<close>

definition patch_applied :: "gomap \<Rightarrow> gomap \<Rightarrow> machine \<Rightarrow> machine \<Rightarrow> bool" where
  "patch_applied before after m m' \<longleftrightarrow> (\<forall>k. map_of (m_Annotations m') k =
     (if map_of before k = map_of after k then map_of (m_Annotations m) k else map_of after k))"

definition caught_up :: "machine \<Rightarrow> machine \<Rightarrow> bool" where
  "caught_up got m \<longleftrightarrow> (\<forall>k \<in> phase_keys. map_of (m_Annotations got) k = map_of (m_Annotations m) k)"

fun effect :: "(machine \<Rightarrow> machine \<Rightarrow> bool) \<Rightarrow> tcall \<Rightarrow> machine \<Rightarrow> machine \<Rightarrow> bool" where
  "effect reads (TGetMachine _ (Inr got)) m m' = (m' = m \<and> reads got m)"
| "effect reads (TPatch _ before after e) m m' = (patch_applied before after m m' \<or> e \<noteq> None \<and> m' = m)"
| "effect reads _ m m' = (m' = m)"

text \<open>Other clients do what they like, except to the keys in which the teardown keeps its state.\<close>

definition foreign_change :: "machine \<Rightarrow> machine \<Rightarrow> bool" where
  "foreign_change m m' \<longleftrightarrow> (\<forall>k \<in> phase_keys. map_of (m_Annotations m') k = map_of (m_Annotations m) k)"

inductive history :: "(machine \<Rightarrow> machine \<Rightarrow> bool) \<Rightarrow> machine \<Rightarrow> tcall list \<Rightarrow> machine \<Rightarrow> bool"
  for reads :: "machine \<Rightarrow> machine \<Rightarrow> bool" where
  history_start: "history reads m [] m"
| history_foreign: "history reads m0 us m \<Longrightarrow> foreign_change m m' \<Longrightarrow> history reads m0 us m'"
| history_call: "history reads m0 us m \<Longrightarrow> effect reads x m m' \<Longrightarrow> history reads m0 (us @ [x]) m'"

lemma history_append_iff: "history reads m0 (us @ vs) m \<longleftrightarrow> (\<exists>m1. history reads m0 us m1 \<and> history reads m1 vs m)"
proof
  show "history reads m0 (us @ vs) m \<Longrightarrow> \<exists>m1. history reads m0 us m1 \<and> history reads m1 vs m"
  proof (induction m0 "us @ vs" m arbitrary: vs rule: history.induct)
    case (history_call m0 hs m x m')
    show ?case
    proof (cases vs rule: rev_cases)
      case Nil
      with history_call show ?thesis by (metis append.right_neutral history.intros)
    next
      case (snoc ys y)
      with history_call show ?thesis by (auto intro: history.intros)
    qed
  qed (auto intro: history.intros)
next
  have "history reads m1 vs m \<Longrightarrow> history reads m0 us m1 \<Longrightarrow> history reads m0 (us @ vs) m" for m1
    by (induction rule: history.induct) (auto intro: history.intros simp flip: append_assoc)
  then show "\<exists>m1. history reads m0 us m1 \<and> history reads m1 vs m \<Longrightarrow> history reads m0 (us @ vs) m" by blast
qed

lemma history_append: "history reads m0 us m1 \<Longrightarrow> history reads m1 vs m \<Longrightarrow> history reads m0 (us @ vs) m"
  by (auto simp: history_append_iff)

lemma foreign_refl [simp]: "foreign_change m m"
  by (simp add: foreign_change_def)

lemma foreign_trans: "foreign_change m m1 \<Longrightarrow> foreign_change m1 m2 \<Longrightarrow> foreign_change m m2"
  by (simp add: foreign_change_def)

lemma history_Nil: "history reads m0 [] m \<Longrightarrow> foreign_change m0 m"
  by (induction m0 "[] :: tcall list" m rule: history.induct) (auto intro: foreign_trans)

lemma history_snoc:
  "history reads m0 (us @ [x]) m \<Longrightarrow> \<exists>m1 m2. history reads m0 us m1 \<and> effect reads x m1 m2 \<and> foreign_change m2 m"
  by (induction m0 "us @ [x]" m arbitrary: us rule: history.induct) (blast intro: foreign_trans foreign_refl | simp)+

section \<open>What the controller holds agrees with what is stored\<close>

text \<open>Within a reconcile, as long as no patch failed, the Machine in memory has the phase keys of the
  stored one.\<close>

definition coupled :: "tcall list \<Rightarrow> machine \<Rightarrow> bool" where
  "coupled xs m \<longleftrightarrow> (\<forall>held. memory xs = Some held \<longrightarrow> \<not> failed_patch xs \<longrightarrow>
     (\<forall>k \<in> phase_keys. map_of (m_Annotations m) k = map_of (m_Annotations held) k))"

lemma coupled_foreign: "coupled xs m \<Longrightarrow> foreign_change m m' \<Longrightarrow> coupled xs m'"
  by (simp add: coupled_def foreign_change_def)

lemma failed_patch_steady: "steady x \<Longrightarrow> failed_patch (xs @ [x]) = failed_patch xs \<and> memory_step mem x = mem"
  by (cases x) (auto simp: failed_patch_def)

lemma coupled_step:
  assumes "coupled xs m" and "permitted cfg xs x" and "effect reads x m m'"
    and "\<And>got m. reads got m \<Longrightarrow> caught_up got m"
  shows "coupled (xs @ [x]) m'"
proof (cases x)
  case (TGetMachine k r)
  with assms show ?thesis by (cases r) (auto simp: coupled_def memory_def failed_patch_def caught_up_def)
next
  case (TPatch k before after e)
  with assms obtain held where h: "going xs held" "before = m_Annotations held" by auto
  then have "\<forall>k \<in> phase_keys. map_of (m_Annotations m) k = map_of before k"
    using assms(1) by (auto simp: coupled_def going_def)
  with TPatch assms(3) h show ?thesis by (auto simp: coupled_def going_def patch_applied_def failed_patch_def)
qed (use assms failed_patch_steady [of x xs] in \<open>auto simp: coupled_def\<close>)

lemma attempt_coupled:
  "attempt cfg xs \<Longrightarrow> history reads m0 xs m \<Longrightarrow> (\<And>got m. reads got m \<Longrightarrow> caught_up got m) \<Longrightarrow> coupled xs m"
proof (induction xs arbitrary: m rule: rev_induct)
  case Nil
  show ?case by (simp add: coupled_def memory_def)
next
  case (snoc x xs)
  from history_snoc [OF snoc.prems(2)] obtain m1 m2 where
    h: "history reads m0 xs m1" "effect reads x m1 m2" "foreign_change m2 m" by blast
  with snoc have "coupled (xs @ [x]) m2" by (auto intro: coupled_step [where reads = reads])
  with h(3) show ?case by (rule coupled_foreign [rotated -1])
qed

text \<open>A call of a run, seen from the store: it is permitted by a reconcile whose Machine in memory has
  the phase keys that are stored at that moment.\<close>

lemma run_call:
  assumes "reconciles_run env cfg req (us @ [x])" and "history reads m0 us m"
    and caught: "\<And>got m. reads got m \<Longrightarrow> caught_up got m"
  obtains xs where "permitted cfg xs x" "coupled xs m"
proof -
  from run_snoc [OF assms(1)] obtain as xs where x: "us = as @ xs" "attempt cfg xs" "permitted cfg xs x" by auto
  from assms(2) x(1) obtain m1 where "history reads m1 xs m" by (auto simp: history_append_iff)
  with x have "coupled xs m" by (blast intro: attempt_coupled caught)
  with x that show ?thesis by blast
qed

section \<open>The recorded state only advances\<close>

text \<open>A recorded value stays, a start of the clock if it can be read.\<close>

definition advances :: "machine \<Rightarrow> machine \<Rightarrow> bool" where
  "advances m m' \<longleftrightarrow> (\<forall>k \<in> phase_keys. \<forall>v. map_of (m_Annotations m) k = Some v \<longrightarrow>
     map_of (m_Annotations m') k = Some v \<or> k = ObservedAtAnnotation \<and> ParseRFC3339 v = None)"

lemma advances_foreign: "advances m m1 \<Longrightarrow> foreign_change m1 m2 \<Longrightarrow> advances m m2"
  by (auto simp: advances_def foreign_change_def)

lemma advances_refl [simp]: "advances m m"
  by (simp add: advances_def)

lemma advances_trans: "advances m m1 \<Longrightarrow> advances m1 m2 \<Longrightarrow> advances m m2"
  unfolding advances_def by blast

lemma patch_phase_keys:
  assumes "patch_permitted cfg us held after" and "k \<in> phase_keys" and "map_of (m_Annotations held) k = Some v"
  shows "map_of after k = Some v \<or> k = ObservedAtAnnotation \<and> ParseRFC3339 v = None"
  using assms unfolding patch_permitted_def phase_keys_def
  by (auto simp: stamp_annotations_def release_annotations_def Let_def mhas_def)

lemma call_advances:
  assumes "permitted cfg xs x" and "coupled xs m" and "effect reads x m m'"
  shows "advances m m'"
proof (cases x)
  case (TGetMachine k r)
  with assms(3) show ?thesis by (cases r) auto
next
  case (TPatch k before after e)
  with assms(1) obtain held where h: "going xs held" "before = m_Annotations held" "patch_permitted cfg xs held after"
    by auto
  then have c: "\<forall>k \<in> phase_keys. map_of (m_Annotations m) k = map_of before k"
    using assms(2) by (auto simp: coupled_def going_def)
  show ?thesis
    unfolding advances_def
  proof (intro ballI allI impI)
    fix key v assume k: "key \<in> phase_keys" "map_of (m_Annotations m) key = Some v"
    with c h(2) patch_phase_keys [OF h(3) k(1)] TPatch assms(3)
    show "map_of (m_Annotations m') key = Some v \<or> key = ObservedAtAnnotation \<and> ParseRFC3339 v = None"
      by (auto simp: patch_applied_def)
  qed
qed (use assms(3) in auto)

lemma run_advances:
  assumes "reconciles_run env cfg req (us @ vs)" and "history reads m0 us m1" and "history reads m1 vs m"
    and caught: "\<And>got m. reads got m \<Longrightarrow> caught_up got m"
  shows "advances m1 m"
  using assms(1-3)
proof (induction vs arbitrary: m rule: rev_induct)
  case Nil
  then show ?case using history_Nil advances_foreign advances_refl by blast
next
  case (snoc x xs)
  from history_snoc [OF snoc.prems(3)] obtain m2 m3 where
    h: "history reads m1 xs m2" "effect reads x m2 m3" "foreign_change m3 m" by blast
  have run: "reconciles_run env cfg req ((us @ xs) @ [x])" using snoc.prems(1) by simp
  have "history reads m0 (us @ xs) m2" using snoc.prems(2) h(1) by (auto simp: history_append_iff)
  from run_call [OF run this caught] call_advances [OF _ _ h(2)] have "advances m2 m3" by blast
  moreover have "advances m1 m2" using snoc.IH [OF run_prefix [OF run] snoc.prems(2) h(1)] .
  ultimately show ?case using h(3) advances_trans advances_foreign by blast
qed

section \<open>Finality\<close>

lemma no_repeat:
  assumes "reconciles_run env cfg req (us @ vs)" and "history reads m0 us m1" and "history reads m1 vs m"
    and "mhas (m_Annotations m1) k" and "k \<in> phase_keys" and "k \<noteq> ObservedAtAnnotation" and "x \<in> set vs"
    and caught: "\<And>got m. reads got m \<Longrightarrow> caught_up got m"
    and closed: "\<And>xs. permitted cfg xs x \<Longrightarrow> \<exists>held. going xs held \<and> \<not> mhas (m_Annotations held) k"
  shows False
proof -
  from assms(7) obtain ys zs where vs: "vs = ys @ x # zs" by (meson split_list)
  with assms(3) obtain m2 where m2: "history reads m1 ys m2" by (auto simp: history_append_iff)
  have run: "reconciles_run env cfg req ((us @ ys) @ [x])"
    using assms(1) run_prefix [of env cfg req "us @ ys @ [x]" zs] by (simp add: vs)
  have "history reads m0 (us @ ys) m2" using assms(2) m2 by (auto simp: history_append_iff)
  from run_call [OF run this caught] obtain xs where xs: "permitted cfg xs x" "coupled xs m2" by blast
  have "mhas (m_Annotations m2) k"
    using run_advances [OF run_prefix [OF run] assms(2) m2 caught] assms(4-6) by (auto simp: advances_def mhas_def)
  with closed [OF xs(1)] xs(2) assms(5) show False by (auto simp: coupled_def going_def mhas_def)
qed

text \<open>Whatever the reads show, a phase annotation is never taken off.\<close>

lemma patch_keeps_phase:
  assumes "patch_permitted cfg us held after" and "k \<in> phase_keys" and "mhas (m_Annotations held) k"
  shows "mhas after k"
  using assms unfolding patch_permitted_def phase_keys_def
  by (auto simp: stamp_annotations_def release_annotations_def Let_def mhas_def)

lemma call_keeps_phase:
  assumes "permitted cfg xs x" and "effect reads x m m'" and "k \<in> phase_keys" and "mhas (m_Annotations m) k"
  shows "mhas (m_Annotations m') k"
proof (cases x)
  case (TGetMachine q r)
  with assms(2,4) show ?thesis by (cases r) auto
next
  case (TPatch q before after e)
  with assms(1) obtain held where "before = m_Annotations held" "patch_permitted cfg xs held after" by auto
  with patch_keeps_phase [OF this(2) assms(3)] assms(2,4) TPatch show ?thesis
    by (cases "map_of after k"; cases "map_of before k") (auto simp: patch_applied_def mhas_def)
qed (use assms(2,4) in auto)

lemma run_keeps_phase:
  assumes "reconciles_run env cfg req (us @ vs)" and "history reads m1 vs m"
    and "k \<in> phase_keys" and "mhas (m_Annotations m1) k"
  shows "mhas (m_Annotations m) k"
  using assms(1,2)
proof (induction vs arbitrary: m rule: rev_induct)
  case Nil
  with history_Nil [of reads m1 m] assms(3,4) show ?case by (simp add: foreign_change_def mhas_def)
next
  case (snoc x xs)
  from history_snoc [OF snoc.prems(2)] obtain m2 m3 where
    h: "history reads m1 xs m2" "effect reads x m2 m3" "foreign_change m3 m" by blast
  have run: "reconciles_run env cfg req ((us @ xs) @ [x])" using snoc.prems(1) by simp
  from run_snoc [OF run] obtain ys where "permitted cfg ys x" by auto
  from call_keeps_phase [OF this h(2) assms(3) snoc.IH [OF run_prefix [OF run] h(1)]] h(3) assms(3)
  show ?case by (simp add: foreign_change_def mhas_def)
qed

text \<open>C6: What is recorded is final. In any run of reconciles, cut short by crashes and interleaved with
  other clients' writes to anything but the three phase annotations: a phase annotation that is stored
  is never taken off, whatever the informer cache shows. And as long as every read shows the phase
  annotations stored by then, so that the cache has caught up with the controller's own patches: once
  the etcd conclusion is stored it keeps its value and no later call changes an etcd cluster; once the
  reset conclusion is stored it keeps its value and no reset is ever sent again; and a stored start of
  the phase clock that can be read is never moved, so the deadlines are those of the first attempt.\<close>

theorem recorded_conclusions_are_final:
  assumes "reconciles_run env cfg req (us @ vs)" and "history reads m0 us m1" and "history reads m1 vs m"
  shows "(\<forall>k \<in> phase_keys. mhas (m_Annotations m1) k \<longrightarrow> mhas (m_Annotations m) k)
    \<and> ((\<forall>got stored. reads got stored \<longrightarrow> caught_up got stored) \<longrightarrow>
      (\<forall>v. map_of (m_Annotations m1) EtcdAnnotation = Some v \<longrightarrow>
        map_of (m_Annotations m) EtcdAnnotation = Some v \<and> (\<forall>x \<in> set vs. \<not> etcd_change x))
    \<and> (\<forall>v. map_of (m_Annotations m1) ResetAnnotation = Some v \<longrightarrow>
        map_of (m_Annotations m) ResetAnnotation = Some v \<and> (\<forall>x \<in> set vs. \<not> is_reset x))
    \<and> (\<forall>v t. map_of (m_Annotations m1) ObservedAtAnnotation = Some v \<and> ParseRFC3339 v = Some t \<longrightarrow>
        map_of (m_Annotations m) ObservedAtAnnotation = Some v))"
proof (intro conjI ballI impI)
  show "mhas (m_Annotations m) k" if "k \<in> phase_keys" "mhas (m_Annotations m1) k" for k
    by (rule run_keeps_phase [OF assms(1,3) that])
next
  assume "\<forall>got stored. reads got stored \<longrightarrow> caught_up got stored"
  then have c: "reads got stored \<Longrightarrow> caught_up got stored" for got stored by blast
  have adv: "advances m1 m" by (rule run_advances [OF assms c])
  have etcd: "\<not> etcd_change x" if "mhas (m_Annotations m1) EtcdAnnotation" "x \<in> set vs" for x
  proof
    assume "etcd_change x"
    then have "\<exists>held. going xs held \<and> \<not> mhas (m_Annotations held) EtcdAnnotation" if "permitted cfg xs x" for xs
      using that by (cases x) (auto simp: etcd_change_permitted_def)
    with no_repeat [OF assms that(1) _ _ that(2) c] show False by (auto simp: phase_keys_def)
  qed
  have reset: "\<not> is_reset x" if "mhas (m_Annotations m1) ResetAnnotation" "x \<in> set vs" for x
  proof
    assume "is_reset x"
    then have "\<exists>held. going xs held \<and> \<not> mhas (m_Annotations held) ResetAnnotation" if "permitted cfg xs x" for xs
      using that by (cases x) auto
    with no_repeat [OF assms that(1) _ _ that(2) c] show False by (auto simp: phase_keys_def)
  qed
  show "\<forall>v. map_of (m_Annotations m1) EtcdAnnotation = Some v \<longrightarrow>
        map_of (m_Annotations m) EtcdAnnotation = Some v \<and> (\<forall>x \<in> set vs. \<not> etcd_change x)"
    using adv etcd by (auto simp: advances_def phase_keys_def mhas_def)
  show "\<forall>v. map_of (m_Annotations m1) ResetAnnotation = Some v \<longrightarrow>
        map_of (m_Annotations m) ResetAnnotation = Some v \<and> (\<forall>x \<in> set vs. \<not> is_reset x)"
    using adv reset by (auto simp: advances_def phase_keys_def mhas_def)
  show "\<forall>v t. map_of (m_Annotations m1) ObservedAtAnnotation = Some v \<and> ParseRFC3339 v = Some t \<longrightarrow>
        map_of (m_Annotations m) ObservedAtAnnotation = Some v"
    using adv by (auto simp: advances_def phase_keys_def)
qed

section \<open>A sample history\<close>

text \<open>The Machine of the sample with its etcd conclusion stored: the reset, and its end.\<close>

definition half_done :: machine where
  "half_done = SetAnnotations sample_a2 sample_machine"

definition until_reset :: "tcall list" where
  "until_reset = [TGetMachine sample_req (Inr half_done),
     TGetCluster (clusterKeyFor sample_machine) (Inr (new_meta ''prod'' ''default''))] @ reset_trace"

definition after_reset :: "tcall list" where
  "after_reset = [sample_patch sample_a2 sample_a3, TMetric ''teardown_reset_total'' ResetDone,
     TEvent (m_key sample_machine) ''Normal'' EventResetSucceeded,
     sample_patch sample_a3 sample_a4, TEvent (m_key sample_machine) ''Normal'' EventTeardownComplete,
     TMetric ''teardown_machines_total'' []]"

lemma half_done_in_turn: "in_turn half_done"
  using sample_turn other_hooks_mput [of ObservedAtAnnotation _ sample_a0] other_hooks_mput [of EtcdAnnotation _ sample_a1]
  by (simp add: half_done_def in_turn_def HasHook_def sample_a1_def sample_a2_def HasOtherPreTerminateHooks_def
      sample_annotations sample_a0_def)

lemma half_done_run:
  "run_state (ReconcileMachine (sample_tenv_at half_done) sample_cfg sample_req) \<lparr>world = (), trace = []\<rparr>
     = (Inr 0, \<lparr>world = (), trace = until_reset @ after_reset\<rparr>)"
proof -
  have year: "0 \<le> year_of 1000000000" "year_of 1000000000 \<le> 9999" by code_simp+
  have "map_of sample_a2 ObservedAtAnnotation = Some (FormatRFC3339 (TruncateSecond 1000000000))"
    by (simp add: sample_a2_def sample_a1_def)
  moreover have "TruncateSecond (TruncateSecond 1000000000) = TruncateSecond 1000000000" by (simp add: TruncateSecond_def)
  ultimately have obs: "ensureObservedAt env half_done = State_Monad.return (half_done, Inr (TruncateSecond 1000000000))"
    for env :: "unit tenv"
    using Parse_Format_RFC3339 [of "TruncateSecond 1000000000"] year
    by (simp add: ensureObservedAt_def Let_def half_done_def year_of_TruncateSecond)
  have cl: "run_state (clusterDeleting (sample_tenv_at m) half_done) \<lparr>world = (), trace = xs\<rparr> =
     (Inr False, \<lparr>world = (), trace = xs @ [TGetCluster (clusterKeyFor sample_machine) (Inr (new_meta ''prod'' ''default''))]\<rparr>)"
    for m xs
    by (simp add: clusterDeleting_def new_meta_def half_done_def)
  have etcd: "etcdPhase env sample_cfg half_done t d = State_Monad.return (half_done, Inr 0)" for env :: "unit tenv" and t d
    by (simp add: etcdPhase_def half_done_def)
  show ?thesis
    using half_done_in_turn
    by (simp add: in_turn_def ReconcileMachine_def reconcileDeleting_def preTerminate_def obs cl etcd)
      (simp add: half_done_def sample_turn sample_reset_phase sample_release until_reset_def after_reset_def)
qed

lemma half_done_history:
  "history caught_up half_done until_reset half_done"
  "history caught_up half_done (until_reset @ [sample_patch sample_a2 sample_a3]) (SetAnnotations sample_a3 sample_machine)"
  "history caught_up (SetAnnotations sample_a3 sample_machine) (tl after_reset) (SetAnnotations sample_a4 sample_machine)"
proof -
  have quiet: "history caught_up m xs m" if "\<forall>x \<in> set xs. effect caught_up x m m" for xs m
    using that by (induction xs rule: rev_induct) (auto intro: history.intros)
  show u: "history caught_up half_done until_reset half_done"
    by (rule quiet) (simp add: until_reset_def reset_trace_def caught_up_def)
  have "effect caught_up (sample_patch sample_a2 sample_a3) half_done (SetAnnotations sample_a3 sample_machine)"
    by (simp add: sample_patch_def half_done_def patch_applied_def)
  with u show "history caught_up half_done (until_reset @ [sample_patch sample_a2 sample_a3]) (SetAnnotations sample_a3 sample_machine)"
    by (rule history_call)
  let ?m3 = "SetAnnotations sample_a3 sample_machine" and ?m4 = "SetAnnotations sample_a4 sample_machine"
  let ?xs = "[TMetric ''teardown_reset_total'' ResetDone, TEvent (m_key sample_machine) ''Normal'' EventResetSucceeded]"
  let ?ys = "[TEvent (m_key sample_machine) ''Normal'' EventTeardownComplete, TMetric ''teardown_machines_total'' []]"
  have "history caught_up ?m3 ?xs ?m3" "history caught_up ?m4 ?ys ?m4" by (rule quiet, simp)+
  moreover have "effect caught_up (sample_patch sample_a3 sample_a4) ?m3 ?m4"
    by (simp add: sample_patch_def patch_applied_def)
  ultimately have "history caught_up ?m3 ((?xs @ [sample_patch sample_a3 sample_a4]) @ ?ys) ?m4"
    unfolding history_append_iff [of _ _ "?xs @ [sample_patch sample_a3 sample_a4]"] by (blast intro: history_call)
  then show "history caught_up ?m3 (tl after_reset) ?m4" by (simp add: after_reset_def)
qed

lemma half_done_once: "reconciles_run (sample_tenv_at half_done) sample_cfg sample_req (until_reset @ after_reset)"
  using run_reconcile [OF run_idle half_done_run, of "until_reset @ after_reset" "[]"] by simp

theorem recorded_conclusions_are_final_witness:
  "map_of (m_Annotations (SetAnnotations sample_a4 sample_machine)) ResetAnnotation = Some ResetDone
     \<and> filter is_reset (tl after_reset) = []"
proof -
  have "reconciles_run (sample_tenv_at half_done) sample_cfg sample_req
      ((until_reset @ [sample_patch sample_a2 sample_a3]) @ tl after_reset)"
    using half_done_once by (simp add: after_reset_def)
  note final = recorded_conclusions_are_final [OF this half_done_history(2,3)]
  have "map_of (m_Annotations (SetAnnotations sample_a3 sample_machine)) ResetAnnotation = Some ResetDone"
    by (simp add: sample_a3_def)
  with final show ?thesis unfolding filter_empty_conv by simp
qed

text \<open>A reset can be sent twice all the same: when the process stops after the node acknowledged the
  reset and before the conclusion is stored, the next reconcile sends it again, to a node that has
  been wiped and is halting.\<close>

theorem reset_replayed_after_crash:
  "\<exists>m us. reconciles_run (sample_tenv_at half_done) sample_cfg sample_req us \<and> history caught_up half_done us m
     \<and> length (filter (\<lambda>x. x = TReset 1 reset_request_sent (ResetCallTimeout sample_cfg) None) us) = 2
     \<and> m_Annotations m = sample_a4"
proof (intro exI conjI)
  let ?us = "until_reset @ until_reset @ after_reset"
  have "reconciles_run (sample_tenv_at half_done) sample_cfg sample_req until_reset"
    using run_reconcile [OF run_idle half_done_run, of until_reset after_reset] by simp
  from run_reconcile [OF this half_done_run, of "until_reset @ after_reset" "[]"]
  show "reconciles_run (sample_tenv_at half_done) sample_cfg sample_req ?us" by simp
  have "until_reset @ (until_reset @ [sample_patch sample_a2 sample_a3]) @ tl after_reset = ?us"
    by (simp add: after_reset_def)
  moreover have "history caught_up half_done (until_reset @ (until_reset @ [sample_patch sample_a2 sample_a3]) @ tl after_reset)
      (SetAnnotations sample_a4 sample_machine)"
    by (rule history_append [OF half_done_history(1) history_append [OF half_done_history(2,3)]])
  ultimately show "history caught_up half_done ?us (SetAnnotations sample_a4 sample_machine)" by simp
  show "length (filter (\<lambda>x. x = TReset 1 reset_request_sent (ResetCallTimeout sample_cfg) None) ?us) = 2"
    by (simp add: until_reset_def after_reset_def reset_trace_def sample_patch_def)
  show "m_Annotations (SetAnnotations sample_a4 sample_machine) = sample_a4" by simp
qed

text \<open>Nor does it hold over stale reads, whence the condition on \<open>reads\<close>. A reconcile that is handed a
  revision from before the conclusion resets the node again, although the conclusion is recorded; the
  patch that could be refused comes after the reset.\<close>

theorem reset_repeated_on_stale_read:
  "\<exists>us m vs. reconciles_run (sample_tenv_at half_done) sample_cfg sample_req (us @ vs)
     \<and> history (\<lambda>_ _. True) half_done us m \<and> map_of (m_Annotations m) ResetAnnotation = Some ResetDone
     \<and> history (\<lambda>_ _. True) m vs m \<and> TReset 1 reset_request_sent (ResetCallTimeout sample_cfg) None \<in> set vs"
proof -
  let ?any = "\<lambda>(_ :: machine) (_ :: machine). True" and ?m3 = "SetAnnotations sample_a3 sample_machine"
  let ?us = "until_reset @ [sample_patch sample_a2 sample_a3]"
  have quiet: "history ?any m xs m" if "\<forall>x \<in> set xs. effect ?any x m m" for xs m
    using that by (induction xs rule: rev_induct) (auto intro: history.intros)
  have u: "history ?any m until_reset m" for m
    by (rule quiet) (simp add: until_reset_def reset_trace_def)
  have "effect ?any (sample_patch sample_a2 sample_a3) half_done ?m3"
    by (simp add: sample_patch_def half_done_def patch_applied_def)
  with u have us: "history ?any half_done ?us ?m3" by (rule history_call)
  have "reconciles_run (sample_tenv_at half_done) sample_cfg sample_req ?us"
    using run_reconcile [OF run_idle half_done_run, of ?us "tl after_reset"] by (simp add: after_reset_def)
  from run_reconcile [OF this half_done_run, of until_reset after_reset]
  have "reconciles_run (sample_tenv_at half_done) sample_cfg sample_req (?us @ until_reset)" by simp
  moreover have "TReset 1 reset_request_sent (ResetCallTimeout sample_cfg) None \<in> set until_reset"
    by (simp add: until_reset_def reset_trace_def)
  moreover have "map_of (m_Annotations ?m3) ResetAnnotation = Some ResetDone" by (simp add: sample_a3_def)
  ultimately show ?thesis using us u [of ?m3] by blast
qed

end
