(* ===== verification/TeardownConcurrency.thy ===== *)
theory TeardownConcurrency
  imports TeardownProperties
begin

text \<open>
  Several Machines of one control plane at the same time. Each reconcile goes by the list of Machines
  it read; \<open>serializeControlPlane\<close> compares deletion timestamps, which have the resolution of a second,
  and breaks ties by name. The theorem says what two reconciles that both change etcd tell about their
  lists; its witness is such a pair.
\<close>

text \<open>The list shows the Machine as the one deleting, with the hook.\<close>

definition listed :: "machine \<Rightarrow> machine list \<Rightarrow> bool" where
  "listed m peers \<longleftrightarrow> (\<exists>p \<in> set peers. m_Name p = m_Name m \<and> m_Deletion p = m_Deletion m \<and> HasHook p)"

lemma listed_holds:
  assumes "listed m peers" and "m_Name m \<noteq> m_Name n" and "deletes_before m n" and "m_Deletion m \<noteq> None"
  shows "held_by n peers"
proof -
  from assms(1) obtain p where p: "p \<in> set peers" "m_Name p = m_Name m" "m_Deletion p = m_Deletion m" "HasHook p"
    by (auto simp: listed_def)
  from assms(3) have "deletes_before p n" unfolding deletes_before_def p(2,3) .
  with p(2-4) assms(2,4) have "holds n p" by (simp add: holds_def)
  with p(1) show ?thesis by (auto simp: held_by_iff)
qed

lemma deletes_before_total:
  "m_Name m \<noteq> m_Name n \<Longrightarrow> m_Deletion m \<noteq> None \<Longrightarrow> m_Deletion n \<noteq> None \<Longrightarrow> deletes_before m n \<or> deletes_before n m"
  by (auto simp: deletes_before_def Before_def neq_iff)

lemma etcd_change_not_held:
  assumes "run_state (ReconcileMachine env cfg req) \<lparr>world = w, trace = []\<rparr> = (result, s')"
    and "trace s' = us @ x # vs" and "etcd_change x" and "memory us = Some m"
  shows "m_Deletion m \<noteq> None" and "not_held us m"
proof -
  have "etcd_change_permitted cfg us x"
    using ReconcileMachine_permitted [OF assms(1,2)] assms(3) by (cases x) auto
  with assms(4) show "m_Deletion m \<noteq> None" "not_held us m"
    by (auto simp: etcd_change_permitted_def going_def in_turn_def)
qed

text \<open>C3: Etcd changes of two Machines are serialised as far as their reconciles see each other. When
  reconciles of two Machines both change etcd, in whatever environments and at whatever times, then one
  of the Machines precedes the other in deletion order, and a list the later one went by did not show
  the earlier as deleting with the hook. So of two reconciles whose lists show both, at most one acts.
  But an earlier Machine may become one after the later has looked: deleted within the same second
  under a smaller name, it is not held by the Machine that is already acting.\<close>

theorem etcd_changes_are_serialized:
  assumes "run_state (ReconcileMachine env1 cfg req1) \<lparr>world = w1, trace = []\<rparr> = (result1, s1)"
    and "trace s1 = us1 @ x1 # vs1" and "etcd_change x1" and "memory us1 = Some m1"
    and "run_state (ReconcileMachine env2 cfg req2) \<lparr>world = w2, trace = []\<rparr> = (result2, s2)"
    and "trace s2 = us2 @ x2 # vs2" and "etcd_change x2" and "memory us2 = Some m2"
    and "m_Name m1 \<noteq> m_Name m2"
  shows "deletes_before m1 m2 \<and> (\<exists>peers. TListPeers m2 (Inr peers) \<in> set us2 \<and> \<not> listed m1 peers)
    \<or> deletes_before m2 m1 \<and> (\<exists>peers. TListPeers m1 (Inr peers) \<in> set us1 \<and> \<not> listed m2 peers)"
proof -
  note one = etcd_change_not_held [OF assms(1-4)] and two = etcd_change_not_held [OF assms(5-8)]
  from deletes_before_total [OF assms(9) one(1) two(1)] show ?thesis
  proof
    assume b: "deletes_before m1 m2"
    from two(2) obtain peers where "TListPeers m2 (Inr peers) \<in> set us2" "\<not> held_by m2 peers"
      unfolding not_held_def by blast
    with listed_holds [OF _ assms(9) b one(1)] b show ?thesis by blast
  next
    assume b: "deletes_before m2 m1"
    from one(2) obtain peers where "TListPeers m1 (Inr peers) \<in> set us1" "\<not> held_by m1 peers"
      unfolding not_held_def by blast
    with listed_holds [OF _ assms(9) [symmetric] b two(1)] b show ?thesis by blast
  qed
qed

section \<open>Two deletions in one second\<close>

text \<open>Two control-plane Machines without addresses, deleted in second 0 or not yet, whose teardown has
  begun; the removal of a member times out, so that each reconcile ends at its etcd change.\<close>

definition racer :: "string \<Rightarrow> time option \<Rightarrow> machine" where
  "racer n d = sample_machine\<lparr>m_Meta := (m_Meta sample_machine)\<lparr>om_Name := n, om_Annotations := sample_a1,
     om_DeletionTimestamp := d\<rparr>, m_NodeRefName := [], m_Addresses := [], m_InfraName := []\<rparr>"

definition race_members :: "member_list_response" where
  "race_members = [[\<lparr>MemberId = 7, MemberHostname = ''cp-1''\<rparr>, \<lparr>MemberId = 8, MemberHostname = ''cp-0''\<rparr>]]"

definition race_env :: "machine \<Rightarrow> machine list \<Rightarrow> unit tenv" where
  "race_env stored peers = (sample_tenv_at stored)\<lparr>te_ListMachines := (\<lambda>_ _ _ w. (Inr peers, w)),
     te_EtcdMemberList := (\<lambda>_ _ w. (Inr (Some race_members), w)),
     te_EtcdRemoveMemberByID := (\<lambda>_ _ _ w. (Some (OtherError ''timeout''), w))\<rparr>"

lemma race_env_sel [simp]:
  "te_GetMachine (race_env m peers) = (\<lambda>_ w. (Inr m, w))"
  "te_GetCluster (race_env m peers) = (\<lambda>_ w. (Inr (new_meta ''prod'' ''default''), w))"
  "te_GetSecret (race_env m peers) = (\<lambda>_ w. (Inr sample_secret, w))"
  "te_ListMachines (race_env m peers) = (\<lambda>_ _ _ w. (Inr peers, w))" "te_FromBytes (race_env m peers) = Inr"
  "te_Dial (race_env m peers) = te_Dial (sample_tenv_at m)" "te_ServiceInfo (race_env m peers) = te_ServiceInfo (sample_tenv_at m)"
  "te_EtcdMemberList (race_env m peers) = (\<lambda>_ _ w. (Inr (Some race_members), w))"
  "te_EtcdRemoveMemberByID (race_env m peers) = (\<lambda>_ _ _ w. (Some (OtherError ''timeout''), w))"
  "te_Close (race_env m peers) = (\<lambda>_ w. (None, w))" "te_Now (race_env m peers) = (\<lambda>w. (1000000000, w))"
  by (simp_all add: race_env_def)

lemma race_addresses:
  "resolveAddress (race_env m peers) (racer n d) = State_Monad.return (Inr [])"
  "resolveAddress (race_env m peers) sample_peer = State_Monad.return (Inr ''10.0.0.2'')"
  by (simp_all add: resolveAddress_def racer_def sample_peer_def)

lemma racer_turn: "m_Deletion (racer n d) = d" "AtPreTerminate (racer n d)" "HasHook (racer n d)"
   "Qualifies (racer n d)" "IsControlPlane (racer n d)" "\<not> HasOtherPreTerminateHooks (racer n d)"
   "m_Annotations (racer n d) = sample_a1" "m_Name (racer n d) = n"
  using sample_turn other_hooks_mput [of ObservedAtAnnotation _ sample_a0]
  by (simp_all add: racer_def AtPreTerminate_def deletingReason_def HasHook_def Qualifies_def
      IsControlPlane_def HasOtherPreTerminateHooks_def sample_a1_def sample_a0_def sample_annotations)

definition before_change :: "string \<Rightarrow> machine list \<Rightarrow> tcall list" where
  "before_change n peers = [TGetMachine sample_req (Inr (racer n (Some 0))),
     TGetCluster (clusterKeyFor (racer n (Some 0))) (Inr (new_meta ''prod'' ''default'')),
     TListPeers (racer n (Some 0)) (Inr peers),
     TGetSecret (sourceSecretName (clusterKeyFor (racer n (Some 0)))) (Inr sample_secret),
     TListPeers (racer n (Some 0)) (Inr peers),
     TDial ''10.0.0.2'' (Inr 2),
     TServiceInfo 2 (EtcdCallTimeout sample_cfg) (Inr [Some \<lparr>SvcState = etcdRunningState, SvcHealthy = Some True\<rparr>]),
     TMemberList 2 (EtcdCallTimeout sample_cfg) (Inr (Some race_members))]"

lemma race_run:
  assumes "\<not> held_by (racer n (Some 0)) peers" and "orderPeers peers (racer n (Some 0)) = sample_peer # rest"
    and "findMember (Some race_members) (hostnameCandidates (racer n (Some 0))) = Some member"
  shows "\<exists>result vs. run_state (ReconcileMachine (race_env (racer n (Some 0)) peers) sample_cfg sample_req) \<lparr>world = (), trace = []\<rparr>
    = (result, \<lparr>world = (), trace = before_change n peers
        @ TRemove 2 (MemberId member) (EtcdCallTimeout sample_cfg) (Some (OtherError ''timeout'')) # vs\<rparr>)"
proof -
  let ?m = "racer n (Some 0)"
  have year: "0 \<le> year_of 1000000000" "year_of 1000000000 \<le> 9999" by code_simp+
  have "map_of sample_a1 ObservedAtAnnotation = Some (FormatRFC3339 (TruncateSecond 1000000000))"
    by (simp add: sample_a1_def)
  moreover have "TruncateSecond (TruncateSecond 1000000000) = TruncateSecond 1000000000" by (simp add: TruncateSecond_def)
  ultimately have obs: "ensureObservedAt env ?m = State_Monad.return (?m, Inr (TruncateSecond 1000000000))" for env :: "unit tenv"
    using Parse_Format_RFC3339 [of "TruncateSecond 1000000000"] year
    by (simp add: ensureObservedAt_def Let_def racer_turn year_of_TruncateSecond)
  have cl: "run_state (clusterDeleting (race_env ?m peers) ?m) \<lparr>world = (), trace = xs\<rparr> =
     (Inr False, \<lparr>world = (), trace = xs @ [TGetCluster (clusterKeyFor ?m) (Inr (new_meta ''prod'' ''default''))]\<rparr>)" for xs
    by (simp add: clusterDeleting_def new_meta_def)
  have leave: "leaveViaVictim (race_env ?m peers) cfg ?m tc = State_Monad.return False" for cfg tc
    by (simp add: leaveViaVictim_def race_addresses)
  have removal: "run_state (tryEtcdRemoval (race_env ?m peers) sample_cfg ?m) \<lparr>world = (), trace = xs\<rparr>
    = (Inl (Wrap ''removing etcd member via peer'' (OtherError ''timeout'')),
       \<lparr>world = (), trace = xs @ drop 3 (before_change n peers)
          @ [TRemove 2 (MemberId member) (EtcdCallTimeout sample_cfg) (Some (OtherError ''timeout'')), TClose 2]\<rparr>)" for xs
    by (simp add: tryEtcdRemoval_def Config_def findHealthyPeer_def listControlPlaneMachines_def callServiceInfo_def
        close_call_def assms(2,3) probePeer_def race_addresses verify_then_act_def leave before_change_def etcdRunningState_def)
  have short: "\<not> After 1000000000 (Add (TruncateSecond 1000000000) (EtcdTimeout sample_cfg))"
    by (simp add: After_def Add_def TruncateSecond_def sample_cfg_def Second_def)
  show ?thesis
    by (simp add: ReconcileMachine_def racer_turn reconcileDeleting_def preTerminate_def obs cl etcdPhase_def
        serializeControlPlane_def listControlPlaneMachines_def assms(1) ensureEtcdRemoved_def removal now_call_def short)
      (simp add: before_change_def)
qed

text \<open>\<open>cp-1\<close> is being removed when \<open>cp-0\<close> is deleted in the same second: the list of the second reconcile
  shows both, and yet both ask the peer to remove a member.\<close>

theorem etcd_changes_are_serialized_witness:
  "\<exists>us1 vs1 us2 vs2 r1 r2 e1 e2.
     run_state (ReconcileMachine (race_env (racer ''cp-1'' (Some 0)) [racer ''cp-1'' (Some 0), racer ''cp-0'' None, sample_peer])
       sample_cfg sample_req) \<lparr>world = (), trace = []\<rparr> = (r1, \<lparr>world = (), trace = us1 @ TRemove 2 7 (EtcdCallTimeout sample_cfg) e1 # vs1\<rparr>)
   \<and> run_state (ReconcileMachine (race_env (racer ''cp-0'' (Some 0)) [racer ''cp-1'' (Some 0), racer ''cp-0'' (Some 0), sample_peer])
       sample_cfg sample_req) \<lparr>world = (), trace = []\<rparr> = (r2, \<lparr>world = (), trace = us2 @ TRemove 2 8 (EtcdCallTimeout sample_cfg) e2 # vs2\<rparr>)
   \<and> deletes_before (racer ''cp-0'' (Some 0)) (racer ''cp-1'' (Some 0))
   \<and> (\<exists>peers. TListPeers (racer ''cp-1'' (Some 0)) (Inr peers) \<in> set us1 \<and> \<not> listed (racer ''cp-0'' (Some 0)) peers)"
proof -
  let ?a = "racer ''cp-1'' (Some 0)" and ?b = "racer ''cp-0'' (Some 0)"
  let ?p1 = "[?a, racer ''cp-0'' None, sample_peer]" and ?p2 = "[?a, ?b, sample_peer]"
  have peer: "m_Name sample_peer = ''cp-2''" "m_Deletion sample_peer = None" "m_NodeRefName sample_peer = ''cp-2''"
    "m_Annotations sample_peer = []" by (simp_all add: sample_peer_def new_meta_def)
  have node: "m_NodeRefName (racer n d) = []" for n d by (simp add: racer_def)
  have held: "\<not> held_by ?a ?p1" "\<not> held_by ?b ?p2"
    by (simp_all add: held_by_iff holds_def deletes_before_def racer_turn peer Before_def)
  have order: "orderPeers ?p1 ?a = sample_peer # [racer ''cp-0'' None]" "orderPeers ?p2 ?b = sample_peer # []"
    by (simp_all add: orderPeers_def sortByAge_def racer_turn peer node) (simp_all add: mhas_def)
  have host: "hostnameCandidates (racer n d) = [n]" if "n \<noteq> []" for n d
    using that by (simp add: hostnameCandidates_def racer_turn) (simp add: racer_def)
  have member: "findMember (Some race_members) (hostnameCandidates ?a) = Some \<lparr>MemberId = 7, MemberHostname = ''cp-1''\<rparr>"
    "findMember (Some race_members) (hostnameCandidates ?b) = Some \<lparr>MemberId = 8, MemberHostname = ''cp-0''\<rparr>"
    by (simp_all add: host findMember_def race_members_def Let_def) (simp_all add: EqualFold_def runes_ascii fold_rune_def)
  from race_run [OF held(1) order(1) member(1)] obtain r1 vs1 where
    one: "run_state (ReconcileMachine (race_env ?a ?p1) sample_cfg sample_req) \<lparr>world = (), trace = []\<rparr>
      = (r1, \<lparr>world = (), trace = before_change ''cp-1'' ?p1 @ TRemove 2 7 (EtcdCallTimeout sample_cfg) (Some (OtherError ''timeout'')) # vs1\<rparr>)"
    by auto
  from race_run [OF held(2) order(2) member(2)] obtain r2 vs2 where
    two: "run_state (ReconcileMachine (race_env ?b ?p2) sample_cfg sample_req) \<lparr>world = (), trace = []\<rparr>
      = (r2, \<lparr>world = (), trace = before_change ''cp-0'' ?p2 @ TRemove 2 8 (EtcdCallTimeout sample_cfg) (Some (OtherError ''timeout'')) # vs2\<rparr>)"
    by auto
  have mem: "memory (before_change ''cp-1'' ?p1) = Some ?a" "memory (before_change ''cp-0'' ?p2) = Some ?b"
    by (simp_all add: memory_def before_change_def)
  have "deletes_before ?b ?a" "\<not> deletes_before ?a ?b"
    by (simp_all add: deletes_before_def racer_turn Before_def)
  with etcd_changes_are_serialized [OF one st.select_convs(2) _ mem(1) two st.select_convs(2) _ mem(2)]
  have "\<exists>peers. TListPeers ?a (Inr peers) \<in> set (before_change ''cp-1'' ?p1) \<and> \<not> listed ?b peers"
    by (simp add: racer_turn)
  moreover have "m_Namespace ?a = ''default''" by (simp add: racer_def sample_machine_def new_meta_def)
  ultimately have "\<exists>peers. TListPeers (racer ''cp-1'' (Some 0)) (Inr peers) \<in> set (before_change ''cp-1'' ?p1) \<and> \<not> listed ?b peers"
    by simp
  with one two \<open>deletes_before ?b ?a\<close> show ?thesis by blast
qed

end
