(* ===== verification/TeardownLiveness.thy ===== *)
theory TeardownLiveness
  imports TeardownProperties
begin

text \<open>
  No teardown is forgotten. The result of a reconcile tells controller-runtime what to do next: an
  error is retried with backoff, a positive duration is a timer, and zero is nothing. The theorem says
  that a Machine that waits at the gate gets zero only when its hook has just been released.
\<close>

text \<open>The Machine the handler carries along: the one it read, with other annotations.\<close>

definition carried :: "machine \<Rightarrow> machine \<Rightarrow> bool" where
  "carried m m' \<longleftrightarrow> (\<exists>a. m' = SetAnnotations a m) \<and> (HasHook m \<longrightarrow> HasHook m')"

lemma carried_refl [simp]: "carried m m"
  by (auto simp: carried_def intro: exI [of _ "m_Annotations m"])

lemma carried_phase: "k \<noteq> HookAnnotation \<Longrightarrow> carried m (SetAnnotations (mput k v (m_Annotations m)) m)"
  by (auto simp: carried_def HasHook_def)

lemma carried_trans: "carried m m1 \<Longrightarrow> carried m1 m2 \<Longrightarrow> carried m m2"
  by (auto simp: carried_def)

lemma held_by_annotations [simp]: "held_by (SetAnnotations a m) peers = held_by m peers"
proof -
  have "deletes_before p (SetAnnotations a m) = deletes_before p m" for p
    unfolding deletes_before_def SetAnnotations_sel ..
  then show ?thesis by (simp add: held_by_iff holds_def)
qed

lemma carried_same: "carried m m' \<Longrightarrow> held_by m' peers = held_by m peers \<and> m_key m' = m_key m \<and> m_Namespace m' = m_Namespace m
    \<and> clusterKeyFor m' = clusterKeyFor m"
  by (auto simp: carried_def)

section \<open>What each step leaves\<close>

lemma patchAnnotations_carries:
  assumes "\<And>a. mutate (m_Annotations m) = Some a \<Longrightarrow> carried m (SetAnnotations a m)"
  shows "yields (patchAnnotations env m mutate) (\<lambda>r _. carried m (fst r))"
  unfolding patchAnnotations_def
  by (intro yields_branch yields_bind_extcall yields_return) (auto intro: assms)

lemma stampPhase_carries: "key \<noteq> HookAnnotation \<Longrightarrow> yields (stampPhase env m key v) (\<lambda>r _. carried m (fst r))"
  unfolding stampPhase_def by (rule patchAnnotations_carries) (auto simp: carried_phase split: if_splits)

lemma ensureObservedAt_carries: "yields (ensureObservedAt env m) (\<lambda>r _. carried m (fst r))"
  unfolding ensureObservedAt_def Let_def now_call_def
  by (intro yields_branch yields_bind_extcall yields_return yields_bind [OF patchAnnotations_carries])
    (auto simp: carried_phase yields_return)

text \<open>The etcd phase ends with a conclusion, an error, or the timer of a Machine that is held.\<close>

definition etcd_result :: "machine \<Rightarrow> machine \<times> (go_error + duration) \<Rightarrow> tcall list \<Rightarrow> bool" where
  "etcd_result m r xs \<longleftrightarrow> carried m (fst r) \<and> (\<forall>d. snd r = Inr d \<longrightarrow> d = 0 \<or> d = hookWaitRequeue
     \<and> (\<exists>peers. TListPeers m (Inr peers) \<in> set xs \<and> held_by m peers))"

lemma carried_result: "carried m (fst r) \<Longrightarrow> snd r = Inr 0 \<or> (\<exists>e. snd r = Inl e) \<Longrightarrow> etcd_result m r xs"
  by (auto simp: etcd_result_def)

lemma etcd_result_mono: "etcd_result m r ys \<Longrightarrow> set ys \<subseteq> set xs \<Longrightarrow> etcd_result m r xs"
  unfolding etcd_result_def by blast

lemma recordEtcdOutcome_any: "yields (recordEtcdOutcome m outcome) (\<lambda>_ _. True)"
  unfolding recordEtcdOutcome_def event_def
  by (intro yields_bind_emit yields_branch yields_return yields_weaken [OF yields_emit]) simp_all

lemma conclude_etcd_result: "yields (conclude_etcd env m outcome) (etcd_result m)"
  unfolding conclude_etcd_def
  by (intro yields_bind [OF stampPhase_carries] yields_case_prod yields_branch yields_return
      yields_bind [OF recordEtcdOutcome_any]) (auto intro: carried_result)

lemma ensureEtcdRemoved_result: "yields (ensureEtcdRemoved env cfg m t) (etcd_result m)"
  unfolding ensureEtcdRemoved_def Let_def now_call_def event_def
  by (intro yields_bind [OF tryEtcdRemoval_calls] yields_branch yields_bind_extcall yields_bind_emit yields_return
      yields_weaken [OF conclude_etcd_result]) (auto intro: carried_result elim: etcd_result_mono)

lemma etcdPhase_result: "yields (etcdPhase env cfg m t deleting) (etcd_result m)"
  unfolding etcdPhase_def serializeControlPlane_def listControlPlaneMachines_def event_def
    State_Monad.bind_assoc State_Monad.bind_left_identity
  by (intro yields_branch yields_return yields_bind [OF stampPhase_carries] yields_case_prod yields_bind_emit
      yields_bind_extcall yields_weaken [OF ensureEtcdRemoved_result])
    (auto intro: carried_result simp: etcd_result_def split: sum.splits)

lemma resetPhase_carries: "yields (resetPhase env cfg m t) (\<lambda>r _. carried m (fst r))"
proof -
  have conclude: "yields (conclude_reset env m outcome) (\<lambda>r _. carried m (fst r))" for outcome
    unfolding conclude_reset_def event_def
    by (intro yields_bind [OF stampPhase_carries] yields_case_prod yields_bind_emit yields_branch yields_return
        yields_bind [where R = "\<lambda>_ _. True"] yields_weaken [OF yields_emit]) auto
  show ?thesis
    unfolding resetPhase_def Let_def now_call_def event_def
    by (intro yields_branch yields_return yields_bind [OF tryReset_calls] yields_bind_extcall yields_bind_emit
        conclude) simp_all
qed

section \<open>The gate\<close>

definition accepted_release :: "machine \<Rightarrow> tcall list \<Rightarrow> bool" where
  "accepted_release m xs \<longleftrightarrow> (\<exists>before after. TPatch (m_key m) before after None \<in> set xs
     \<and> mhas before HookAnnotation \<and> \<not> mhas after HookAnnotation)"

definition waits :: "machine \<Rightarrow> tcall list \<Rightarrow> bool" where
  "waits m xs \<longleftrightarrow> HasOtherPreTerminateHooks m
     \<or> (\<exists>peers. TListPeers m (Inr peers) \<in> set xs \<and> held_by m peers)"

definition gate_result :: "machine \<Rightarrow> (go_error + duration) \<Rightarrow> tcall list \<Rightarrow> bool" where
  "gate_result m result xs \<longleftrightarrow>
     (\<forall>d. result = Inr d \<longrightarrow> d = 0 \<and> accepted_release m xs \<or> d = hookWaitRequeue \<and> waits m xs)"

lemma gate_mono: "gate_result m result ys \<Longrightarrow> set ys \<subseteq> set xs \<Longrightarrow> gate_result m result xs"
  unfolding gate_result_def accepted_release_def waits_def by blast

lemma release_result:
  assumes "carried m m'" and "HasHook m"
  shows "yields (release env m') (\<lambda>r xs. snd r = None \<longrightarrow> accepted_release m xs)"
proof -
  have hook: "HasHook m'" "m_key m' = m_key m" using assms carried_same [OF assms(1)] by (auto simp: carried_def)
  have "yields (patchAnnotations env m' hook_release) (\<lambda>r xs. snd r = None \<longrightarrow> accepted_release m xs)"
    unfolding patchAnnotations_def hook_release_def
    by (intro yields_branch yields_bind_extcall yields_return)
      (use hook in \<open>auto simp: accepted_release_def HasHook_def\<close>)
  note patch = yields_bind [OF this]
  show ?thesis
    unfolding release_def event_def
    by (intro yields_branch patch yields_case_prod yields_bind_emit yields_return)
      (use hook in \<open>auto simp: accepted_release_def\<close>)
qed

lemma preTerminate_result:
  assumes "HasHook m" and "AtPreTerminate m"
  shows "yields (preTerminate env cfg m) (\<lambda>r xs. gate_result m (snd r) xs)"
proof -
  have reset: "yields (do {
      (m, e) \<leftarrow> resetPhase env cfg m' t;
      case e of
        Some err \<Rightarrow> State_Monad.return (m, Inl err)
      | None \<Rightarrow> do { (m, e) \<leftarrow> release env m; State_Monad.return (m, case e of Some err \<Rightarrow> Inl err | None \<Rightarrow> Inr 0) }
    }) (\<lambda>r xs. gate_result m (snd r) xs)" if "carried m m'" for m' t
    by (intro yields_bind [OF resetPhase_carries] yields_case_prod yields_branch yields_return
        yields_bind [OF release_result [OF _ assms(1)]])
      (use carried_trans [OF that] in \<open>auto simp: gate_result_def accepted_release_def split: option.splits\<close>)
  have waiting: "gate_result m r xs" if "etcd_result m' (m'', r) xs" "carried m m'" "r \<noteq> Inr 0" for m' m'' r xs
    using that carried_same [OF that(2)] by (auto simp: etcd_result_def gate_result_def waits_def)
  have etcd: "yields (do {
      (m, r) \<leftarrow> etcdPhase env cfg m' t deleting;
      if r \<noteq> Inr 0 then State_Monad.return (m, r)
      else do {
        (m, e) \<leftarrow> resetPhase env cfg m t;
        case e of
          Some err \<Rightarrow> State_Monad.return (m, Inl err)
        | None \<Rightarrow> do { (m, e) \<leftarrow> release env m; State_Monad.return (m, case e of Some err \<Rightarrow> Inl err | None \<Rightarrow> Inr 0) }
      }
    }) (\<lambda>r xs. gate_result m (snd r) xs)" if c: "carried m m'" for m' t deleting
  proof (rule yields_bind [OF etcdPhase_result], rule yields_case_prod, rule yields_if)
    fix p xs m'' r
    assume p: "etcd_result m' p xs" "p = (m'', r)" and r: "r \<noteq> Inr 0"
    then have "gate_result m r xs" using waiting [of m' m'' r xs] c by simp
    then show "yields (State_Monad.return (m'', r)) (\<lambda>r' ys. gate_result m (snd r') (xs @ ys))"
      by (intro yields_return) simp
  next
    fix p xs m'' r
    assume p: "etcd_result m' p xs" "p = (m'', r)"
    then have "carried m m''" using carried_trans [OF c] by (auto simp: etcd_result_def)
    then show "yields (do {
        (m, e) \<leftarrow> resetPhase env cfg m'' t;
        case e of
          Some err \<Rightarrow> State_Monad.return (m, Inl err)
        | None \<Rightarrow> do { (m, e) \<leftarrow> release env m; State_Monad.return (m, case e of Some err \<Rightarrow> Inl err | None \<Rightarrow> Inr 0) }
      }) (\<lambda>r' ys. gate_result m (snd r') (xs @ ys))"
      by (intro yields_weaken [OF reset]) (auto elim: gate_mono)
  qed
  have failed: "gate_result m (Inl err) xs" for err xs by (simp add: gate_result_def)
  show ?thesis
    unfolding preTerminate_def clusterDeleting_def State_Monad.bind_assoc State_Monad.bind_left_identity
    by (intro yields_branch yields_return yields_bind [OF ensureObservedAt_carries] yields_case_prod
        yields_bind_extcall yields_weaken [OF etcd])
      (use assms in \<open>auto simp: failed gate_result_def [of m "Inr hookWaitRequeue"] waits_def elim: gate_mono\<close>)
qed

text \<open>C11: No teardown is forgotten. A reconcile of a Machine that waits at the pre-terminate gate with the
  controller's hook ends in one of three ways: with an error, which controller-runtime retries; with a
  positive timer, and then another hook is still set or an older deletion of the control plane is
  listed; or with nothing more to do, and then the patch that releases the hook has been accepted.\<close>

theorem teardown_never_stalls:
  assumes "run_state (ReconcileMachine env cfg req) \<lparr>world = w, trace = []\<rparr> = (result, s')"
    and "fst (te_GetMachine env req w) = Inr m"
    and "HasHook m" and "m_Deletion m \<noteq> None" and "AtPreTerminate m"
  shows "case result of
     Inl err \<Rightarrow> True
   | Inr d \<Rightarrow> d = 0 \<and> accepted_release m (trace s')
       \<or> 0 < d \<and> (HasOtherPreTerminateHooks m
            \<or> (\<exists>peers. TListPeers m (Inr peers) \<in> set (trace s') \<and> held_by m peers))"
proof -
  have q: "0 < hookWaitRequeue" by (simp add: hookWaitRequeue_def Second_def)
  obtain w' where g: "te_GetMachine env req w = (Inr m, w')" using assms(2) by (metis prod.collapse)
  let ?s = "\<lparr>world = w', trace = [TGetMachine req (Inr m)]\<rparr>"
  obtain r s2 where r: "run_state (preTerminate env cfg m) ?s = (r, s2)" by fastforce
  then have "result = snd r \<and> s' = s2"
    using assms(1,3,4) g by (auto simp: ReconcileMachine_def reconcileDeleting_def split: prod.splits)
  moreover from yields_run [OF preTerminate_result [OF assms(3,5)] r] obtain xs where
    "trace s2 = [TGetMachine req (Inr m)] @ xs" "gate_result m (snd r) xs" by auto
  then have "gate_result m (snd r) (trace s2)" by (auto elim: gate_mono)
  ultimately show ?thesis
    using q by (auto simp: gate_result_def waits_def split: sum.split)
qed

theorem teardown_never_stalls_witness:
  "accepted_release sample_machine sample_trace"
  using teardown_never_stalls [OF sample_run, of sample_machine] sample_turn by simp

end
