(* ===== verification/TeardownMetrics.thy ===== *)
theory TeardownMetrics
  imports TeardownSample Collectors
begin

text \<open>
  The teardown's metrics tell the truth. Counters and the histogram's count are read off the trace as a
  multiset of increments, each a metric name with its label value; what they should count is read off
  the accepted patches and the acknowledged resets.
\<close>

section \<open>Increments and what they count\<close>

fun counted :: "tcall \<Rightarrow> (string \<times> string) multiset" where
  "counted (TMetric name label) = {#(name, label)#}"
| "counted (TResetDuration d) = {#(collector_name resetDuration, [])#}"
| "counted _ = {#}"

fun recorded :: "string \<Rightarrow> collector \<Rightarrow> gomap \<Rightarrow> gomap \<Rightarrow> (string \<times> string) multiset" where
  "recorded key c before after =
     (if \<not> mhas before key \<and> mhas after key then {#(collector_name c, mget after key)#} else {#})"

fun earned :: "tcall \<Rightarrow> (string \<times> string) multiset" where
  "earned (TPatch _ before after None) =
     recorded EtcdAnnotation etcdOutcomes before after + recorded ResetAnnotation resetOutcomes before after
     + (if mhas before HookAnnotation \<and> \<not> mhas after HookAnnotation then {#(collector_name machinesCompleted, [])#} else {#})"
| "earned (TReset _ _ _ None) = {#(collector_name resetDuration, [])#}"
| "earned _ = {#}"

abbreviation metered :: "('w, 'r) tprog \<Rightarrow> ('r \<Rightarrow> bool) \<Rightarrow> bool" where
  "metered \<equiv> books counted earned"

lemma earned_failed [simp]: "earned (TPatch k b a (Some e)) = {#}" "earned (TReset c r d (Some e)) = {#}"
  by simp_all

section \<open>Each operation keeps the books\<close>

lemma resolveAddress_metered: "metered (resolveAddress env m) (\<lambda>_. True)"
  unfolding resolveAddress_def hardwareAddress_def Let_def
  by (intro books_intros books_return) simp_all

lemma Config_metered: "metered (Config env ns cluster) (\<lambda>_. True)"
  unfolding Config_def by (intro books_intros books_return) simp_all

lemma Ensure_metered: "metered (Ensure env ns cluster) (\<lambda>_. True)"
  unfolding Ensure_def Let_def
  by (intro books_intros books_return) simp_all

lemma probePeer_metered: "metered (probePeer env cfg tc peer) (\<lambda>_. True)"
  unfolding probePeer_def callServiceInfo_def close_call_def
  by (intro books_bind_any [OF resolveAddress_metered] books_intros books_return) simp_all

lemma findHealthyPeer_metered: "metered (findHealthyPeer env cfg m tc) (\<lambda>_. True)"
proof -
  have probes: "metered (probe_peers env cfg tc peers) (\<lambda>_. True)" for peers
    by (induction peers) (auto intro!: books_bind_any [OF probePeer_metered] books_branch books_return)
  show ?thesis
    unfolding findHealthyPeer_def listControlPlaneMachines_def
    by (intro books_intros books_return probes) simp_all
qed

lemma leaveViaVictim_metered: "metered (leaveViaVictim env cfg m tc) (\<lambda>_. True)"
  unfolding leaveViaVictim_def leave_dialog_def callServiceInfo_def close_call_def
  by (intro books_bind_any [OF resolveAddress_metered] books_intros books_return) simp_all

text \<open>An outcome is a non-empty text, so a stamp is never taken for a repetition.\<close>

definition conclusive :: "go_error + string \<Rightarrow> bool" where
  "conclusive r \<longleftrightarrow> r \<noteq> Inr []"

lemma conclusive_simps [simp]:
  "conclusive (Inl e)" "conclusive (Inr v) \<longleftrightarrow> v \<noteq> []"
  by (simp_all add: conclusive_def)

lemma tryEtcdRemoval_metered: "metered (tryEtcdRemoval env cfg m) conclusive"
proof -
  have act: "metered (verify_then_act env cfg m tc c resp) conclusive" for tc c resp
    unfolding verify_then_act_def
    by (intro books_bind_any [OF leaveViaVictim_metered] books_intros books_return)
      (auto simp: conclusion_defs split: option.split)
  show ?thesis
    unfolding tryEtcdRemoval_def event_def close_call_def
    by (intro books_bind_any [OF Config_metered] books_bind_any [OF findHealthyPeer_metered] books_bind [OF act]
        books_intros books_return) simp_all
qed

text \<open>The acknowledged reset and the duration observed for it.\<close>

lemma reset_dialog_metered: "metered (reset_dialog env cfg c) conclusive"
  unfolding reset_dialog_def now_call_def
  by (rule booksI, intro yields_branch yields_bind_extcall yields_bind_emit yields_return)
    (auto simp: conclusion_defs split: option.splits)

lemma tryReset_metered: "metered (tryReset env cfg m) conclusive"
  unfolding tryReset_def event_def close_call_def
  by (intro books_bind_any [OF resolveAddress_metered] books_bind_any [OF Config_metered]
      books_bind [OF reset_dialog_metered] books_intros books_return) (simp_all add: conclusion_defs)

text \<open>A patch, and what its answer commits to.\<close>

definition patch_trace :: "machine \<Rightarrow> (gomap \<Rightarrow> gomap option) \<Rightarrow> machine \<times> go_error option \<Rightarrow> tcall list \<Rightarrow> bool" where
  "patch_trace m mutate r xs \<longleftrightarrow> (case mutate (m_Annotations m) of
     None \<Rightarrow> xs = []
   | Some a \<Rightarrow> xs = [] \<and> snd r \<noteq> None \<or> xs = [TPatch (m_key m) (m_Annotations m) a (snd r)])
   \<and> (snd r = None \<longrightarrow> fst r = (case mutate (m_Annotations m) of None \<Rightarrow> m | Some a \<Rightarrow> SetAnnotations a m))"

lemma patchAnnotations_trace: "yields (patchAnnotations env m mutate) (patch_trace m mutate)"
  unfolding patchAnnotations_def
  by (intro yields_branch yields_bind_extcall yields_return) (auto simp: patch_trace_def split: option.splits)

text \<open>A patch that concludes nothing.\<close>

lemma patchAnnotations_metered:
  assumes "\<And>a. mutate (m_Annotations m) = Some a \<Longrightarrow> earned (TPatch (m_key m) (m_Annotations m) a None) = {#}"
  shows "metered (patchAnnotations env m mutate) (\<lambda>_. True)"
proof (rule booksI, rule yields_weaken [OF patchAnnotations_trace])
  fix r xs
  assume "patch_trace m mutate r xs"
  with assms show "tally counted xs = tally earned xs \<and> True"
    by (cases "snd r") (auto simp: patch_trace_def split: option.splits)
qed

text \<open>A patch that concludes something, and the increment that follows when it was accepted.\<close>

lemma patch_then_count:
  assumes "mutate (m_Annotations m) = Some a"
    and "\<And>m'. yields (k m' None) (\<lambda>r xs. tally counted xs = tally earned xs + earned (TPatch (m_key m) (m_Annotations m) a None) \<and> Q r)"
    and "\<And>m' err. metered (k m' (Some err)) Q"
  shows "metered (do { (m', e) \<leftarrow> patchAnnotations env m mutate; k m' e }) Q"
proof (rule booksI, rule yields_bind [OF patchAnnotations_trace])
  fix r xs
  assume p: "patch_trace m mutate r xs"
  obtain m' e where r: "r = (m', e)" by fastforce
  show "yields (case r of (m', e) \<Rightarrow> k m' e) (\<lambda>r ys. tally counted (xs @ ys) = tally earned (xs @ ys) \<and> Q r)"
  proof (cases e)
    case None
    with p r assms(1) have "xs = [TPatch (m_key m) (m_Annotations m) a None]" by (auto simp: patch_trace_def)
    then show ?thesis
      unfolding r None prod.case by (intro yields_weaken [OF assms(2)]) (simp add: union_commute del: earned.simps)
  next
    case (Some err)
    with p r assms(1) have "tally counted xs = {#}" "tally earned xs = {#}" by (auto simp: patch_trace_def)
    then show ?thesis
      unfolding r Some prod.case by (intro yields_weaken [OF assms(3) [unfolded books_def]]) simp
  qed
qed

lemma ensureHook_metered: "metered (ensureHook env m) (\<lambda>_. True)"
proof -
  have "\<not> HasHook m \<Longrightarrow> metered (patchAnnotations env m hook_stamp) (\<lambda>_. True)"
    by (rule patchAnnotations_metered) (auto simp: hook_stamp_def HasHook_def)
  then show ?thesis
    unfolding ensureHook_def event_def
    by (intro books_branch books_return books_bind_any [of _ _ "patchAnnotations env m hook_stamp"] books_bind_any [of _ _ "emit _"]
        books_emit) auto
qed

lemma ensureCredentials_metered: "metered (ensureCredentials env cfg m) (\<lambda>_. True)"
  unfolding ensureCredentials_def event_def
  by (intro books_bind_any [OF Ensure_metered] books_intros books_return) simp_all

lemma ensureObservedAt_metered: "metered (ensureObservedAt env m) (\<lambda>_. True)"
  unfolding ensureObservedAt_def now_call_def Let_def
  by (intro books_branch books_return books_bind_any [OF books_extcall] books_bind_any [OF patchAnnotations_metered])
    auto

lemma stamp_then_count:
  assumes "\<not> mhas (m_Annotations m) key" and "v \<noteq> []" and "key \<noteq> HookAnnotation"
    and "\<And>m'. yields (k m' None) (\<lambda>r xs. tally counted xs = tally earned xs
      + earned (TPatch (m_key m) (m_Annotations m) (mput key v (m_Annotations m)) None) \<and> Q r)"
    and "\<And>m' err. metered (k m' (Some err)) Q"
  shows "metered (do { (m', e) \<leftarrow> stampPhase env m key v; k m' e }) Q"
  unfolding stampPhase_def
  by (rule patch_then_count [OF _ assms(4,5)]) (use assms(1,2) in \<open>simp add: mget_absent\<close>)

lemma conclude_etcd_metered:
  assumes "\<not> mhas (m_Annotations m) EtcdAnnotation" and "outcome \<noteq> []"
  shows "metered (conclude_etcd env m outcome) (\<lambda>_. True)"
  unfolding conclude_etcd_def recordEtcdOutcome_def event_def
  by (rule stamp_then_count [OF assms])
    (use assms in \<open>auto intro!: books_return yields_branch yields_bind_emit yields_return
       yields_bind [OF yields_branch(3)] simp: metric_names\<close>)

lemma etcdPhase_metered: "metered (etcdPhase env cfg m t deleting) (\<lambda>_. True)"
proof (cases "mhas (m_Annotations m) EtcdAnnotation")
  case False
  have skip: "metered (do {
        (m', e) \<leftarrow> stampPhase env m EtcdAnnotation EtcdSkippedClusterDelete;
        case e of
          Some err \<Rightarrow> State_Monad.return (m', Inl err)
        | None \<Rightarrow> do {
            event m' ''Normal'' EventEtcdSkippedClusterDelete;
            emit (TMetric ''teardown_etcd_total'' EtcdSkippedClusterDelete);
            State_Monad.return (m', Inr 0)
          }
      }) (\<lambda>_. True)"
    unfolding event_def
    by (rule stamp_then_count [OF False])
      (use False in \<open>auto intro!: books_return yields_bind_emit yields_return simp: conclusion_defs metric_names\<close>)
  have removal: "metered (ensureEtcdRemoved env cfg m t) (\<lambda>_. True)"
    unfolding ensureEtcdRemoved_def Let_def now_call_def event_def
    by (intro books_bind [OF tryEtcdRemoval_metered] books_intros books_return conclude_etcd_metered [OF False])
      (auto simp: conclusion_defs)
  show ?thesis
    unfolding etcdPhase_def serializeControlPlane_def listControlPlaneMachines_def
    by (intro skip removal books_branch books_return books_bind_any [OF books_bind_any [OF books_extcall]]) simp_all
qed (simp add: etcdPhase_def books_return)

lemma conclude_reset_metered:
  assumes "\<not> mhas (m_Annotations m) ResetAnnotation" and "outcome \<noteq> []"
  shows "metered (conclude_reset env m outcome) (\<lambda>_. True)"
  unfolding conclude_reset_def event_def
  by (rule stamp_then_count [OF assms])
    (use assms in \<open>auto intro!: books_return yields_bind_emit yields_return simp: metric_names\<close>)

lemma resetPhase_metered: "metered (resetPhase env cfg m t) (\<lambda>_. True)"
  unfolding resetPhase_def Let_def now_call_def event_def
  by (intro books_branch books_return books_bind [OF tryReset_metered] books_bind_any [OF books_extcall]
      books_bind_any [OF books_emit] conclude_reset_metered) (auto simp: conclusion_defs)

lemma release_metered: "metered (release env m) (\<lambda>_. True)"
proof (cases "HasHook m")
  case True
  then show ?thesis
    unfolding release_def event_def
    by (simp, intro patch_then_count)
      (auto intro!: books_return yields_bind_emit yields_return simp: hook_release_def HasHook_def metric_names)
qed (simp add: release_def books_return)

lemma preTerminate_metered: "metered (preTerminate env cfg m) (\<lambda>_. True)"
proof -
  have cl: "metered (clusterDeleting env m) (\<lambda>_. True)" for m
    unfolding clusterDeleting_def by (intro books_intros books_return) simp_all
  show ?thesis
    unfolding preTerminate_def
    by (intro books_branch books_return books_bind_any [OF ensureObservedAt_metered] books_bind_any [OF cl]
        books_bind_any [OF etcdPhase_metered] books_bind_any [OF resetPhase_metered] books_bind_any [OF release_metered])
      simp_all
qed

lemma earned_registered: "p \<in># earned x \<Longrightarrow>
    fst p \<in> set (map collector_name teardown_collectors)"
  by (cases x rule: earned.cases) (auto simp: teardown_collectors_def split: if_splits)

lemma tally_member: "p \<in># tally f xs \<Longrightarrow> \<exists>x \<in> set xs. p \<in># f x"
  by (induction xs) auto

text \<open>C13: The metrics tell the truth. In every reconcile, whatever fails, the increments are exactly the
  facts: one of \<open>teardown_machines_total\<close> per accepted release of the hook, one of
  \<open>teardown_etcd_total\<close> and of \<open>teardown_reset_total\<close> per accepted patch that records a conclusion of the
  phase, under that conclusion's outcome, and one observed duration per acknowledged reset; and each
  goes to a collector that is registered.\<close>

theorem metrics_tell_the_truth:
  assumes "run_state (ReconcileMachine env cfg req) \<lparr>world = w, trace = []\<rparr> = (result, s')"
  shows "tally counted (trace s') = tally earned (trace s')
    \<and> fst ` set_mset (tally counted (trace s')) \<subseteq> set (map collector_name teardown_collectors)"
proof -
  have "metered (reconcileDeleting env cfg m) (\<lambda>_. True)" for m
    unfolding reconcileDeleting_def
    by (intro books_branch books_return books_bind_any [OF ensureHook_metered] books_bind_any [OF ensureCredentials_metered]
        preTerminate_metered) simp_all
  moreover have "metered (reconcileNormal env cfg m) (\<lambda>_. True)" for m
    unfolding reconcileNormal_def
    by (intro books_branch books_return books_bind_any [OF ensureHook_metered] ensureCredentials_metered) simp_all
  ultimately have "metered (ReconcileMachine env cfg req) (\<lambda>_. True)"
    unfolding ReconcileMachine_def by (intro books_intros books_return) simp_all
  from books_run [OF this assms] have eq: "tally counted (trace s') = tally earned (trace s')" by simp
  with eq show ?thesis by (auto dest!: tally_member earned_registered)
qed

theorem metrics_tell_the_truth_witness:
  "tally earned sample_trace = {#(''teardown_etcd_total'', EtcdRemoved), (''teardown_reset_total'', ResetDone),
     (''teardown_reset_duration_seconds'', []), (''teardown_machines_total'', [])#}"
proof -
  have "tally counted sample_trace = {#(''teardown_etcd_total'', EtcdRemoved), (''teardown_reset_total'', ResetDone),
     (''teardown_reset_duration_seconds'', []), (''teardown_machines_total'', [])#}"
    by (simp add: sample_trace_def removal_trace_def reset_trace_def sample_patch_def metric_names)
  with metrics_tell_the_truth [OF sample_run] show ?thesis by simp
qed

end
