(* ===== verification/TalosClient.thy ===== *)
theory TalosClient
  imports Teardown
begin

text \<open>
  \<open>internal/teardown/talos.go\<close>: the production client factory and the adapter from the Talos library's
  client to the seam \<open>Client\<close>. The library is a record of functions on client handles; the wrapping
  \<open>realClient\<close> adds nothing to the handle, and each of its methods forwards. \<open>production_tenv\<close> is an
  environment of the teardown whose Talos calls are those of the factory and the adapter.
\<close>

datatype talos_option =
    WithConfig talos_config
  | WithEndpoints "string list"
  | WithDefaultGRPCDialOptions

text \<open>The empty request messages carry nothing; a removal request carries the member's id.\<close>

record 'w talos_library =
  tl_New :: "talos_option list \<Rightarrow> 'w \<Rightarrow> (go_error + talos_client) \<times> 'w"
  tl_ServiceInfo :: "talos_client \<Rightarrow> string \<Rightarrow> duration \<Rightarrow> 'w \<Rightarrow> (go_error + service_info list) \<times> 'w"
  tl_EtcdMemberList :: "talos_client \<Rightarrow> duration \<Rightarrow> 'w \<Rightarrow> (go_error + member_list_response option) \<times> 'w"
  tl_EtcdForfeitLeadership :: "talos_client \<Rightarrow> duration \<Rightarrow> 'w \<Rightarrow> go_error option \<times> 'w"
  tl_EtcdLeaveCluster :: "talos_client \<Rightarrow> duration \<Rightarrow> 'w \<Rightarrow> go_error option \<times> 'w"
  tl_EtcdRemoveMemberByID :: "talos_client \<Rightarrow> nat \<Rightarrow> duration \<Rightarrow> 'w \<Rightarrow> go_error option \<times> 'w"
  tl_ResetGeneric :: "talos_client \<Rightarrow> reset_request \<Rightarrow> duration \<Rightarrow> 'w \<Rightarrow> go_error option \<times> 'w"
  tl_Close :: "talos_client \<Rightarrow> 'w \<Rightarrow> go_error option \<times> 'w"

datatype realClient = RealClient talos_client

definition NewTalosClient ::
    "'w talos_library \<Rightarrow> talos_config \<Rightarrow> string \<Rightarrow> 'w \<Rightarrow> (go_error + realClient) \<times> 'w" where
  "NewTalosClient lib cfg endpoint w =
     (case tl_New lib [WithConfig cfg, WithEndpoints [endpoint], WithDefaultGRPCDialOptions] w of
        (Inl err, w') \<Rightarrow> (Inl err, w')
      | (Inr c, w') \<Rightarrow> (Inr (RealClient c), w'))"

fun realClient_ServiceInfo ::
    "'w talos_library \<Rightarrow> realClient \<Rightarrow> string \<Rightarrow> duration \<Rightarrow> 'w \<Rightarrow> (go_error + service_info list) \<times> 'w" where
  "realClient_ServiceInfo lib (RealClient c) service d = tl_ServiceInfo lib c service d"

fun realClient_EtcdMemberList ::
    "'w talos_library \<Rightarrow> realClient \<Rightarrow> duration \<Rightarrow> 'w \<Rightarrow> (go_error + member_list_response option) \<times> 'w" where
  "realClient_EtcdMemberList lib (RealClient c) d = tl_EtcdMemberList lib c d"

fun realClient_EtcdForfeitLeadership ::
    "'w talos_library \<Rightarrow> realClient \<Rightarrow> duration \<Rightarrow> 'w \<Rightarrow> go_error option \<times> 'w" where
  "realClient_EtcdForfeitLeadership lib (RealClient c) d = tl_EtcdForfeitLeadership lib c d"

fun realClient_EtcdLeaveCluster ::
    "'w talos_library \<Rightarrow> realClient \<Rightarrow> duration \<Rightarrow> 'w \<Rightarrow> go_error option \<times> 'w" where
  "realClient_EtcdLeaveCluster lib (RealClient c) d = tl_EtcdLeaveCluster lib c d"

fun realClient_EtcdRemoveMemberByID ::
    "'w talos_library \<Rightarrow> realClient \<Rightarrow> nat \<Rightarrow> duration \<Rightarrow> 'w \<Rightarrow> go_error option \<times> 'w" where
  "realClient_EtcdRemoveMemberByID lib (RealClient c) i d = tl_EtcdRemoveMemberByID lib c i d"

fun realClient_ResetGeneric ::
    "'w talos_library \<Rightarrow> realClient \<Rightarrow> reset_request \<Rightarrow> duration \<Rightarrow> 'w \<Rightarrow> go_error option \<times> 'w" where
  "realClient_ResetGeneric lib (RealClient c) req d = tl_ResetGeneric lib c req d"

fun realClient_Close :: "'w talos_library \<Rightarrow> realClient \<Rightarrow> 'w \<Rightarrow> go_error option \<times> 'w" where
  "realClient_Close lib (RealClient c) = tl_Close lib c"

text \<open>The teardown calls the seam through the handle inside; \<open>ServiceInfo\<close> is asked for etcd only.\<close>

fun handle_of :: "realClient \<Rightarrow> talos_client" where
  "handle_of (RealClient c) = c"

definition dial_production :: "'w talos_library \<Rightarrow> talos_config \<Rightarrow> string \<Rightarrow> 'w \<Rightarrow> (go_error + talos_client) \<times> 'w" where
  "dial_production lib cfg endpoint w = (case NewTalosClient lib cfg endpoint w of
     (Inl err, w') \<Rightarrow> (Inl err, w')
   | (Inr rc, w') \<Rightarrow> (Inr (handle_of rc), w'))"

definition production_tenv :: "'w talos_library \<Rightarrow> 'w tenv \<Rightarrow> 'w tenv" where
  "production_tenv lib env = env\<lparr>
     te_Dial := dial_production lib,
     te_ServiceInfo := (\<lambda>c. realClient_ServiceInfo lib (RealClient c) ''etcd''),
     te_EtcdMemberList := (\<lambda>c. realClient_EtcdMemberList lib (RealClient c)),
     te_EtcdForfeitLeadership := (\<lambda>c. realClient_EtcdForfeitLeadership lib (RealClient c)),
     te_EtcdLeaveCluster := (\<lambda>c. realClient_EtcdLeaveCluster lib (RealClient c)),
     te_EtcdRemoveMemberByID := (\<lambda>c. realClient_EtcdRemoveMemberByID lib (RealClient c)),
     te_ResetGeneric := (\<lambda>c. realClient_ResetGeneric lib (RealClient c)),
     te_Close := (\<lambda>c. realClient_Close lib (RealClient c))\<rparr>"

text \<open>
  What the library promises of a new client: it talks to the endpoints of the options, the last
  \<open>WithEndpoints\<close> overriding those of the configuration.
\<close>

fun option_endpoints :: "string list \<Rightarrow> talos_option list \<Rightarrow> string list" where
  "option_endpoints es [] = es"
| "option_endpoints es (WithEndpoints es' # rest) = option_endpoints es' rest"
| "option_endpoints es (_ # rest) = option_endpoints es rest"

definition honours_endpoints :: "'w talos_library \<Rightarrow> (talos_client \<Rightarrow> string list) \<Rightarrow> bool" where
  "honours_endpoints lib endpoints \<longleftrightarrow> (\<forall>opts w c w'. (\<exists>es. WithEndpoints es \<in> set opts) \<longrightarrow>
     tl_New lib opts w = (Inr c, w') \<longrightarrow> endpoints c = option_endpoints [] opts)"

lemma dial_production_endpoint:
  assumes "honours_endpoints lib endpoints" and "dial_production lib cfg a w = (Inr c, w')"
  shows "endpoints c = [a]"
proof -
  let ?opts = "[WithConfig cfg, WithEndpoints [a], WithDefaultGRPCDialOptions]"
  obtain w'' where "tl_New lib ?opts w = (Inr c, w'')"
    using assms(2) by (auto simp: dial_production_def NewTalosClient_def split: prod.splits sum.splits)
  with assms(1) have "endpoints c = option_endpoints [] ?opts"
    unfolding honours_endpoints_def by (metis list.set_intros(1,2))
  then show ?thesis by simp
qed

end
