(* ===== verification/TalosTargets.thy ===== *)
theory TalosTargets
  imports TalosClient TeardownRefinement TeardownSample
begin

text \<open>
  Which node a Talos call reaches. A second protocol over the calls of a reconcile, beside that of
  \<open>TeardownProtocol\<close>: a client is made by the factory, a handle used only after it was dialled, the reset and the
  leave use one dialled at an address of the deleted Machine. That a removal uses the client of a healthy
  peer is in \<open>TeardownProtocol\<close> already.
\<close>

section \<open>The protocol\<close>

definition dialled :: "talos_client \<Rightarrow> tcall list \<Rightarrow> bool" where
  "dialled c us \<longleftrightarrow> (\<exists>a. TDial a (Inr c) \<in> set us)"

text \<open>The client was dialled at a non-empty address that the reads so far found for the Machine.\<close>

definition dialled_at :: "machine \<Rightarrow> tcall list \<Rightarrow> talos_client \<Rightarrow> bool" where
  "dialled_at m us c \<longleftrightarrow> (\<exists>a. a \<noteq> [] \<and> TDial a (Inr c) \<in> set us \<and> resolves us m a)"

fun targeted :: "'w tenv \<Rightarrow> machine \<Rightarrow> tcall list \<Rightarrow> tcall \<Rightarrow> bool" where
  "targeted env m us (TReset c _ _ _) = dialled_at m us c"
| "targeted env m us (TForfeit c _ _) = dialled_at m us c"
| "targeted env m us (TLeave c _ _) = dialled_at m us c"
| "targeted env m us (TRemove c _ _ _) = dialled c us"
| "targeted env m us (TServiceInfo c _ _) = dialled c us"
| "targeted env m us (TMemberList c _ _) = dialled c us"
| "targeted env m us (TClose c) = dialled c us"
| "targeted env m us (TDial a r) = (\<exists>tc w. r = fst (te_Dial env tc a w))"
| "targeted env m us _ = True"

text \<open>Calls that use and make no client.\<close>

fun clientless :: "tcall \<Rightarrow> bool" where
  "clientless (TReset _ _ _ _) = False"
| "clientless (TForfeit _ _ _) = False"
| "clientless (TLeave _ _ _) = False"
| "clientless (TRemove _ _ _ _) = False"
| "clientless (TServiceInfo _ _ _) = False"
| "clientless (TMemberList _ _ _) = False"
| "clientless (TClose _) = False"
| "clientless (TDial _ _) = False"
| "clientless _ = True"

lemma clientless_targeted: "clientless x \<Longrightarrow> targeted env m us x"
  by (cases x) auto

lemma dialled_grows [intro]:
  shows "dialled c us \<Longrightarrow> dialled c (us @ xs)"
    and "dialled_at m us c \<Longrightarrow> dialled_at m (us @ xs) c"
  by (auto simp: dialled_def dialled_at_def)

lemma dialled_at_dialled: "dialled_at m us c \<Longrightarrow> dialled c us"
  by (auto simp: dialled_at_def dialled_def)

lemma guarded_clientless: "\<forall>x \<in> set xs. clientless x \<Longrightarrow> guarded (targeted env m) us xs"
  by (induction xs arbitrary: us) (auto intro: clientless_targeted)

lemma lookups_clientless: "lookups xs \<Longrightarrow> \<forall>x \<in> set xs. clientless x"
  by (induction xs) (auto elim: is_lookup.elims)

lemmas guarded_lookups = guarded_clientless [OF lookups_clientless]

text \<open>A program that uses no client keeps to the protocol, whatever it is run after.\<close>

lemma follows_clientless:
  assumes "calls_only clientless p"
  shows "follows (targeted env m) us p (\<lambda>_ vs. \<exists>xs. vs = us @ xs)"
  by (rule follows_weaken [OF follows_yields [OF assms]]) (auto intro: guarded_clientless)

lemma follows_bind_clientless:
  assumes "calls_only clientless p" and "\<And>r xs. follows (targeted env m) (us @ xs) (k r) Q"
  shows "follows (targeted env m) us (State_Monad.bind p k) Q"
  by (rule follows_bind [OF follows_clientless [OF assms(1)]]) (use assms(2) in auto)

lemma Config_clientless: "calls_only clientless (Config env ns cluster)"
  by (rule yields_weaken [OF Config_lookups]) (simp add: lookups_clientless)

section \<open>The dialogs\<close>

lemma reset_dialog_targeted:
  assumes "dialled_at m us c"
  shows "follows (targeted env m) us (reset_dialog env cfg c) (\<lambda>_ vs. dialled c vs)"
  unfolding reset_dialog_def now_call_def
  by (intro follows_bind_extcall follows_bind_emit follows_branch follows_return)
    (use assms dialled_at_dialled [OF assms] in \<open>auto simp: dialled_at_def dialled_def\<close>)

lemma tryReset_targeted: "follows (targeted env m) us (tryReset env cfg m) (\<lambda>_ _. True)"
  unfolding tryReset_def
proof (rule follows_bind_yields [OF resolveAddress_resolves], goal_cases)
  case (1 a xs)
  then show ?case by (simp add: guarded_lookups)
next
  case (2 a xs)
  have dial: "follows (targeted env m) vs (do {
       d \<leftarrow> extcall (TDial address) (te_Dial env tc address);
       case d of
         Inl err \<Rightarrow> State_Monad.return (Inl err)
       | Inr c \<Rightarrow> do {
           outcome \<leftarrow> reset_dialog env cfg c;
           close_call env c;
           State_Monad.return outcome
         }
     }) (\<lambda>_ _. True)" if "resolves vs m address" "address \<noteq> []" for vs tc address
    unfolding close_call_def
    by (intro follows_bind_call follows_branch follows_return follows_bind [OF reset_dialog_targeted])
      (use that in \<open>auto simp: dialled_at_def dialled_def\<close>)
  show ?case
    unfolding event_def
    by (intro follows_branch follows_return follows_bind_clientless [OF Config_clientless] follows_bind_emit dial)
      (use 2 in auto)
qed

lemma probePeer_targeted:
  "follows (targeted env m) us (probePeer env cfg tc peer)
     (\<lambda>r vs. \<forall>found. r = Some found \<longrightarrow> dialled (fst found) vs)"
  unfolding probePeer_def callServiceInfo_def close_call_def
proof (rule follows_bind_yields [OF resolveAddress_resolves], goal_cases)
  case (1 a xs)
  then show ?case by (simp add: guarded_lookups)
next
  case (2 a xs)
  then show ?case
    by (intro follows_branch follows_return follows_bind_call) (auto simp: dialled_def)
qed

lemma probe_peers_targeted:
  "follows (targeted env m) us (probe_peers env cfg tc peers)
     (\<lambda>r vs. \<forall>found. r = Inr found \<longrightarrow> dialled (fst found) vs)"
proof (induction peers arbitrary: us)
  case Nil
  show ?case by (simp, rule follows_return) simp
next
  case (Cons peer peers)
  show ?case
    unfolding probe_peers.simps
    by (rule follows_bind [OF probePeer_targeted], intro follows_branch follows_return Cons.IH) auto
qed

lemma findHealthyPeer_targeted:
  "follows (targeted env m) us (findHealthyPeer env cfg m tc)
     (\<lambda>r vs. \<forall>found. r = Inr found \<longrightarrow> dialled (fst found) vs)"
  unfolding findHealthyPeer_def listControlPlaneMachines_def
  by (intro follows_bind_extcall follows_branch follows_return probe_peers_targeted) simp_all

lemma leave_dialog_targeted:
  assumes "dialled_at m us c"
  shows "follows (targeted env m) us (leave_dialog env cfg m c) (\<lambda>_ vs. \<exists>xs. vs = us @ xs)"
proof -
  note c = assms dialled_at_dialled [OF assms]
  have forfeit: "follows (targeted env m) vs (if \<not> mhas (m_Annotations m) EtcdLeavingAnnotation then do {
          e \<leftarrow> extcall (TForfeit c d) (te_EtcdForfeitLeadership env c d);
          State_Monad.return ()
        } else State_Monad.return ()) (\<lambda>_ vs'. \<exists>xs. vs' = vs @ xs)" if "dialled_at m vs c" for vs d
    by (intro follows_branch follows_return follows_bind_extcall) (use that in auto)
  show ?thesis
    unfolding leave_dialog_def callServiceInfo_def
    by (intro follows_bind_extcall follows_branch follows_return follows_bind [OF forfeit]) (use c in auto)
qed

lemma leaveViaVictim_targeted:
  "follows (targeted env m) us (leaveViaVictim env cfg m tc) (\<lambda>_ vs. \<exists>xs. vs = us @ xs)"
  unfolding leaveViaVictim_def close_call_def
proof (rule follows_bind_yields [OF resolveAddress_resolves], goal_cases)
  case (1 a xs)
  then show ?case by (simp add: guarded_lookups)
next
  case (2 a xs)
  have d: "dialled_at m ((us @ xs) @ [TDial address (fst (te_Dial env tc address w))]) c"
    if "a = Inr address" "address \<noteq> []" "fst (te_Dial env tc address w) = Inr c" for address c w
    using 2 that by (auto simp: dialled_at_def)
  show ?case
    by (intro follows_branch follows_return follows_bind_call follows_bind [OF leave_dialog_targeted [OF d]])
      (auto simp: dialled_def)
qed

lemma verify_then_act_targeted:
  assumes "dialled c us"
  shows "follows (targeted env m) us (verify_then_act env cfg m tc c resp) (\<lambda>_ vs. dialled c vs)"
  unfolding verify_then_act_def
  by (intro follows_branch follows_return follows_bind [OF leaveViaVictim_targeted] follows_bind_extcall)
    (use assms in auto)

lemma tryEtcdRemoval_targeted: "follows (targeted env m) us (tryEtcdRemoval env cfg m) (\<lambda>_ _. True)"
  unfolding tryEtcdRemoval_def event_def close_call_def
  by (intro follows_bind_clientless [OF Config_clientless] follows_branch follows_return follows_bind_emit
      follows_bind [OF findHealthyPeer_targeted] follows_bind [OF verify_then_act_targeted] follows_bind_extcall) auto

section \<open>The handler\<close>

text \<open>The operations that only patch, and the Machine they hand on.\<close>

definition same_node :: "machine \<Rightarrow> machine \<Rightarrow> bool" where
  "same_node m m' \<longleftrightarrow> (\<exists>a. m' = SetAnnotations a m)"

lemma same_node_intros [intro]: "same_node m m" "same_node m m' \<Longrightarrow> same_node m (SetAnnotations a m')"
  by (auto simp: same_node_def intro: SetAnnotations_sel(13) [symmetric])

lemma targeted_same_node: "same_node m m' \<Longrightarrow> targeted env m' = targeted env m"
proof (intro ext)
  fix us x
  assume "same_node m m'"
  then obtain a where m': "m' = SetAnnotations a m" by (auto simp: same_node_def)
  have "dialled_at m' us c = dialled_at m us c" for c
    by (simp add: m' dialled_at_def)
  then show "targeted env m' us x = targeted env m us x" by (cases x) simp_all
qed

abbreviation keeps_node :: "machine \<Rightarrow> ('w, machine \<times> 'r) tprog \<Rightarrow> bool" where
  "keeps_node m p \<equiv> yields p (\<lambda>r xs. (\<forall>x \<in> set xs. clientless x) \<and> same_node m (fst r))"

lemma patchAnnotations_keeps: "same_node m0 m \<Longrightarrow> keeps_node m0 (patchAnnotations env m mutate)"
  unfolding patchAnnotations_def by (intro yields_branch yields_bind_extcall yields_return) auto

lemma follows_bind_keeps:
  assumes "keeps_node m p" and "\<And>m' r us. same_node m m' \<Longrightarrow> follows (targeted env m) us (k (m', r)) Q"
  shows "follows (targeted env m) us (State_Monad.bind p k) Q"
proof (rule follows_bind_yields [OF assms(1)], goal_cases)
  case (1 r xs)
  then show ?case by (simp add: guarded_clientless)
next
  case (2 r xs)
  with assms(2) [of "fst r" "us @ xs" "snd r"] show ?case by simp
qed

lemma keeps_node_bind:
  assumes "keeps_node m p" and "\<And>m' r. same_node m m' \<Longrightarrow> keeps_node m (k (m', r))"
  shows "keeps_node m (State_Monad.bind p k)"
proof (rule yields_bind [OF assms(1)], goal_cases)
  case (1 r xs)
  with assms(2) [of "fst r" "snd r"] have "keeps_node m (k r)" by simp
  then show ?case by (rule yields_weaken) (use 1 in auto)
qed

lemma keeps_node_clientless:
  assumes "calls_only clientless p" and "\<And>r. keeps_node m (k r)"
  shows "keeps_node m (State_Monad.bind p k)"
  by (rule yields_bind_prefix [OF assms]) auto

lemma emit_clientless: "clientless a \<Longrightarrow> calls_only clientless (emit a)"
  by (rule yields_weaken [OF yields_emit]) simp

lemma stampPhase_keeps: "same_node m0 m \<Longrightarrow> keeps_node m0 (stampPhase env m key v)"
  unfolding stampPhase_def by (rule patchAnnotations_keeps)

lemma ensureHook_keeps: "same_node m0 m \<Longrightarrow> keeps_node m0 (ensureHook env m)"
  unfolding ensureHook_def event_def
  by (intro yields_branch yields_return keeps_node_bind [OF patchAnnotations_keeps])
    (auto intro!: keeps_node_clientless emit_clientless yields_branch yields_return)

lemma ensureObservedAt_keeps: "same_node m0 m \<Longrightarrow> keeps_node m0 (ensureObservedAt env m)"
  unfolding ensureObservedAt_def now_call_def Let_def
  by (intro yields_branch yields_return keeps_node_clientless [OF calls_only_extcall]
      keeps_node_bind [OF patchAnnotations_keeps]) (auto intro!: yields_return)

lemma conclude_etcd_keeps: "same_node m0 m \<Longrightarrow> keeps_node m0 (conclude_etcd env m v)"
proof -
  have "calls_only clientless (recordEtcdOutcome m v)" for m
    unfolding recordEtcdOutcome_def event_def
    by (intro calls_only_intros emit_clientless) simp_all
  then show "same_node m0 m \<Longrightarrow> keeps_node m0 (conclude_etcd env m v)"
    unfolding conclude_etcd_def
    by (intro keeps_node_bind [OF stampPhase_keeps]) (auto intro!: keeps_node_clientless yields_branch yields_return)
qed

lemma conclude_reset_keeps: "same_node m0 m \<Longrightarrow> keeps_node m0 (conclude_reset env m v)"
  unfolding conclude_reset_def event_def
  by (intro keeps_node_bind [OF stampPhase_keeps])
    (auto intro!: keeps_node_clientless emit_clientless yields_branch yields_return)

lemma release_keeps: "same_node m0 m \<Longrightarrow> keeps_node m0 (release env m)"
  unfolding release_def event_def
  by (intro yields_branch yields_return keeps_node_bind [OF patchAnnotations_keeps])
    (auto intro!: keeps_node_clientless emit_clientless yields_branch yields_return)

lemma ensureCredentials_clientless: "calls_only clientless (ensureCredentials env cfg m)"
proof -
  have "calls_only clientless (Ensure env ns cluster)" for ns cluster
    by (rule yields_weaken [OF Ensure_calls]) (auto simp: ensure_calls_def lookups_clientless)
  then show ?thesis
    unfolding ensureCredentials_def event_def
    by (intro calls_only_intros) (auto intro!: calls_only_intros emit_clientless split: prod.split)
qed

lemma follows_keeps: "keeps_node m p \<Longrightarrow> follows (targeted env m) us p (\<lambda>r _. same_node m (fst r))"
  unfolding follows_def by (erule yields_weaken) (auto intro: guarded_clientless)

lemma etcdPhase_targeted:
  assumes "same_node m0 m"
  shows "follows (targeted env m0) us (etcdPhase env cfg m t deleting) (\<lambda>r _. same_node m0 (fst r))"
proof -
  have act: "follows (targeted env m0) vs (tryEtcdRemoval env cfg m) (\<lambda>_ _. True)" for vs
    using tryEtcdRemoval_targeted [of env m vs cfg] by (simp add: targeted_same_node [OF assms])
  have removal: "follows (targeted env m0) vs (ensureEtcdRemoved env cfg m t) (\<lambda>r _. same_node m0 (fst r))" for vs
    unfolding ensureEtcdRemoved_def Let_def now_call_def event_def
    by (intro follows_bind [OF act] follows_branch follows_return follows_bind_extcall follows_bind_emit
        follows_keeps conclude_etcd_keeps) (use assms in auto)
  have list: "calls_only clientless (serializeControlPlane env m)"
    unfolding serializeControlPlane_def listControlPlaneMachines_def by (intro calls_only_intros) simp
  show ?thesis
    unfolding etcdPhase_def event_def
    by (intro follows_branch follows_return follows_bind_clientless [OF list] removal
        follows_bind_keeps [OF stampPhase_keeps])
      (use assms in \<open>auto intro!: follows_branch follows_return follows_bind_emit\<close>)
qed

lemma resetPhase_targeted:
  assumes "same_node m0 m"
  shows "follows (targeted env m0) us (resetPhase env cfg m t) (\<lambda>r _. same_node m0 (fst r))"
proof -
  have act: "follows (targeted env m0) vs (tryReset env cfg m) (\<lambda>_ _. True)" for vs
    using tryReset_targeted [of env m vs cfg] by (simp add: targeted_same_node [OF assms])
  show ?thesis
    unfolding resetPhase_def Let_def now_call_def event_def
    by (intro follows_bind [OF act] follows_branch follows_return follows_bind_extcall follows_bind_emit
        follows_keeps conclude_reset_keeps) (use assms in auto)
qed

lemma preTerminate_targeted:
  assumes "same_node m0 m"
  shows "follows (targeted env m0) us (preTerminate env cfg m) (\<lambda>_ _. True)"
proof -
  have cl: "calls_only clientless (clusterDeleting env m)" for m
    unfolding clusterDeleting_def by (intro calls_only_intros) simp
  have finish: "follows (targeted env m0) vs (do {
       (m, e) \<leftarrow> resetPhase env cfg m t;
       case e of
         Some err \<Rightarrow> State_Monad.return (m, Inl err)
       | None \<Rightarrow> do {
           (m, e) \<leftarrow> release env m;
           State_Monad.return (m, case e of Some err \<Rightarrow> Inl err | None \<Rightarrow> Inr (0 :: duration))
         }
     }) (\<lambda>_ _. True)" if "same_node m0 m" for vs m t
    by (rule follows_bind [OF resetPhase_targeted [OF that]], intro follows_case_prod follows_branch follows_return
        follows_bind [OF follows_keeps [OF release_keeps]]) auto
  have phases: "follows (targeted env m0) vs (do {
       (m, r) \<leftarrow> etcdPhase env cfg m t d;
       if r \<noteq> Inr 0 then State_Monad.return (m, r)
       else do {
         (m, e) \<leftarrow> resetPhase env cfg m t;
         case e of
           Some err \<Rightarrow> State_Monad.return (m, Inl err)
         | None \<Rightarrow> do {
             (m, e) \<leftarrow> release env m;
             State_Monad.return (m, case e of Some err \<Rightarrow> Inl err | None \<Rightarrow> Inr 0)
           }
       }
     }) (\<lambda>_ _. True)" if "same_node m0 m" for vs m t d
    by (rule follows_bind [OF etcdPhase_targeted [OF that]], intro follows_case_prod follows_branch follows_return finish)
      auto
  show ?thesis
    unfolding preTerminate_def
    by (intro follows_branch follows_return follows_bind_keeps [OF ensureObservedAt_keeps [OF assms]])
      (auto intro!: follows_branch follows_return follows_bind_clientless [OF cl] phases)
qed

lemma reconcileDeleting_targeted:
  "follows (targeted env m) us (reconcileDeleting env cfg m) (\<lambda>_ _. True)"
  unfolding reconcileDeleting_def
  by (intro follows_branch follows_return preTerminate_targeted follows_bind_keeps [OF ensureHook_keeps])
    (auto intro!: follows_branch follows_return follows_bind_clientless [OF ensureCredentials_clientless]
       preTerminate_targeted)

lemma ReconcileMachine_targeted:
  "yields (ReconcileMachine env cfg req) (\<lambda>_ xs. \<exists>r ys. xs = TGetMachine req r # ys \<and> (case r of
     Inl _ \<Rightarrow> ys = [] | Inr m \<Rightarrow> guarded (targeted env m) [TGetMachine req r] ys))"
proof -
  have normal: "follows (targeted env m) us (reconcileNormal env cfg m) (\<lambda>_ _. True)" for m us
    unfolding reconcileNormal_def
    by (intro follows_bind_keeps [OF ensureHook_keeps])
      (auto intro!: follows_branch follows_return follows_weaken [OF follows_clientless [OF ensureCredentials_clientless]])
  have rest: "follows (targeted env m) us
      (if \<not> Qualifies m \<and> \<not> HasHook m then State_Monad.return (Inr 0)
       else if m_Deletion m = None then do {
         e \<leftarrow> reconcileNormal env cfg m;
         State_Monad.return (case e of Some err \<Rightarrow> Inl err | None \<Rightarrow> Inr 0)
       }
       else do { (m, result) \<leftarrow> reconcileDeleting env cfg m; State_Monad.return result }) (\<lambda>_ _. True)" for m us
    by (intro follows_branch follows_return follows_bind [OF normal] follows_bind [OF reconcileDeleting_targeted]
        follows_case_prod) simp_all
  show ?thesis
    unfolding ReconcileMachine_def
    by (intro yields_bind_extcall yields_case_sum yields_return yields_weaken [OF rest [unfolded follows_def]]) auto
qed

section \<open>Only the deleted node is wiped\<close>

fun client_of :: "tcall \<Rightarrow> talos_client option" where
  "client_of (TReset c _ _ _) = Some c"
| "client_of (TForfeit c _ _) = Some c"
| "client_of (TLeave c _ _) = Some c"
| "client_of (TRemove c _ _ _) = Some c"
| "client_of (TServiceInfo c _ _) = Some c"
| "client_of (TMemberList c _ _) = Some c"
| "client_of (TClose c) = Some c"
| "client_of _ = None"

lemma reconcile_call_targeted:
  assumes "run_state (ReconcileMachine env cfg req) \<lparr>world = w, trace = []\<rparr> = (result, s')"
    and "trace s' = us @ x # vs" and "us \<noteq> []"
  obtains m us' where "us = TGetMachine req (Inr m) # us'" "targeted env m us x"
    "\<And>a c. TDial a (Inr c) \<in> set us \<Longrightarrow> \<exists>tc w w'. te_Dial env tc a w = (Inr c, w')"
proof -
  from yields_run_empty [OF ReconcileMachine_targeted assms(1)] obtain r zs where
    r: "trace s' = TGetMachine req r # zs" "case r of Inl _ \<Rightarrow> zs = [] | Inr m \<Rightarrow> guarded (targeted env m) [TGetMachine req r] zs"
    by blast
  with assms(2,3) obtain m where "r = Inr m" by (cases r; cases us) auto
  with r assms(2) obtain ys where
    ys: "us @ x # vs = TGetMachine req (Inr m) # ys" "guarded (targeted env m) [TGetMachine req (Inr m)] ys" by auto
  with assms(3) obtain us' where us: "us = TGetMachine req (Inr m) # us'" "ys = us' @ x # vs"
    by (cases us) auto
  have dial: "\<exists>tc w w'. te_Dial env tc a w = (Inr c, w')" if d: "TDial a (Inr c) \<in> set us" for a c
  proof -
    from d us(1) obtain ps qs where p: "us' = ps @ TDial a (Inr c) # qs" by (auto dest: split_list)
    with ys(2) us(2) have "targeted env m ([TGetMachine req (Inr m)] @ ps) (TDial a (Inr c))" by simp
    then obtain tc w where "fst (te_Dial env tc a w) = Inr c" by auto
    then show ?thesis by (metis prod.collapse)
  qed
  show thesis
    by (rule that [OF _ _ dial]) (use us ys in auto)
qed

text \<open>The Machine in memory is the one that was read, with other annotations.\<close>

lemma memory_same_node:
  "guarded (permitted cfg) [] (TGetMachine k (Inr m) # us) \<Longrightarrow> \<exists>a. memory (TGetMachine k (Inr m) # us) = Some (SetAnnotations a m)"
proof (induction us rule: rev_induct)
  case Nil
  show ?case by (auto simp: memory_def intro: SetAnnotations_sel(13) [symmetric])
next
  case (snoc x us)
  then obtain a where a: "memory (TGetMachine k (Inr m) # us) = Some (SetAnnotations a m)" by auto
  have "permitted cfg (TGetMachine k (Inr m) # us) x" using snoc.prems by simp
  with a memory_snoc [of "TGetMachine k (Inr m) # us" x] show ?case by (cases x) auto
qed

text \<open>C4: Only the deleted node is wiped. With the production client factory, and provided the Talos
  library connects a client to the endpoints it is given: every call on a client reaches exactly the
  one address the client was dialled at; a reset, a forfeit and a leave reach a non-empty address that
  the reads of this reconcile found for the Machine that was read; and a removal is asked of an address
  found for another control-plane Machine of its cluster, one that is neither being deleted nor leaving
  etcd and whose node reported a healthy etcd and a member list, and names the member of that list that
  matches the Machine.\<close>

theorem only_the_deleted_node_is_wiped:
  assumes "honours_endpoints lib endpoints"
    and "run_state (ReconcileMachine (production_tenv lib env) cfg req) \<lparr>world = w, trace = []\<rparr> = (result, s')"
    and "trace s' = us @ x # vs" and "client_of x = Some c"
  shows "\<exists>m a. TGetMachine req (Inr m) \<in> set us \<and> TDial a (Inr c) \<in> set us \<and> endpoints c = [a]
    \<and> (is_reset x \<or> (\<exists>d. is_leave d x) \<longrightarrow> a \<noteq> [] \<and> resolves us m a)
    \<and> (\<forall>i d e. x = TRemove c i d e \<longrightarrow> (\<exists>peers p svcs resp member.
          TListPeers m (Inr peers) \<in> set us \<and> p \<in> set peers \<and> m_Name p \<noteq> m_Name m \<and> m_Deletion p = None
        \<and> \<not> mhas (m_Annotations p) EtcdLeavingAnnotation \<and> a \<noteq> [] \<and> resolves us p a
        \<and> TServiceInfo c (EtcdCallTimeout cfg) (Inr svcs) \<in> set us \<and> etcdHealthy svcs
        \<and> TMemberList c (EtcdCallTimeout cfg) (Inr resp) \<in> set us
        \<and> findMember resp (hostnameCandidates m) = Some member \<and> i = MemberId member))"
proof -
  let ?env = "production_tenv lib env" and ?d = "EtcdCallTimeout cfg"
  have "us \<noteq> []"
    using yields_run_empty [OF ReconcileMachine_targeted assms(2)] assms(3,4) by (cases us) auto
  from reconcile_call_targeted [OF assms(2,3) this] obtain m us' where
    m: "us = TGetMachine req (Inr m) # us'" "targeted ?env m us x"
    and dial: "\<And>a c. TDial a (Inr c) \<in> set us \<Longrightarrow> \<exists>tc w w'. te_Dial ?env tc a w = (Inr c, w')" by blast
  have ends: "endpoints c = [a]" if "TDial a (Inr c) \<in> set us" for a
    using dial [OF that] dial_production_endpoint [OF assms(1)] by (auto simp: production_tenv_def)
  from m(2) assms(4) have "dialled c us" by (cases x) (auto dest: dialled_at_dialled)
  then obtain a where a: "TDial a (Inr c) \<in> set us" by (auto simp: dialled_def)
  have same: "a' = a" if "TDial a' (Inr c) \<in> set us" for a' using ends [OF a] ends [OF that] by simp
  have own: "a \<noteq> [] \<and> resolves us m a" if "is_reset x \<or> (\<exists>d. is_leave d x)"
    using that m(2) assms(4) same by (cases x) (auto simp: dialled_at_def)
  have peer: "\<exists>peers p svcs resp member.
          TListPeers m (Inr peers) \<in> set us \<and> p \<in> set peers \<and> m_Name p \<noteq> m_Name m \<and> m_Deletion p = None
        \<and> \<not> mhas (m_Annotations p) EtcdLeavingAnnotation \<and> a \<noteq> [] \<and> resolves us p a
        \<and> TServiceInfo c ?d (Inr svcs) \<in> set us \<and> etcdHealthy svcs \<and> TMemberList c ?d (Inr resp) \<in> set us
        \<and> findMember resp (hostnameCandidates m) = Some member \<and> i = MemberId member" if "x = TRemove c i d e" for i d e
  proof -
    have g: "guarded (permitted cfg) [] us" using ReconcileMachine_trace [OF assms(2)] assms(3) by simp
    from memory_same_node [OF g [unfolded m(1)]] obtain b where b: "memory us = Some (SetAnnotations b m)" by (auto simp: m(1))
    from ReconcileMachine_permitted [OF assms(2,3)] that obtain resp member where
      h: "healthy_peer ?d (SetAnnotations b m) c resp us"
      "findMember resp (hostnameCandidates m) = Some member" "i = MemberId member"
      using b by (auto simp: etcd_change_permitted_def going_def justified_def)
    from h(1) obtain peers p a' svcs ps qs where
      p: "TListPeers m (Inr peers) \<in> set us" "p \<in> set peers" "m_Name p \<noteq> m_Name m" "m_Deletion p = None"
        "\<not> mhas (m_Annotations p) EtcdLeavingAnnotation" "a' \<noteq> []" "etcdHealthy svcs" "resolves ps p a'"
      and us: "us = ps @ [TDial a' (Inr c), TServiceInfo c ?d (Inr svcs), TMemberList c ?d (Inr resp)] @ qs"
      unfolding healthy_peer_def probed_def in_a_row_def by auto
    have "TDial a' (Inr c) \<in> set us" "TServiceInfo c ?d (Inr svcs) \<in> set us" "TMemberList c ?d (Inr resp) \<in> set us"
      by (simp_all add: us)
    moreover have "resolves us p a'" unfolding us by (rule resolves_grows(1) [OF p(8)])
    ultimately show ?thesis using p same h(2,3) by blast
  qed
  have "TGetMachine req (Inr m) \<in> set us" by (simp add: m(1))
  with a ends [OF a] own peer show ?thesis by blast
qed

text \<open>A library that knows two nodes; the sample environment is built on it.\<close>

definition sample_library :: "unit talos_library" where
  "sample_library = \<lparr>
     tl_New = (\<lambda>opts w. (if option_endpoints [] opts = [''10.0.0.1''] then Inr 1
       else if option_endpoints [] opts = [''10.0.0.2''] then Inr 2 else Inl (OtherError ''unreachable''), w)),
     tl_ServiceInfo = (\<lambda>c _. te_ServiceInfo sample_tenv c), tl_EtcdMemberList = te_EtcdMemberList sample_tenv,
     tl_EtcdForfeitLeadership = te_EtcdForfeitLeadership sample_tenv,
     tl_EtcdLeaveCluster = te_EtcdLeaveCluster sample_tenv,
     tl_EtcdRemoveMemberByID = te_EtcdRemoveMemberByID sample_tenv,
     tl_ResetGeneric = te_ResetGeneric sample_tenv, tl_Close = te_Close sample_tenv\<rparr>"

definition sample_endpoints :: "talos_client \<Rightarrow> string list" where
  "sample_endpoints c = (if c = 1 then [''10.0.0.1''] else [''10.0.0.2''])"

lemma sample_library_honours: "honours_endpoints sample_library sample_endpoints"
  by (auto simp: honours_endpoints_def sample_library_def sample_endpoints_def split: if_splits)

lemma sample_production: "production_tenv sample_library (sample_tenv_at m) = sample_tenv_at m"
  by (simp add: production_tenv_def sample_tenv_at_def sample_library_def dial_production_def NewTalosClient_def
      fun_eq_iff)

theorem only_the_deleted_node_is_wiped_witness:
  "\<exists>us vs m. sample_trace = us @ TReset 1 reset_request_sent (ResetCallTimeout sample_cfg) None # vs
     \<and> TGetMachine sample_req (Inr m) \<in> set us \<and> sample_endpoints 1 = [''10.0.0.1''] \<and> resolves us m ''10.0.0.1''"
proof -
  obtain us vs where t: "sample_trace = us @ TReset 1 reset_request_sent (ResetCallTimeout sample_cfg) None # vs"
    using split_list [of "TReset 1 reset_request_sent (ResetCallTimeout sample_cfg) None" sample_trace]
    by (auto simp: sample_trace_def reset_trace_def)
  have tr: "trace \<lparr>world = (), trace = sample_trace\<rparr>
      = us @ TReset 1 reset_request_sent (ResetCallTimeout sample_cfg) None # vs" using t by simp
  from sample_run have run: "run_state (ReconcileMachine (production_tenv sample_library sample_tenv) sample_cfg sample_req)
      \<lparr>world = (), trace = []\<rparr> = (Inr 0, \<lparr>world = (), trace = sample_trace\<rparr>)"
    by (simp only: sample_production)
  from only_the_deleted_node_is_wiped [OF sample_library_honours run tr, of 1] t show ?thesis
    by (auto simp: sample_production sample_endpoints_def)
qed

end
