(* ===== verification/Spec2Isabelle.thy ===== *)
theory Spec2Isabelle
  imports DiscoveryPipeline SharedHardware JanitorMetrics JanitorSetup TeardownSetup AddressProperties
    TeardownHistory TeardownConcurrency TeardownLiveness TeardownMetrics TalosTargets
begin

text \<open>
  Verification of the Tinkerbell runtime extensions: three Kubernetes controllers around Tinkerbell
  hardware, written in Go under \<open>src/cmd\<close> and \<open>src/internal\<close>.

  The discovery controller (\<open>cmd/main.go\<close>) browses mDNS for BMCs (\<open>internal/mdns\<close>), logs in to each
  with a chain of credentials and collects its inventory (\<open>internal/inventory\<close>), and writes an auth
  Secret, a bmc Machine and a Hardware for it (\<open>internal/sync\<close>); \<open>internal/controller\<close> drives it. The
  teardown controller (\<open>cmd/talos-machine-teardown\<close>, \<open>internal/teardown\<close>) holds a Cluster API Machine
  at its pre-terminate hook until the node's etcd member is removed and the node is reset. The janitor
  (\<open>cmd/tinkerbell-hardware-janitor\<close>, \<open>internal/janitor\<close>) scrubs released Hardware. The controllers do
  not call each other; they share Hardware objects: discovery writes sparse Hardware, without the
  userData and metadata that CAPT and the janitor own, but with the whole interfaces list, in which it carries
  the netboot block it read; of a specification the janitor changes userData, metadata and netboot only.

  How the model is built. Data types of the program are records and datatypes with its constructors;
  pure functions are HOL functions of the same name; every effect is a computation of the library's
  state monad over an outside world of any type and the trace of the calls made on it, each with the
  arguments that select what it acts on (keys, namespaces, label selectors, time-outs) and its answer. The API server,
  Talos nodes, BMCs, mDNS, the clock, the recorder, controller-runtime and the parser of talosconfig
  files are not under \<open>src/\<close>: their calls are the fields of an environment record, and what the code
  relies on of them is a hypothesis of the theorem that needs it, with a witness on a concrete
  environment. Go errors are the datatype \<open>go_error\<close>; nil pointers are \<open>None\<close>; a string is its
  bytes. Log lines, event texts and contexts are left out, but time-outs are arguments of the calls.

  The theories, and the code they model:

  \<^item> \<open>Prelude\<close>: Go maps, keys, errors, effects; contracts (\<open>triple\<close>, \<open>yields\<close>, \<open>calls_only\<close>) and
    protocols (\<open>follows\<close>: each call is permitted by the calls before it) with their rules.
  \<^item> \<open>GoStrings\<close>, \<open>GoTime\<close>: the functions of Go's strings, unicode/utf8, strconv and time packages that
    the program uses, with their round trips.
  \<^item> \<open>KubeTypes\<close>: the Kubernetes objects; the locale \<open>revision_store\<close>, optimistic concurrency, with a
    reference server as its interpretation.
  \<^item> \<open>Janitor\<close>, \<open>JanitorReconciler\<close>, \<open>JanitorSetup\<close>: \<open>internal/janitor\<close>. The truth table, the scrub
    and its frame, the reconcile; a claimed object is never overwritten; on an undisturbed server the
    controller settles.
  \<^item> \<open>Controllers\<close>: the tables that the two \<open>SetupWithManager\<close> hand to controller-runtime.
  \<^item> \<open>Qualify\<close>, \<open>EtcdMembers\<close>, \<open>Peers\<close>, \<open>TeardownEnv\<close>, \<open>Credentials\<close>, \<open>Teardown\<close>, \<open>TeardownSetup\<close>:
    \<open>internal/teardown\<close>, file by file (\<open>qualify.go\<close> and \<open>teardown.go\<close>; \<open>etcd.go\<close>; \<open>sortByAge\<close>,
    \<open>orderPeers\<close> and the loop of \<open>serializeControlPlane\<close>; \<open>address.go\<close> and the client seam of
    \<open>talos.go\<close>; \<open>credentials.go\<close>; \<open>reconciler.go\<close>; \<open>setup.go\<close>).
  \<^item> \<open>TeardownCalls\<close>, \<open>TeardownProtocol\<close>, \<open>TeardownRefinement\<close>: contracts of the dialogs with Talos
    nodes, which carry the evidence of a dialog (which peer was dialled at which looked-up address, that
    it was healthy and what it listed) into what may follow it; the abstract specification, a protocol over
    traces whose only state is the Machine last read or patched; and the proof that \<open>ReconcileMachine\<close> refines it. \<open>TeardownProperties\<close> and
    \<open>CredentialProperties\<close> read the properties off the protocol; \<open>NodeAddresses\<close> holds the documented
    list of address candidates and says which address the reads of a trace give a Machine
    (\<open>resolves\<close>), \<open>AddressProperties\<close> compares \<open>resolveAddress\<close> with that list on every path; \<open>TeardownSample\<close> computes a run for
    the witnesses.
  \<^item> \<open>TeardownHistory\<close>: any number of reconciles of one Machine, each of which may stop anywhere, and
    what others do to it in between, with a relation of what a cached read may show: a phase annotation
    is never taken off; a recorded conclusion is final while the cache has caught up with the
    controller's own patches; and the two gaps, a crash between the acknowledged reset and its stamp, and a
    stale read.
  \<^item> \<open>TeardownConcurrency\<close>: two Machines of one control plane, reconciled at the same time; how far the
    lists they read keep their etcd changes apart. \<open>TeardownLiveness\<close>: what a reconcile tells
    controller-runtime to do next, so that no waiting Machine is forgotten.
  \<^item> \<open>TalosClient\<close>, \<open>TalosTargets\<close>: \<open>talos.go\<close>, the production factory and adapter over the Talos
    library, and which node each call of a reconcile reaches.
  \<^item> \<open>Ledger\<close>, \<open>Collectors\<close>, \<open>TeardownMetrics\<close>, \<open>JanitorMetrics\<close>: double-entry book-keeping over
    traces with its rules; the collectors of the two \<open>metrics.go\<close>; and the proof that what is counted
    is what happened.
  \<^item> \<open>Mdns\<close>, \<open>Inventory\<close>, \<open>Naming\<close>, \<open>Mapping_Resources\<close>, \<open>Syncer\<close>, \<open>Worker\<close>: \<open>internal/mdns\<close>,
    \<open>internal/inventory\<close>, \<open>sync/names.go\<close>, \<open>sync/mapping.go\<close>, \<open>sync/syncer.go\<close>,
    \<open>controller/worker.go\<close>. \<open>SyncerProperties\<close> and \<open>WorkerProperties\<close> hold the protocol of one sync,
    of one handled key, the origin of every write (the handling, the attempt and the world of its collect),
    and the invariants of every run of the worker. The locale
    \<open>verified_collector\<close> is \<open>inventory.Collector\<close> as the worker relies on it, interpreted on the
    bmclib collector.
  \<^item> \<open>Commands\<close>: the three mains, from parsed flags to the running manager, and \<open>internal/logging\<close>.
  \<^item> \<open>DiscoveryPipeline\<close>: the browser's loop, composed with the worker and the syncer: what is written
    for what is heard. \<open>SharedHardware\<close>: what an apply of discovery does to a Hardware that the janitor,
    CAPT and the teardown rely on too, under any server-side apply with the documented contract.

  Interleaving. A reconcile or a handled key is sequential, but the world may change between any two
  of its calls, so every theorem over an arbitrary environment covers concurrent writers. \<open>Start\<close> and
  \<open>processQueue\<close> of the worker share one map under a mutex: they are steps of \<open>worker_step\<close>, and
  \<open>handle\<close>, which reads the map once, at its start, is one step.

  Termination. All definitions are total. The loops of the code run over finite lists; the scanning
  functions on strings recurse on shorter strings (\<open>expand\<close> has a measure). No fuel is used. The
  endless loops (the worker's, the browser's, the garbage collector's) are runs over the list of
  what their select statements see.

  Not modelled: what controller-runtime does with the tables of watches and with failed items, the help
  texts and buckets of the metrics, the lengths of the mDNS browser's timers, log output, and everything
  outside Go (charts, manifests, generated CRDs, documents). The parsing of the flags itself is the flag
  package's. Machines are read through the manager's cache: no theorem about a single reconcile assumes
  that a read is fresh, and the histories of \<open>TeardownHistory\<close> take what reads may show as a parameter;
  only the finality of conclusions asks that they show the phase annotations stored by then, and it fails
  for a read that does not (\<open>reset_repeated_on_stale_read\<close>). That two clusters may share the name of a
  cached copy (\<open>cached_names_collide\<close> in \<open>CredentialProperties\<close>) is a finding about the code.
\<close>

end
